theory Spec2Isabelle
  imports Complex_Main
begin

unbundle bit_operations_syntax

section \<open>The globe component: picking buffer, hover and click state\<close>

text \<open>
  The component keeps its interaction state in the local variables of one React effect
  (\<^verbatim>\<open>hoveredCountryIdx\<close>, \<^verbatim>\<open>clickedCountryIdx\<close>, \<^verbatim>\<open>clickTimeout\<close>,
  \<^verbatim>\<open>targetZoom\<close>, ...) and in the objects of the scene. The model below threads them through
  the handlers as one record. What the browser and the libraries decide is a parameter:
  how a \<^verbatim>\<open>fill\<close> paints the pixels, where a ray hits the sphere, when a timer or a tween
  fires. JavaScript numbers are \<open>int\<close> where the code uses them as indices and colour
  channels, and \<open>real\<close> where it uses them as coordinates and zoom factors: a double is
  read as the number it denotes. Where the code floors a product of doubles, in
  \<^verbatim>\<open>updateMap\<close>, the rounding of the double operations is part of the model.
\<close>

subsection \<open>JavaScript's 32-bit operators\<close>

definition toInt32 :: "int \<Rightarrow> int" where
  "toInt32 n = (n + 2 ^ 31) mod 2 ^ 32 - 2 ^ 31"

definition js_shr :: "int \<Rightarrow> nat \<Rightarrow> int" where
  "js_shr a k = drop_bit (k mod 32) (toInt32 a)"

definition js_shl :: "int \<Rightarrow> nat \<Rightarrow> int" where
  "js_shl a k = toInt32 (push_bit (k mod 32) (toInt32 a))"

definition js_and :: "int \<Rightarrow> int \<Rightarrow> int" where
  "js_and a b = toInt32 a AND toInt32 b"

definition js_or :: "int \<Rightarrow> int \<Rightarrow> int" where
  "js_or a b = toInt32 a OR toInt32 b"

subsection \<open>Double arithmetic\<close>

text \<open>
  An operation on doubles gives the exact result rounded to the nearest double, a tie
  going to the even significand. The doubles around \<open>x\<close> are the multiples of
  \<open>2 powi (e - 52)\<close>, where \<open>2 powi e\<close> is the largest power of two not above \<open>\<bar>x\<bar>\<close>, and
  the multiples of \<open>2 powi (- 1074)\<close> below the normal range. \<open>binadeFrom\<close> looks for \<open>e\<close>
  downwards from 1023, the exponent of the largest doubles, and gives up at \<open>- 1075\<close>.
  Results of \<open>2 ^ 1024\<close> and more, which a double operation turns into \<^verbatim>\<open>Infinity\<close>, are
  not modelled: no texture coordinate leads there.
\<close>

fun binadeFrom :: "nat \<Rightarrow> int \<Rightarrow> real \<Rightarrow> int" where
  "binadeFrom 0 e x = e"
| "binadeFrom (Suc n) e x = (if 2 powi e \<le> x then e else binadeFrom n (e - 1) x)"

definition ulpExponent :: "real \<Rightarrow> int" where
  "ulpExponent x = max (binadeFrom 2098 1023 \<bar>x\<bar> - 52) (- 1074)"

definition roundHalfEven :: "real \<Rightarrow> int" where
  "roundHalfEven q =
     (let f = \<lfloor>q\<rfloor> in
      if q - of_int f < 1 / 2 then f
      else if 1 / 2 < q - of_int f then f + 1
      else if even f then f else f + 1)"

definition toDouble :: "real \<Rightarrow> real" where
  "toDouble x = of_int (roundHalfEven (x / 2 powi ulpExponent x)) * 2 powi ulpExponent x"

definition js_mul :: "real \<Rightarrow> real \<Rightarrow> real" where
  "js_mul a b = toDouble (a * b)"

definition js_sub :: "real \<Rightarrow> real \<Rightarrow> real" where
  "js_sub a b = toDouble (a - b)"

text \<open>\<^verbatim>\<open>s || ''\<close> on a string: the empty string is the only falsy one.\<close>

definition or_empty :: "string \<Rightarrow> string" where
  "or_empty s = (if s = [] then [] else s)"

subsection \<open>Country paths and the picking canvas\<close>

text \<open>One entry of \<^verbatim>\<open>svgPaths\<close>: \<^verbatim>\<open>{ d, name, id }\<close>.\<close>

record country_path =
  path_d :: string
  path_name :: string
  path_id :: string

definition svgViewBox :: "int \<times> int" where
  "svgViewBox = (2000, 1000)"

definition offsetY :: real where
  "offsetY = - (1 / 10)"

text \<open>The four bytes \<^verbatim>\<open>getImageData(x, y, 1, 1).data\<close> returns.\<close>

datatype rgba = RGBA (chan_r: int) (chan_g: int) (chan_b: int) (chan_a: int)

type_synonym canvas2d = "int \<times> int \<Rightarrow> rgba"

text \<open>
  The rasteriser of the browser. \<open>coverage R (tx, ty) d (x, y)\<close> is how much of the pixel
  \<open>(x, y)\<close> the fill of \<^verbatim>\<open>new Path2D(d)\<close> under the translation \<open>(tx, ty)\<close> covers, from 0
  (the pixel is not touched) to 255 (all of it): \<^verbatim>\<open>fill\<close> anti-aliases, so a pixel on the
  rim of a polygon is covered in part. \<open>composite R a colour old\<close> is what such a pixel
  holds, as \<^verbatim>\<open>getImageData\<close> reads it back, once the fill colour has been blended at the
  coverage \<open>a\<close> into the pixel \<open>old\<close>. A pixel that is covered in full takes the fill
  colour, which is opaque here.
\<close>

record rasteriser =
  coverage :: "real \<times> real \<Rightarrow> string \<Rightarrow> int \<times> int \<Rightarrow> nat"
  composite :: "nat \<Rightarrow> rgba \<Rightarrow> rgba \<Rightarrow> rgba"

definition transparent :: rgba where
  "transparent = RGBA 0 0 0 0"

text \<open>\<^verbatim>\<open>rgb(${n >> 16 & 255}, ${n >> 8 & 255}, ${n & 255})\<close> as a fill style.\<close>

definition fillStyle_rgb :: "int \<Rightarrow> rgba" where
  "fillStyle_rgb n =
     RGBA (js_and (js_shr n 16) 255) (js_and (js_shr n 8) 255) (js_and n 255) 255"

definition fill :: "rasteriser \<Rightarrow> real \<times> real \<Rightarrow> rgba \<Rightarrow> string \<Rightarrow> canvas2d \<Rightarrow> canvas2d" where
  "fill R t colour d c =
     (\<lambda>p. if coverage R t d p = 0 then c p
          else if 255 \<le> coverage R t d p then colour
          else composite R (coverage R t d p) colour (c p))"

text \<open>\<^verbatim>\<open>pickingCtx.translate(0, -offsetY * svgViewBox[1])\<close>.\<close>

definition pickingTranslate :: "real \<times> real" where
  "pickingTranslate = (0, - offsetY * real_of_int (snd svgViewBox))"

text \<open>The \<^verbatim>\<open>svgPaths.forEach((path, i) => ...)\<close> loop, \<open>i\<close> the running index.\<close>

fun fillPaths :: "rasteriser \<Rightarrow> country_path list \<Rightarrow> int \<Rightarrow> canvas2d \<Rightarrow> canvas2d" where
  "fillPaths R [] i c = c"
| "fillPaths R (p # ps) i c =
     fillPaths R ps (i + 1) (fill R pickingTranslate (fillStyle_rgb (i + 1)) (path_d p) c)"

definition pickingCanvas :: "rasteriser \<Rightarrow> country_path list \<Rightarrow> canvas2d" where
  "pickingCanvas R paths = fillPaths R paths 0 (\<lambda>p. transparent)"

text \<open>Reading outside the canvas gives transparent black.\<close>

definition getImageData :: "canvas2d \<Rightarrow> int \<Rightarrow> int \<Rightarrow> rgba" where
  "getImageData c x y =
     (if 0 \<le> x \<and> x < fst svgViewBox \<and> 0 \<le> y \<and> y < snd svgViewBox then c (x, y)
      else transparent)"

text \<open>
  The words of the picking claims: the pixel \<open>px\<close> is on the canvas and the fill of
  country \<open>j\<close> covers it in full, or touches it at all; \<open>j\<close> covers it and no later
  country of the array touches it; no country touches it.
\<close>

definition inCanvas :: "int \<times> int \<Rightarrow> bool" where
  "inCanvas px = (0 \<le> fst px \<and> fst px < fst svgViewBox \<and> 0 \<le> snd px \<and> snd px < snd svgViewBox)"

definition covers :: "rasteriser \<Rightarrow> country_path list \<Rightarrow> nat \<Rightarrow> int \<times> int \<Rightarrow> bool" where
  "covers R paths j px =
     (j < length paths \<and> inCanvas px
      \<and> 255 \<le> coverage R pickingTranslate (path_d (paths ! j)) px)"

definition touches :: "rasteriser \<Rightarrow> country_path list \<Rightarrow> nat \<Rightarrow> int \<times> int \<Rightarrow> bool" where
  "touches R paths j px =
     (j < length paths \<and> inCanvas px \<and> 0 < coverage R pickingTranslate (path_d (paths ! j)) px)"

definition topmost :: "rasteriser \<Rightarrow> country_path list \<Rightarrow> nat \<Rightarrow> int \<times> int \<Rightarrow> bool" where
  "topmost R paths j px =
     (covers R paths j px \<and> list_all (\<lambda>k. \<not> touches R paths k px) [Suc j..<length paths])"

definition uncovered :: "rasteriser \<Rightarrow> country_path list \<Rightarrow> int \<times> int \<Rightarrow> bool" where
  "uncovered R paths px = list_all (\<lambda>k. \<not> touches R paths k px) [0..<length paths]"

type_synonym uv = "real \<times> real"

text \<open>
  \<^verbatim>\<open>Math.floor(uv.x * pickingCanvas.width)\<close> and
  \<^verbatim>\<open>Math.floor((1 - uv.y) * pickingCanvas.height)\<close>; the floor of a double is exact.
\<close>

definition pixelOf :: "uv \<Rightarrow> int \<times> int" where
  "pixelOf p =
     (\<lfloor>js_mul (fst p) (real_of_int (fst svgViewBox))\<rfloor>,
      \<lfloor>js_mul (js_sub 1 (snd p)) (real_of_int (snd svgViewBox))\<rfloor>)"

text \<open>\<^verbatim>\<open>(pixel[0] << 16) | (pixel[1] << 8) | pixel[2]\<close>, minus one.\<close>

definition decodeIndex :: "rgba \<Rightarrow> int" where
  "decodeIndex px = js_or (js_or (js_shl (chan_r px) 16) (js_shl (chan_g px) 8)) (chan_b px) - 1"

subsection \<open>The state of the effect\<close>

datatype drawing =
    Blank real
  | MapDrawing real bool
  | CountryDrawing int string string real real

record texture =
  content :: drawing
  version :: nat

datatype tween_target =
  GlobeGroupRotation | GlobeGroupScale | SelectionOuterScale | ClickedScale | CameraZoom

datatype callback = NoCallback | RestoreAutoRotate | EnableHover | HideClicked | HideSelection

record tween =
  tw_target :: tween_target
  tw_goal :: "real list"
  tw_duration :: real
  tw_ease :: string
  tw_onComplete :: callback

record selection =
  sel_name :: string
  sel_id :: string

text \<open>
  What the effect closes over and never changes after its setup: the loaded paths, the
  device-motion flag, the picking context (\<open>None\<close> when \<^verbatim>\<open>getContext('2d')\<close> gave
  null, else the pixels of the picking canvas) and whether the other 2D contexts exist.
\<close>

record config =
  svgPaths :: "country_path list"
  isDeviceMotionActive :: bool
  pickingCtx :: "canvas2d option"
  mapCtx :: bool
  strokesCtx :: bool
  highlightCtx :: bool
  clickCtx :: bool

text \<open>
  The mutable state. \<open>timers\<close> is the browser's table of pending timeouts (handle and
  delay in milliseconds; every timeout of this model calls \<^verbatim>\<open>revertClick\<close>), \<open>tweens\<close> the
  animations gsap has not finished. \<open>countryName\<close> and \<open>clickedCountry\<close> are React
  state; an object passed to \<^verbatim>\<open>setClickedCountry\<close> carries a fresh identity, which is what
  the dependency comparison of the detail effect sees.
\<close>

record globe =
  hoveredCountryIdx :: int
  clickedCountryIdx :: int
  clickTimeout :: "nat option"
  isTouchScreen :: bool
  isHoverable :: bool
  targetZoom :: real
  autoRotate :: bool
  selectionVisible :: bool
  clickedVisible :: bool
  selectionScale :: real
  clickedScale :: real
  mapTexture :: texture
  strokesTexture :: texture
  highlightTexture :: texture
  clickTexture :: texture
  tweens :: "tween list"
  timers :: "(nat \<times> nat) list"
  nextTimer :: nat
  countryName :: string
  clickedCountry :: "(nat \<times> selection) option"
  nextObj :: nat

definition strokeColor :: string where "strokeColor = ''#111111''"
definition defaultColor :: string where "defaultColor = ''#9a9591''"
definition hoverColor :: string where "hoverColor = ''#00C9A2''"
definition clickedColor :: string where "clickedColor = ''#ff3366''"
definition strokeWidth :: real where "strokeWidth = 2"
definition hiResScalingFactor :: real where "hiResScalingFactor = 8"
definition lowResScalingFactor :: real where "lowResScalingFactor = 3 / 2"

definition needsUpdate :: "texture \<Rightarrow> texture" where
  "needsUpdate t = t\<lparr>version := version t + 1\<rparr>"

text \<open>
  \<^verbatim>\<open>drawMap\<close> and \<^verbatim>\<open>drawCountry\<close>. A call that throws is \<open>None\<close>, here and in the
  handlers (what it had changed by then is not kept): \<^verbatim>\<open>svgPaths[index].d\<close> is a
  TypeError when \<open>index\<close> is neither \<open>-1\<close> nor an index of the array.
\<close>

definition drawMap :: "bool \<Rightarrow> texture \<Rightarrow> real \<Rightarrow> bool \<Rightarrow> texture" where
  "drawMap ctx t scale isStrokesOnly =
     (if \<not> ctx then t else t\<lparr>content := MapDrawing scale isStrokesOnly\<rparr>)"

definition drawCountry ::
  "config \<Rightarrow> bool \<Rightarrow> texture \<Rightarrow> int \<Rightarrow> string \<Rightarrow> real \<Rightarrow> real \<Rightarrow> texture option" where
  "drawCountry cfg ctx t index colour scale strokeMultiplier =
     (if \<not> ctx then Some t
      else if index = - 1 then Some (needsUpdate (t\<lparr>content := Blank scale\<rparr>))
      else if index < 0 \<or> int (length (svgPaths cfg)) \<le> index then None
      else Some (needsUpdate (t\<lparr>content :=
             CountryDrawing index colour
               (if strokeMultiplier > 1 then clickedColor else strokeColor)
               (strokeWidth * strokeMultiplier) scale\<rparr>)))"

definition killTweensOf :: "tween_target \<Rightarrow> globe \<Rightarrow> globe" where
  "killTweensOf t s = s\<lparr>tweens := filter (\<lambda>w. tw_target w \<noteq> t) (tweens s)\<rparr>"

definition gsap_to :: "tween_target \<Rightarrow> real list \<Rightarrow> real \<Rightarrow> string \<Rightarrow> callback \<Rightarrow> globe \<Rightarrow> globe" where
  "gsap_to t g dur e cb s =
     s\<lparr>tweens := tweens s @
        [\<lparr>tw_target = t, tw_goal = g, tw_duration = dur, tw_ease = e, tw_onComplete = cb\<rparr>]\<rparr>"

definition clearTimeout :: "nat \<Rightarrow> globe \<Rightarrow> globe" where
  "clearTimeout h s = s\<lparr>timers := filter (\<lambda>t. fst t \<noteq> h) (timers s)\<rparr>"

text \<open>\<^verbatim>\<open>if (clickTimeout) clearTimeout(clickTimeout)\<close>.\<close>

definition clearClickTimeout :: "globe \<Rightarrow> globe" where
  "clearClickTimeout s =
     (case clickTimeout s of
        None \<Rightarrow> s
      | Some h \<Rightarrow> if h \<noteq> 0 then clearTimeout h s else s)"

text \<open>\<^verbatim>\<open>clickTimeout = setTimeout(() => revertClick(), ms)\<close>; handles are positive.\<close>

definition setClickTimeout :: "nat \<Rightarrow> globe \<Rightarrow> globe" where
  "setClickTimeout ms s =
     s\<lparr>timers := timers s @ [(nextTimer s, ms)],
       clickTimeout := Some (nextTimer s),
       nextTimer := nextTimer s + 1\<rparr>"

definition setClickedCountry :: "selection option \<Rightarrow> globe \<Rightarrow> globe" where
  "setClickedCountry v s =
     (case v of
        None \<Rightarrow> s\<lparr>clickedCountry := None\<rparr>
      | Some c \<Rightarrow> s\<lparr>clickedCountry := Some (nextObj s, c), nextObj := nextObj s + 1\<rparr>)"

definition handleCountryClick :: "config \<Rightarrow> int \<Rightarrow> globe \<Rightarrow> globe option" where
  "handleCountryClick cfg idx s =
     (if clickedCountryIdx s = idx then Some s
      else if idx < 0 \<or> int (length (svgPaths cfg)) \<le> idx then None
      else
        let s1 = s\<lparr>clickedCountryIdx := idx\<rparr>;
            p = svgPaths cfg ! nat idx;
            s2 = setClickedCountry
                   (Some \<lparr>sel_name = or_empty (path_name p), sel_id = or_empty (path_id p)\<rparr>) s1
        in case drawCountry cfg (clickCtx cfg) (clickTexture s2) idx hoverColor lowResScalingFactor 4 of
             None \<Rightarrow> None
           | Some t \<Rightarrow>
               let s3 = s2\<lparr>clickTexture := t, clickedVisible := True\<rparr>;
                   s4 = killTweensOf ClickedScale s3;
                   s5 = s4\<lparr>clickedScale := 1\<rparr>;
                   s6 = gsap_to ClickedScale [102 / 100, 102 / 100, 102 / 100] (1 / 2)
                          ''back.out(1.5)'' NoCallback s5;
                   s7 = s6\<lparr>targetZoom := 3 / 2\<rparr>;
                   s8 = gsap_to CameraZoom [targetZoom s7] (8 / 10) ''power2.out'' NoCallback s7;
                   s9 = (if \<not> isDeviceMotionActive cfg then s8\<lparr>autoRotate := False\<rparr> else s8)
               in Some (setClickTimeout 3000 (clearClickTimeout s9)))"

definition revertClick :: "config \<Rightarrow> globe \<Rightarrow> globe" where
  "revertClick cfg s =
     (if clickedCountryIdx s = - 1 then s
      else
        let s1 = s\<lparr>clickedCountryIdx := - 1\<rparr>;
            s2 = setClickedCountry None s1;
            s3 = gsap_to ClickedScale [1, 1, 1] (1 / 2) [] HideClicked s2;
            s4 = s3\<lparr>targetZoom := 1\<rparr>;
            s5 = gsap_to CameraZoom [targetZoom s4] (8 / 10) ''power2.inOut'' NoCallback s4
        in if \<not> isDeviceMotionActive cfg then s5\<lparr>autoRotate := True\<rparr> else s5)"

definition updateMap :: "config \<Rightarrow> uv \<Rightarrow> bool \<Rightarrow> globe \<Rightarrow> (globe \<times> bool) option" where
  "updateMap cfg p isClick s =
     (case pickingCtx cfg of
        None \<Rightarrow> Some (s, False)
      | Some canvas \<Rightarrow>
        let x = fst (pixelOf p);
            y = snd (pixelOf p);
            pixel = getImageData canvas x y;
            index = decodeIndex pixel
        in if 0 \<le> index \<and> index < int (length (svgPaths cfg)) then
             (if isClick then
                (case handleCountryClick cfg index s of
                   None \<Rightarrow> None
                 | Some s' \<Rightarrow> Some (s', True))
              else if index \<noteq> hoveredCountryIdx s then
                (let s1 = s\<lparr>hoveredCountryIdx := index, selectionVisible := True\<rparr>
                 in case drawCountry cfg (highlightCtx cfg) (highlightTexture s1) index hoverColor
                           lowResScalingFactor 1 of
                      None \<Rightarrow> None
                    | Some t \<Rightarrow>
                        let s2 = s1\<lparr>highlightTexture := t,
                                    countryName := or_empty (path_name (svgPaths cfg ! nat index))\<rparr>;
                            s3 = killTweensOf SelectionOuterScale s2;
                            s4 = s3\<lparr>selectionScale := 1\<rparr>
                        in Some (gsap_to SelectionOuterScale [1015 / 1000, 1015 / 1000, 1015 / 1000]
                                   (4 / 10) ''back.out(1.5)'' NoCallback s4, True))
              else Some (s, True))
           else Some (s, False))"

definition clearHover :: "globe \<Rightarrow> globe" where
  "clearHover s =
     (if hoveredCountryIdx s \<noteq> - 1 then
        gsap_to SelectionOuterScale [1, 1, 1] (3 / 10) [] HideSelection
          (s\<lparr>hoveredCountryIdx := - 1, countryName := []\<rparr>)
      else s)"

text \<open>
  One frame. \<open>hit\<close> is what the ray caster found on the stroke mesh:
  \<^verbatim>\<open>intersects.length && intersects[0].uv\<close>.
\<close>

definition render :: "config \<Rightarrow> uv option \<Rightarrow> globe \<Rightarrow> globe option" where
  "render cfg hit s =
     (let r = (if isHoverable s then
                 (case hit of
                    Some p \<Rightarrow>
                      (case updateMap cfg p False s of
                         None \<Rightarrow> None
                       | Some (s', isHoveringCountry) \<Rightarrow>
                           Some (if \<not> isHoveringCountry then clearHover s' else s'))
                  | None \<Rightarrow> Some (clearHover s))
               else Some s)
      in case r of
           None \<Rightarrow> None
         | Some s' \<Rightarrow>
             Some (if isTouchScreen s' \<and> isHoverable s' then s'\<lparr>isHoverable := False\<rparr> else s'))"

definition handleClick :: "config \<Rightarrow> uv option \<Rightarrow> globe \<Rightarrow> globe option" where
  "handleClick cfg hit s =
     (case hit of
        Some p \<Rightarrow>
          (case updateMap cfg p True s of
             None \<Rightarrow> None
           | Some (s', clicked) \<Rightarrow> Some (if \<not> clicked then revertClick cfg s' else s'))
      | None \<Rightarrow> Some (revertClick cfg s))"

definition handleWheel :: "real \<Rightarrow> globe \<Rightarrow> globe" where
  "handleWheel deltaY s =
     (let zoomDelta = (if deltaY > 0 then - (3 / 10) else 3 / 10);
          s1 = s\<lparr>targetZoom := max (8 / 10) (min 3 (targetZoom s + zoomDelta))\<rparr>
      in gsap_to CameraZoom [targetZoom s1] (1 / 2) ''power2.out'' NoCallback s1)"

definition rotateToRegion :: "config \<Rightarrow> real \<Rightarrow> real \<Rightarrow> globe \<Rightarrow> globe" where
  "rotateToRegion cfg rotX rotY s =
     (if isDeviceMotionActive cfg then s
      else gsap_to GlobeGroupRotation [rotX, rotY] (3 / 2) ''power2.inOut'' RestoreAutoRotate
             (s\<lparr>autoRotate := False\<rparr>))"

definition prepareHiResTextures :: "config \<Rightarrow> globe \<Rightarrow> globe" where
  "prepareHiResTextures cfg s =
     s\<lparr>mapTexture := needsUpdate (drawMap (mapCtx cfg) (mapTexture s) hiResScalingFactor False),
       strokesTexture :=
         needsUpdate (drawMap (strokesCtx cfg) (strokesTexture s) hiResScalingFactor True),
       countryName :=
         (if hoveredCountryIdx s \<noteq> - 1 then
            (if 0 \<le> hoveredCountryIdx s \<and> hoveredCountryIdx s < int (length (svgPaths cfg))
             then or_empty (path_name (svgPaths cfg ! nat (hoveredCountryIdx s))) else [])
          else [])\<rparr>"

text \<open>The \<^verbatim>\<open>onComplete\<close> callbacks of the tweens.\<close>

definition runCallback :: "config \<Rightarrow> callback \<Rightarrow> globe \<Rightarrow> globe option" where
  "runCallback cfg cb s =
     (case cb of
        NoCallback \<Rightarrow> Some s
      | RestoreAutoRotate \<Rightarrow>
          Some (if \<not> isDeviceMotionActive cfg \<and> clickedCountryIdx s = - 1
                then s\<lparr>autoRotate := True\<rparr> else s)
      | EnableHover \<Rightarrow> Some (s\<lparr>isHoverable := True\<rparr>)
      | HideClicked \<Rightarrow>
          Some (if clickedCountryIdx s = - 1 then s\<lparr>clickedVisible := False\<rparr> else s)
      | HideSelection \<Rightarrow>
          (if hoveredCountryIdx s = - 1 then
             (case drawCountry cfg (highlightCtx cfg) (highlightTexture s) (- 1) [] 1 1 of
                None \<Rightarrow> None
              | Some t \<Rightarrow> Some (s\<lparr>selectionVisible := False, highlightTexture := t\<rparr>))
           else Some s))"

definition arrive :: "tween \<Rightarrow> globe \<Rightarrow> globe" where
  "arrive w s =
     (case (tw_target w, tw_goal w) of
        (SelectionOuterScale, g # _) \<Rightarrow> s\<lparr>selectionScale := g\<rparr>
      | (ClickedScale, g # _) \<Rightarrow> s\<lparr>clickedScale := g\<rparr>
      | _ \<Rightarrow> s)"

text \<open>
  The words of the click claims: the hit test of a click succeeds on the index \<open>idx\<close>, and
  it fails (no intersection, no picking context, or a decoded index that is no country).
\<close>

definition hitOn :: "config \<Rightarrow> uv option \<Rightarrow> int \<Rightarrow> bool" where
  "hitOn cfg hit idx =
     (case hit of
        None \<Rightarrow> False
      | Some p \<Rightarrow>
          (case pickingCtx cfg of
             None \<Rightarrow> False
           | Some c \<Rightarrow>
               decodeIndex (getImageData c (fst (pixelOf p)) (snd (pixelOf p))) = idx
               \<and> 0 \<le> idx \<and> idx < int (length (svgPaths cfg))))"

definition noHit :: "config \<Rightarrow> uv option \<Rightarrow> bool" where
  "noHit cfg hit =
     (case hit of
        None \<Rightarrow> True
      | Some p \<Rightarrow>
          (case pickingCtx cfg of
             None \<Rightarrow> True
           | Some c \<Rightarrow>
               \<not> (0 \<le> decodeIndex (getImageData c (fst (pixelOf p)) (snd (pixelOf p)))
                  \<and> decodeIndex (getImageData c (fst (pixelOf p)) (snd (pixelOf p)))
                      < int (length (svgPaths cfg)))))"

text \<open>
  What the zoom claim asks of a state, and what every reachable state also satisfies: with
  device motion the controls never auto-rotate, and every pending timeout has a positive
  handle that \<^verbatim>\<open>setTimeout\<close> has already given out.
\<close>

definition zoomInRange :: "globe \<Rightarrow> bool" where
  "zoomInRange s = (8 / 10 \<le> targetZoom s \<and> targetZoom s \<le> 3)"

definition timersKnown :: "globe \<Rightarrow> bool" where
  "timersKnown s =
     (0 < nextTimer s \<and> list_all (\<lambda>t. 0 < fst t \<and> fst t < nextTimer s) (timers s))"

text \<open>The object in \<^verbatim>\<open>clickedCountry\<close> was made before the next one will be.\<close>

definition freshIdentity :: "globe \<Rightarrow> bool" where
  "freshIdentity s = (clickedCountry s = None \<or> fst (the (clickedCountry s)) < nextObj s)"

definition globeInv :: "config \<Rightarrow> globe \<Rightarrow> bool" where
  "globeInv cfg s =
     (zoomInRange s \<and> (if isDeviceMotionActive cfg then \<not> autoRotate s else True) \<and> timersKnown s)"

text \<open>What can happen to the effect, one event at a time.\<close>

datatype event =
    Click "uv option"
  | Frame "uv option"
  | Wheel real
  | TimerFired nat
  | TweenDone nat
  | TouchStart
  | DragStart
  | DragEnd
  | RotateTo real real
  | HiResReady

definition step :: "config \<Rightarrow> event \<Rightarrow> globe \<Rightarrow> globe option" where
  "step cfg e s =
     (case e of
        Click hit \<Rightarrow> handleClick cfg hit s
      | Frame hit \<Rightarrow> render cfg hit s
      | Wheel deltaY \<Rightarrow> Some (handleWheel deltaY s)
      | TimerFired h \<Rightarrow>
          (if h \<in> fst ` set (timers s) then Some (revertClick cfg (clearTimeout h s)) else Some s)
      | TweenDone i \<Rightarrow>
          (if i < length (tweens s) then
             runCallback cfg (tw_onComplete (tweens s ! i))
               (arrive (tweens s ! i) (s\<lparr>tweens := take i (tweens s) @ drop (Suc i) (tweens s)\<rparr>))
           else Some s)
      | TouchStart \<Rightarrow> Some (s\<lparr>isTouchScreen := True\<rparr>)
      | DragStart \<Rightarrow>
          Some (gsap_to GlobeGroupScale [9 / 10, 9 / 10, 9 / 10] (3 / 10) ''power1.inOut'' NoCallback
                  (s\<lparr>isHoverable := False\<rparr>))
      | DragEnd \<Rightarrow>
          Some (gsap_to GlobeGroupScale [1, 1, 1] (6 / 10) ''back(1.7).out'' EnableHover s)
      | RotateTo rotX rotY \<Rightarrow> Some (rotateToRegion cfg rotX rotY s)
      | HiResReady \<Rightarrow> Some (prepareHiResTextures cfg s))"

fun run :: "config \<Rightarrow> event list \<Rightarrow> globe \<Rightarrow> globe option" where
  "run cfg [] s = Some s"
| "run cfg (e # es) s = (case step cfg e s of None \<Rightarrow> None | Some s' \<Rightarrow> run cfg es s')"

text \<open>
  The state once the effect body has run: \<^verbatim>\<open>initScene\<close>, \<^verbatim>\<open>prepareInitialTextures\<close> and
  the final \<^verbatim>\<open>controls.autoRotate\<close> assignment. \<open>name0\<close> and \<open>clicked0\<close> are the React state
  the component already holds.
\<close>

definition initGlobe :: "config \<Rightarrow> string \<Rightarrow> (nat \<times> selection) option \<Rightarrow> nat \<Rightarrow> globe" where
  "initGlobe cfg name0 clicked0 obj0 =
     \<lparr>hoveredCountryIdx = - 1, clickedCountryIdx = - 1, clickTimeout = None,
      isTouchScreen = False, isHoverable = True, targetZoom = 1,
      autoRotate = (\<not> isDeviceMotionActive cfg),
      selectionVisible = True, clickedVisible = False,
      selectionScale = 1, clickedScale = 1,
      mapTexture = needsUpdate (drawMap (mapCtx cfg) \<lparr>content = Blank 1, version = 0\<rparr> 1 False),
      strokesTexture =
        needsUpdate (drawMap (strokesCtx cfg) \<lparr>content = Blank 1, version = 0\<rparr> 1 True),
      highlightTexture = \<lparr>content = Blank 1, version = 0\<rparr>,
      clickTexture = \<lparr>content = Blank 1, version = 0\<rparr>,
      tweens = [], timers = [], nextTimer = 1,
      countryName = name0, clickedCountry = clicked0, nextObj = obj0\<rparr>"

section \<open>The detail panel: one effect per selection\<close>

text \<open>
  The effect on \<^verbatim>\<open>[clickedCountry]\<close> resets the detail state and starts two async calls,
  \<^verbatim>\<open>fetchWeather\<close> and \<^verbatim>\<open>fetchSummary\<close>. Each run of the effect has a flag
  \<^verbatim>\<open>isMounted\<close> of its own, which the cleanup of that run clears. A call is modelled by
  what it does before its first \<^verbatim>\<open>await\<close> and by what its continuation does once the
  network has answered; between the two only local variables change. The network is a
  parameter: a function from requests to replies.
\<close>

datatype request =
    CountryByNameFull string
  | CountryByAlpha string
  | CountryByName string
  | Forecast real real
  | GenerateContent string

record country_json =
  capitalInfo_latlng :: "(real \<times> real) option"
  cj_capital :: "string list option"
  cj_latlng :: "(real \<times> real) option"
  cj_name_common :: string
  cj_population :: int
  cj_region :: string
  cj_subregion :: string
  cj_currencies :: "string list option"
  cj_languages :: "string list option"

record current_weather =
  cw_temperature :: real
  cw_windspeed :: real
  cw_weathercode :: int

text \<open>
  What \<^verbatim>\<open>res.json()\<close> gives: the array of a country lookup (any other JSON has no element
  \<open>0\<close>, like the empty array), the forecast with or without its \<^verbatim>\<open>current_weather\<close>, or a
  rejection. A \<^verbatim>\<open>fetch\<close> rejects or resolves to a response with its \<^verbatim>\<open>ok\<close> flag.
\<close>

datatype body =
    CountriesJson "country_json list"
  | WeatherJson "current_weather option"
  | NotJson

datatype reply = Rejected | Response bool body

type_synonym network = "request \<Rightarrow> reply"

record weather =
  wd_temperature :: real
  wd_windspeed :: real
  wd_weathercode :: int
  wd_capital :: string

record details =
  cd_population :: int
  cd_region :: string
  cd_subregion :: string
  cd_currencies :: string
  cd_languages :: string
  cd_capital :: string

record source =
  src_uri :: string
  src_title :: string

text \<open>
  The answer of \<^verbatim>\<open>generateContent\<close>: a rejection, or the response's \<^verbatim>\<open>text\<close> and
  \<^verbatim>\<open>groundingChunks\<close> (each chunk with or without a \<^verbatim>\<open>web\<close> entry), both optional.
\<close>

datatype ai_reply = AiRejected | AiResponse "string option" "source option list option"

record detail =
  weatherData :: "weather option"
  countryDetails :: "details option"
  isLoadingWeather :: bool
  aiSummary :: "string option"
  isLoadingSummary :: bool
  groundingSources :: "source list"
  isMounted :: "nat \<Rightarrow> bool"
  closure :: "nat \<Rightarrow> selection option"
  cleanup :: "nat option"
  nextRun :: nat
  issued :: "(nat \<times> request) list"

text \<open>\<^verbatim>\<open>xs.join(', ')\<close>.\<close>

fun join :: "string list \<Rightarrow> string" where
  "join [] = []"
| "join [x] = x"
| "join (x # y # ys) = x @ '', '' @ join (y # ys)"

text \<open>
  The lookups of \<^verbatim>\<open>fetchWeather\<close> up to \<^verbatim>\<open>countryRes.json()\<close>: the requests sent, in
  order, and the body of the response that was \<^verbatim>\<open>ok\<close>, or \<open>None\<close> when the function
  threw (a rejected fetch, or \<^verbatim>\<open>Country not found\<close>).
\<close>

definition lookupCountry :: "network \<Rightarrow> selection \<Rightarrow> request list \<times> body option" where
  "lookupCountry net sel =
     (let q1 = CountryByNameFull (sel_name sel) in
      case net q1 of
        Rejected \<Rightarrow> ([q1], None)
      | Response ok1 b1 \<Rightarrow>
          let q2 = CountryByAlpha (sel_id sel);
              second = (\<not> ok1 \<and> sel_id sel \<noteq> []);
              sent2 = (if second then [q1, q2] else [q1]);
              r2 = (if second then net q2 else Response ok1 b1)
          in case r2 of
               Rejected \<Rightarrow> (sent2, None)
             | Response ok2 b2 \<Rightarrow>
                 let q3 = CountryByName (sel_name sel);
                     sent3 = (if \<not> ok2 then sent2 @ [q3] else sent2);
                     r3 = (if \<not> ok2 then net q3 else Response ok2 b2)
                 in case r3 of
                      Rejected \<Rightarrow> (sent3, None)
                    | Response ok3 b3 \<Rightarrow> if \<not> ok3 then (sent3, None) else (sent3, Some b3))"

text \<open>
  The rest of the \<^verbatim>\<open>try\<close> block up to the \<^verbatim>\<open>isMounted\<close> test: the coordinates and the
  capital, then the forecast.
\<close>

datatype chain_outcome = Threw | Got country_json string "current_weather option"

definition fetchWeather_chain :: "network \<Rightarrow> selection \<Rightarrow> request list \<times> chain_outcome" where
  "fetchWeather_chain net sel =
     (case lookupCountry net sel of
        (sent, None) \<Rightarrow> (sent, Threw)
      | (sent, Some (CountriesJson (country # rest))) \<Rightarrow>
          (let place =
                 (case capitalInfo_latlng country of
                    Some ll \<Rightarrow>
                      Some (ll, (case cj_capital country of
                                   Some (c # cs) \<Rightarrow> if c = [] then ''Capital'' else c
                                 | _ \<Rightarrow> ''Capital''))
                  | None \<Rightarrow>
                      (case cj_latlng country of
                         Some ll \<Rightarrow> Some (ll, cj_name_common country)
                       | None \<Rightarrow> None))
           in case place of
                None \<Rightarrow> (sent, Threw)
              | Some ((lat, lng), capital) \<Rightarrow>
                  (case net (Forecast lat lng) of
                     Rejected \<Rightarrow> (sent @ [Forecast lat lng], Threw)
                   | Response ok b \<Rightarrow>
                       if \<not> ok then (sent @ [Forecast lat lng], Threw)
                       else (case b of
                               WeatherJson cw \<Rightarrow> (sent @ [Forecast lat lng], Got country capital cw)
                             | CountriesJson cs \<Rightarrow> (sent @ [Forecast lat lng], Got country capital None)
                             | NotJson \<Rightarrow> (sent @ [Forecast lat lng], Threw))))
      | (sent, Some other) \<Rightarrow> (sent, Threw))"

definition mkDetails :: "country_json \<Rightarrow> string \<Rightarrow> details" where
  "mkDetails country capital =
     \<lparr>cd_population = cj_population country,
      cd_region = cj_region country,
      cd_subregion = cj_subregion country,
      cd_currencies = (case cj_currencies country of Some cs \<Rightarrow> join cs | None \<Rightarrow> ''N/A''),
      cd_languages = (case cj_languages country of Some ls \<Rightarrow> join ls | None \<Rightarrow> ''N/A''),
      cd_capital = capital\<rparr>"

text \<open>
  The end of \<^verbatim>\<open>fetchWeather\<close> for the run \<open>k\<close> of the effect: the block under
  \<^verbatim>\<open>if (isMounted)\<close>, and the \<^verbatim>\<open>catch\<close>. A forecast without \<^verbatim>\<open>current_weather\<close> throws
  inside the block, after \<^verbatim>\<open>setCountryDetails\<close>.
\<close>

definition fetchWeather_settle :: "nat \<Rightarrow> chain_outcome \<Rightarrow> detail \<Rightarrow> detail" where
  "fetchWeather_settle k out st =
     (case out of
        Threw \<Rightarrow> if isMounted st k then st\<lparr>isLoadingWeather := False\<rparr> else st
      | Got country capital cw \<Rightarrow>
          if isMounted st k then
            (let st1 = st\<lparr>countryDetails := Some (mkDetails country capital)\<rparr>
             in case cw of
                  None \<Rightarrow> st1\<lparr>isLoadingWeather := False\<rparr>
                | Some w \<Rightarrow>
                    st1\<lparr>weatherData :=
                          Some \<lparr>wd_temperature = cw_temperature w, wd_windspeed = cw_windspeed w,
                                wd_weathercode = cw_weathercode w, wd_capital = capital\<rparr>,
                        isLoadingWeather := False\<rparr>)
          else st)"

text \<open>
  \<^verbatim>\<open>Array.from(new Map(sources.map(s => [s.uri, s])).values())\<close>: a key keeps the place of
  its first entry and the value of its last.
\<close>

fun map_set :: "(string \<times> source) list \<Rightarrow> string \<Rightarrow> source \<Rightarrow> (string \<times> source) list" where
  "map_set [] k v = [(k, v)]"
| "map_set ((k', v') # m) k v = (if k' = k then (k, v) # m else (k', v') # map_set m k v)"

definition uniqueSources :: "source list \<Rightarrow> source list" where
  "uniqueSources srcs = map snd (foldl (\<lambda>m s. map_set m (src_uri s) s) [] srcs)"

text \<open>\<^verbatim>\<open>!apiKey\<close>: the variable is undefined or the empty string.\<close>

definition noKey :: "string option \<Rightarrow> bool" where
  "noKey apiKey = (case apiKey of None \<Rightarrow> True | Some key \<Rightarrow> key = [])"

text \<open>
  \<^verbatim>\<open>fetchSummary\<close> up to its \<^verbatim>\<open>await\<close>, for the run \<open>k\<close>: without a key it writes the
  fallback and returns; with one it sends the request.
\<close>

definition fetchSummary_start :: "string option \<Rightarrow> nat \<Rightarrow> string \<Rightarrow> detail \<Rightarrow> detail" where
  "fetchSummary_start apiKey k name st =
     (if noKey apiKey then
        (if isMounted st k then
           st\<lparr>aiSummary := Some ''Gemini API key not configured.'', isLoadingSummary := False\<rparr>
         else st)
      else st\<lparr>issued := issued st @ [(k, GenerateContent name)]\<rparr>)"

text \<open>
  The continuation of \<^verbatim>\<open>fetchSummary\<close> and its \<^verbatim>\<open>catch\<close>. A rejection stands for
  everything that throws in the \<^verbatim>\<open>try\<close> block before the \<^verbatim>\<open>isMounted\<close> test.
\<close>

definition fetchSummary_settle :: "nat \<Rightarrow> ai_reply \<Rightarrow> detail \<Rightarrow> detail" where
  "fetchSummary_settle k r st =
     (case r of
        AiRejected \<Rightarrow>
          if isMounted st k then
            st\<lparr>aiSummary := Some ''Failed to load summary.'', isLoadingSummary := False\<rparr>
          else st
      | AiResponse text chunks \<Rightarrow>
          if isMounted st k then
            (let st1 = st\<lparr>aiSummary :=
                           Some (case text of
                                   None \<Rightarrow> ''No summary available.''
                                 | Some t \<Rightarrow> if t = [] then ''No summary available.'' else t)\<rparr>;
                 st2 = (case chunks of
                          None \<Rightarrow> st1
                        | Some cs \<Rightarrow>
                            st1\<lparr>groundingSources :=
                                  uniqueSources (map the (filter (\<lambda>c. c \<noteq> None) cs))\<rparr>)
             in st2\<lparr>isLoadingSummary := False\<rparr>)
          else st)"

text \<open>\<^verbatim>\<open>fetchWeather\<close> up to its first \<^verbatim>\<open>await\<close>: the first lookup is sent.\<close>

definition fetchWeather_start :: "nat \<Rightarrow> selection \<Rightarrow> detail \<Rightarrow> detail" where
  "fetchWeather_start k sel st = st\<lparr>issued := issued st @ [(k, CountryByNameFull (sel_name sel))]\<rparr>"

text \<open>The cleanup React holds from the last run that returned one.\<close>

definition runCleanup :: "detail \<Rightarrow> detail" where
  "runCleanup st =
     (case cleanup st of
        None \<Rightarrow> st
      | Some k \<Rightarrow> st\<lparr>isMounted := (isMounted st)(k := False), cleanup := None\<rparr>)"

text \<open>
  One run of the effect for the new value of \<^verbatim>\<open>clickedCountry\<close>, the previous cleanup
  first.
\<close>

definition detailEffect :: "string option \<Rightarrow> selection option \<Rightarrow> detail \<Rightarrow> detail" where
  "detailEffect apiKey clicked st =
     (let st0 = runCleanup st in
      case clicked of
        None \<Rightarrow>
          st0\<lparr>weatherData := None, countryDetails := None, aiSummary := None,
              groundingSources := []\<rparr>
      | Some sel \<Rightarrow>
          let k = nextRun st0;
              st1 = st0\<lparr>nextRun := k + 1,
                        isMounted := (isMounted st0)(k := True),
                        closure := (closure st0)(k := Some sel),
                        isLoadingWeather := True, isLoadingSummary := True,
                        weatherData := None, countryDetails := None, aiSummary := None,
                        groundingSources := []\<rparr>;
              st2 = fetchWeather_start k sel st1;
              st3 = fetchSummary_start apiKey k (sel_name sel) st2
          in st3\<lparr>cleanup := Some k\<rparr>)"

text \<open>The answers of the network, whenever they come.\<close>

definition weatherSettled :: "nat \<Rightarrow> network \<Rightarrow> detail \<Rightarrow> detail" where
  "weatherSettled k net st =
     (case closure st k of
        None \<Rightarrow> st
      | Some sel \<Rightarrow> fetchWeather_settle k (snd (fetchWeather_chain net sel)) st)"

definition summarySettled :: "nat \<Rightarrow> ai_reply \<Rightarrow> detail \<Rightarrow> detail" where
  "summarySettled k r st =
     (case closure st k of
        None \<Rightarrow> st
      | Some sel \<Rightarrow> fetchSummary_settle k r st)"

definition initDetail :: detail where
  "initDetail =
     \<lparr>weatherData = None, countryDetails = None, isLoadingWeather = False,
      aiSummary = None, isLoadingSummary = False, groundingSources = [],
      isMounted = (\<lambda>k. False), closure = (\<lambda>k. None), cleanup = None, nextRun = 0,
      issued = []\<rparr>"

text \<open>
  The words of the stale-result claims: the run \<open>k\<close> of the effect has happened and its
  flag is off. And what every reachable detail state satisfies: the cleanup React holds
  belongs to a run that has happened.
\<close>

definition staleRun :: "nat \<Rightarrow> detail \<Rightarrow> bool" where
  "staleRun k st = (k < nextRun st \<and> \<not> isMounted st k)"

definition detailInv :: "detail \<Rightarrow> bool" where
  "detailInv st = (case cleanup st of None \<Rightarrow> True | Some k \<Rightarrow> k < nextRun st)"

section \<open>The component: the globe effect and the detail effect together\<close>

text \<open>
  React runs the detail effect when \<^verbatim>\<open>clickedCountry\<close> is a different value after a
  handler than before it (\<^verbatim>\<open>Object.is\<close>: a new object always is, \<open>null\<close> after \<open>null\<close> is
  not). The model runs it right after the handler, before the next event.
\<close>

datatype app_event =
    Globe event
  | WeatherSettled nat network
  | SummarySettled nat ai_reply

definition appStep ::
  "config \<Rightarrow> string option \<Rightarrow> app_event \<Rightarrow> globe \<times> detail \<Rightarrow> (globe \<times> detail) option" where
  "appStep cfg apiKey e gd =
     (case e of
        Globe ev \<Rightarrow>
          (case step cfg ev (fst gd) of
             None \<Rightarrow> None
           | Some g' \<Rightarrow>
               Some (g', if clickedCountry g' \<noteq> clickedCountry (fst gd)
                         then detailEffect apiKey (map_option snd (clickedCountry g')) (snd gd)
                         else snd gd))
      | WeatherSettled k net \<Rightarrow> Some (fst gd, weatherSettled k net (snd gd))
      | SummarySettled k r \<Rightarrow> Some (fst gd, summarySettled k r (snd gd)))"

fun appRun ::
  "config \<Rightarrow> string option \<Rightarrow> app_event list \<Rightarrow> globe \<times> detail \<Rightarrow> (globe \<times> detail) option" where
  "appRun cfg apiKey [] gd = Some gd"
| "appRun cfg apiKey (e # es) gd =
     (case appStep cfg apiKey e gd of None \<Rightarrow> None | Some gd' \<Rightarrow> appRun cfg apiKey es gd')"

subsection \<open>Runs of the globe effect\<close>

text \<open>
  The globe effect has the dependencies \<^verbatim>\<open>[isLoaded, isDeviceMotionActive]\<close>. When the
  device-motion button changes the flag, React runs the cleanup of the current run and
  then the body again: new variables (\<^verbatim>\<open>clickedCountryIdx = -1\<close>, \<^verbatim>\<open>clickTimeout = null\<close>),
  a new scene, new listeners. The cleanup removes the listeners and the frame callback and
  disposes of the renderer; it calls neither \<^verbatim>\<open>clearTimeout\<close> nor \<^verbatim>\<open>gsap.killTweensOf\<close>.
  So a timeout of the old run stays pending, and its callback, the \<^verbatim>\<open>revertClick\<close> of the
  old run, still sees the variables of the old run and the setters of the component. The
  React state (\<^verbatim>\<open>countryName\<close>, \<^verbatim>\<open>clickedCountry\<close>) and the browser's counter of timeout
  handles belong to no run: \<open>shareReact\<close> copies them from the run that wrote last. The
  tweens of an old run move the objects of its own scene only and are left out.
\<close>

record page =
  deviceMotion :: bool
  current :: globe
  retired :: "(config \<times> globe) list"
  panel :: detail

definition runConfig :: "config \<Rightarrow> bool \<Rightarrow> config" where
  "runConfig base m = base\<lparr>isDeviceMotionActive := m\<rparr>"

definition shareReact :: "globe \<Rightarrow> globe \<Rightarrow> globe" where
  "shareReact src s =
     s\<lparr>countryName := countryName src, clickedCountry := clickedCountry src,
       nextObj := nextObj src, nextTimer := nextTimer src\<rparr>"

text \<open>\<^verbatim>\<open>setIsDeviceMotionActive\<close> with the other value: the cleanup, then the next run.\<close>

definition toggleMotion :: "config \<Rightarrow> page \<Rightarrow> page" where
  "toggleMotion base pg =
     pg\<lparr>deviceMotion := \<not> deviceMotion pg,
        retired := retired pg @ [(runConfig base (deviceMotion pg), current pg)],
        current := shareReact (current pg)
                     (initGlobe (runConfig base (\<not> deviceMotion pg)) [] None 0)\<rparr>"

text \<open>
  The timeout \<open>h\<close> of the old run \<open>i\<close> fires: \<^verbatim>\<open>revertClick\<close> with the variables of that
  run. When it has changed \<^verbatim>\<open>clickedCountry\<close>, the detail effect runs.
\<close>

definition retiredTimerFired :: "string option \<Rightarrow> nat \<Rightarrow> nat \<Rightarrow> page \<Rightarrow> page" where
  "retiredTimerFired apiKey i h pg =
     (if i < length (retired pg) \<and> h \<in> fst ` set (timers (snd (retired pg ! i))) then
        let cfg = fst (retired pg ! i);
            old = revertClick cfg (clearTimeout h (shareReact (current pg) (snd (retired pg ! i))));
            cur = shareReact old (current pg)
        in pg\<lparr>retired := (retired pg)[i := (cfg, old)],
              current := cur,
              panel := (if clickedCountry cur \<noteq> clickedCountry (current pg)
                        then detailEffect apiKey (map_option snd (clickedCountry cur)) (panel pg)
                        else panel pg)\<rparr>
      else pg)"

datatype page_event =
    Current app_event
  | MotionToggled
  | RetiredTimerFired nat nat

definition pageStep :: "config \<Rightarrow> string option \<Rightarrow> page_event \<Rightarrow> page \<Rightarrow> page option" where
  "pageStep base apiKey e pg =
     (case e of
        Current ev \<Rightarrow>
          (case appStep (runConfig base (deviceMotion pg)) apiKey ev (current pg, panel pg) of
             None \<Rightarrow> None
           | Some gd \<Rightarrow> Some (pg\<lparr>current := fst gd, panel := snd gd\<rparr>))
      | MotionToggled \<Rightarrow> Some (toggleMotion base pg)
      | RetiredTimerFired i h \<Rightarrow> Some (retiredTimerFired apiKey i h pg))"

fun pageRun :: "config \<Rightarrow> string option \<Rightarrow> page_event list \<Rightarrow> page \<Rightarrow> page option" where
  "pageRun base apiKey [] pg = Some pg"
| "pageRun base apiKey (e # es) pg =
     (case pageStep base apiKey e pg of None \<Rightarrow> None | Some pg' \<Rightarrow> pageRun base apiKey es pg')"

text \<open>The component once the paths are loaded, device motion off.\<close>

definition initPage :: "config \<Rightarrow> page" where
  "initPage base =
     \<lparr>deviceMotion = False, current = initGlobe (runConfig base False) [] None 0,
      retired = [], panel = initDetail\<rparr>"

section \<open>The camera view\<close>

text \<open>
  \<^verbatim>\<open>CameraView\<close>: the state \<^verbatim>\<open>isCameraOn\<close> and \<^verbatim>\<open>error\<close>, the \<^verbatim>\<open>srcObject\<close> of the video
  element (\<open>None\<close> while the element is not rendered, which is whenever the camera is
  off), the \<^verbatim>\<open>stream\<close> variable of the current effect run, and the streams whose tracks
  were stopped. \<^verbatim>\<open>getUserMedia\<close> resolves to a stream or rejects.
\<close>

datatype media = Granted nat | Denied

record camera =
  isCameraOn :: bool
  error :: "string option"
  srcObject :: "nat option option"
  stream :: "nat option"
  stopped :: "nat list"

text \<open>
  \<^verbatim>\<open>setupCamera\<close> for one run of the effect. \<open>on\<close> is the value of \<^verbatim>\<open>isCameraOn\<close> that the
  run closed over; with the camera on, \<open>m\<close> is what \<^verbatim>\<open>getUserMedia\<close> settles to, and \<open>c\<close>
  the state at that moment; with it off, \<open>m\<close> is not used. The field \<open>stream\<close> is the
  variable of the run in progress, so a grant is modelled here only while its run has not
  been cleaned up; a rejection writes no \<^verbatim>\<open>stream\<close> and is modelled whenever it comes.
\<close>

definition setupCamera :: "bool \<Rightarrow> media \<Rightarrow> camera \<Rightarrow> camera" where
  "setupCamera on m c =
     (if on then
        (case m of
           Granted s \<Rightarrow>
             (let c1 = c\<lparr>stream := Some s\<rparr>;
                  c2 = (case srcObject c1 of
                          None \<Rightarrow> c1
                        | Some old \<Rightarrow> c1\<lparr>srcObject := Some (Some s)\<rparr>)
              in c2\<lparr>error := None\<rparr>)
         | Denied \<Rightarrow> c\<lparr>error := Some ''Could not access camera'', isCameraOn := False\<rparr>)
      else
        (case srcObject c of
           Some (Some s) \<Rightarrow> c\<lparr>stopped := stopped c @ [s], srcObject := Some None\<rparr>
         | _ \<Rightarrow> c))"

text \<open>The cleanup of a run, and the render that follows a change of \<^verbatim>\<open>isCameraOn\<close>.\<close>

definition cameraCleanup :: "camera \<Rightarrow> camera" where
  "cameraCleanup c =
     (case stream c of
        None \<Rightarrow> c
      | Some s \<Rightarrow> c\<lparr>stopped := stopped c @ [s], stream := None\<rparr>)"

text \<open>
  A grant that arrives after the cleanup of its run. The continuation writes the
  \<^verbatim>\<open>stream\<close> variable of that run, which no later cleanup reads: the tracks of the stream
  are never stopped by a cleanup. The video element, when there is one, gets the stream,
  and the error is cleared.
\<close>

definition lateGrant :: "nat \<Rightarrow> camera \<Rightarrow> camera" where
  "lateGrant s c =
     (case srcObject c of
        None \<Rightarrow> c
      | Some old \<Rightarrow> c\<lparr>srcObject := Some (Some s)\<rparr>)\<lparr>error := None\<rparr>"

definition cameraRender :: "camera \<Rightarrow> camera" where
  "cameraRender c =
     (if isCameraOn c then
        (case srcObject c of None \<Rightarrow> c\<lparr>srcObject := Some None\<rparr> | Some v \<Rightarrow> c)
      else c\<lparr>srcObject := None\<rparr>)"

text \<open>The button: \<^verbatim>\<open>setIsCameraOn(!isCameraOn)\<close>, then the render and the cleanup.\<close>

definition toggleCamera :: "camera \<Rightarrow> camera" where
  "toggleCamera c = cameraCleanup (cameraRender (c\<lparr>isCameraOn := \<not> isCameraOn c\<rparr>))"

text \<open>
  A run of the effect in the state \<open>c\<close> whose \<^verbatim>\<open>getUserMedia\<close>, if it is called, settles to
  \<open>m\<close> before anything else happens; when the run changed \<^verbatim>\<open>isCameraOn\<close>, the render,
  the cleanup and the next run follow.
\<close>

definition cameraEffect :: "media \<Rightarrow> camera \<Rightarrow> camera" where
  "cameraEffect m c =
     (let c1 = setupCamera (isCameraOn c) m c
      in if isCameraOn c1 \<noteq> isCameraOn c
         then (let c2 = cameraCleanup (cameraRender c1) in setupCamera (isCameraOn c2) m c2)
         else c1)"

definition initCamera :: camera where
  "initCamera = \<lparr>isCameraOn = False, error = None, srcObject = None, stream = None, stopped = []\<rparr>"

subsection \<open>A small world to run the model on\<close>

text \<open>
  Two countries whose polygons are rectangles of the map, 20 units high from the top edge,
  side by side: \<open>A\<close> from \<open>x = 0\<close> to \<open>x = 20\<close>, \<open>B\<close> from \<open>x = 20\<close> to
  \<open>x = 30 - 14 / 255\<close>, so that the right edge of \<open>B\<close>, its coast, runs through the pixels
  of column 29. \<open>boxCoverage\<close> is the share of the pixel's square that the rectangle
  covers, in 255ths; \<open>srcOver\<close> blends the fill colour over the old pixel as a canvas
  does that stores its pixels premultiplied in bytes, every division rounding down.
\<close>

definition boxOf :: "string \<Rightarrow> (real \<times> real) \<times> (real \<times> real)" where
  "boxOf d =
     (if d = ''A'' then ((0, 20), (0, 20))
      else if d = ''B'' then ((20, 30 - 14 / 255), (0, 20))
      else ((0, 0), (0, 0)))"

definition insideBox :: "string \<Rightarrow> real \<times> real \<Rightarrow> bool" where
  "insideBox d q =
     (fst (fst (boxOf d)) \<le> fst q \<and> fst q < snd (fst (boxOf d))
      \<and> fst (snd (boxOf d)) \<le> snd q \<and> snd q < snd (snd (boxOf d)))"

text \<open>The length of the part of the interval from \<open>a\<close> to \<open>b\<close> inside the pixel at \<open>n\<close>.\<close>

definition overlap :: "real \<times> real \<Rightarrow> real \<Rightarrow> int \<Rightarrow> real" where
  "overlap ab t n =
     max 0 (min (snd ab + t) (real_of_int n + 1) - max (fst ab + t) (real_of_int n))"

definition boxCoverage :: "real \<times> real \<Rightarrow> string \<Rightarrow> int \<times> int \<Rightarrow> nat" where
  "boxCoverage t d px =
     nat \<lfloor>255 * overlap (fst (boxOf d)) (fst t) (fst px) * overlap (snd (boxOf d)) (snd t) (snd px)
          + 1 / 2\<rfloor>"

definition srcOver :: "nat \<Rightarrow> rgba \<Rightarrow> rgba \<Rightarrow> rgba" where
  "srcOver a colour old =
     (let sa = chan_a colour * int a div 255;
          ra = sa + chan_a old * (255 - sa) div 255;
          blend = (\<lambda>cs co. cs * sa div 255 + (co * chan_a old div 255) * (255 - sa) div 255);
          back = (\<lambda>v. if ra = 0 then 0 else min 255 (v * 255 div ra))
      in RGBA (back (blend (chan_r colour) (chan_r old)))
              (back (blend (chan_g colour) (chan_g old)))
              (back (blend (chan_b colour) (chan_b old))) ra)"

definition demoRaster :: rasteriser where
  "demoRaster = \<lparr>coverage = boxCoverage, composite = srcOver\<rparr>"

definition twoPaths :: "country_path list" where
  "twoPaths =
     [\<lparr>path_d = ''A'', path_name = ''Aland'', path_id = ''001''\<rparr>,
      \<lparr>path_d = ''B'', path_name = ''Bland'', path_id = ''002''\<rparr>]"

definition demoConfig :: "bool \<Rightarrow> config" where
  "demoConfig motion =
     \<lparr>svgPaths = twoPaths, isDeviceMotionActive = motion,
      pickingCtx = Some (pickingCanvas demoRaster twoPaths),
      mapCtx = True, strokesCtx = True, highlightCtx = True, clickCtx = True\<rparr>"

definition demoGlobe :: "bool \<Rightarrow> globe" where
  "demoGlobe motion = initGlobe (demoConfig motion) [] None 0"

text \<open>
  A network that knows \<open>Aland\<close> by its name and \<open>Bland\<close> only by its code, with a forecast
  for every place and no AI service; and one on which every request is rejected.
\<close>

definition demoCountry :: "string \<Rightarrow> country_json" where
  "demoCountry n =
     \<lparr>capitalInfo_latlng = Some (1, 2), cj_capital = Some [n @ '' City''],
      cj_latlng = Some (3, 4), cj_name_common = n, cj_population = 1000,
      cj_region = ''Region'', cj_subregion = ''Subregion'',
      cj_currencies = Some [''Dollar''], cj_languages = Some [''One'', ''Two'']\<rparr>"

definition demoNet :: network where
  "demoNet q =
     (case q of
        CountryByNameFull n \<Rightarrow> Response (n = ''Aland'') (CountriesJson [demoCountry n])
      | CountryByAlpha i \<Rightarrow> Response (i = ''002'') (CountriesJson [demoCountry ''Bland''])
      | CountryByName n \<Rightarrow> Response False NotJson
      | Forecast lat lng \<Rightarrow>
          Response True
            (WeatherJson (Some \<lparr>cw_temperature = 21, cw_windspeed = 5, cw_weathercode = 0\<rparr>))
      | GenerateContent n \<Rightarrow> Rejected)"

definition deadNet :: network where
  "deadNet q = Rejected"

text \<open>The network of \<open>demoNet\<close> with the forecast service down.\<close>

definition noForecastNet :: network where
  "noForecastNet q = (case q of Forecast lat lng \<Rightarrow> Response False NotJson | _ \<Rightarrow> demoNet q)"

text \<open>
  The state and the component after a list of events, from the initial state; and the
  component across the runs of the globe effect, without an API key.
\<close>

definition demoAfter :: "bool \<Rightarrow> event list \<Rightarrow> globe" where
  "demoAfter motion es = the (run (demoConfig motion) es (demoGlobe motion))"

definition demoApp :: "string option \<Rightarrow> app_event list \<Rightarrow> globe \<times> detail" where
  "demoApp apiKey es = the (appRun (demoConfig False) apiKey es (demoGlobe False, initDetail))"

definition demoPage :: "page_event list \<Rightarrow> page" where
  "demoPage es = the (pageRun (demoConfig False) None es (initPage (demoConfig False)))"

text \<open>
  Texture coordinates, all of them doubles: two inside \<open>A\<close>, one inside \<open>B\<close>, one in the
  sea; one inside \<open>B\<close> at its coast and one just off that coast, both in a pixel of
  column 29. \<open>mapPoint\<close> is the point of the map, in the coordinates of the paths, that a
  texture coordinate shows.
\<close>

definition uvA :: uv where "uvA = (3 / 1024, 911 / 1024)"
definition uvA2 :: uv where "uvA2 = (1 / 256, 229 / 256)"
definition uvB :: uv where "uvB = (13 / 1024, 911 / 1024)"
definition uvSea :: uv where "uvSea = (1 / 2, 1 / 2)"
definition uvCoast :: uv where "uvCoast = (15 / 1024, 911 / 1024)"
definition uvOffCoast :: uv where "uvOffCoast = (491 / 32768, 911 / 1024)"

definition mapPoint :: "uv \<Rightarrow> real \<times> real" where
  "mapPoint p =
     (fst p * real_of_int (fst svgViewBox) - fst pickingTranslate,
      (1 - snd p) * real_of_int (snd svgViewBox) - snd pickingTranslate)"
section \<open>What each operation of the globe changes\<close>

text \<open>Field by field, for the small operations the handlers are made of.\<close>

lemma killTweensOf_fields [simp]:
  "hoveredCountryIdx (killTweensOf t s) = hoveredCountryIdx s"
  "clickedCountryIdx (killTweensOf t s) = clickedCountryIdx s"
  "clickTimeout (killTweensOf t s) = clickTimeout s"
  "isTouchScreen (killTweensOf t s) = isTouchScreen s"
  "isHoverable (killTweensOf t s) = isHoverable s"
  "targetZoom (killTweensOf t s) = targetZoom s"
  "autoRotate (killTweensOf t s) = autoRotate s"
  "selectionVisible (killTweensOf t s) = selectionVisible s"
  "clickedVisible (killTweensOf t s) = clickedVisible s"
  "selectionScale (killTweensOf t s) = selectionScale s"
  "clickedScale (killTweensOf t s) = clickedScale s"
  "mapTexture (killTweensOf t s) = mapTexture s"
  "strokesTexture (killTweensOf t s) = strokesTexture s"
  "highlightTexture (killTweensOf t s) = highlightTexture s"
  "clickTexture (killTweensOf t s) = clickTexture s"
  "tweens (killTweensOf t s) = filter (\<lambda>w. tw_target w \<noteq> t) (tweens s)"
  "timers (killTweensOf t s) = timers s"
  "nextTimer (killTweensOf t s) = nextTimer s"
  "countryName (killTweensOf t s) = countryName s"
  "clickedCountry (killTweensOf t s) = clickedCountry s"
  "nextObj (killTweensOf t s) = nextObj s"
  by (simp_all add: killTweensOf_def)

lemma gsap_to_fields [simp]:
  "hoveredCountryIdx (gsap_to t g dur e cb s) = hoveredCountryIdx s"
  "clickedCountryIdx (gsap_to t g dur e cb s) = clickedCountryIdx s"
  "clickTimeout (gsap_to t g dur e cb s) = clickTimeout s"
  "isTouchScreen (gsap_to t g dur e cb s) = isTouchScreen s"
  "isHoverable (gsap_to t g dur e cb s) = isHoverable s"
  "targetZoom (gsap_to t g dur e cb s) = targetZoom s"
  "autoRotate (gsap_to t g dur e cb s) = autoRotate s"
  "selectionVisible (gsap_to t g dur e cb s) = selectionVisible s"
  "clickedVisible (gsap_to t g dur e cb s) = clickedVisible s"
  "selectionScale (gsap_to t g dur e cb s) = selectionScale s"
  "clickedScale (gsap_to t g dur e cb s) = clickedScale s"
  "mapTexture (gsap_to t g dur e cb s) = mapTexture s"
  "strokesTexture (gsap_to t g dur e cb s) = strokesTexture s"
  "highlightTexture (gsap_to t g dur e cb s) = highlightTexture s"
  "clickTexture (gsap_to t g dur e cb s) = clickTexture s"
  "tweens (gsap_to t g dur e cb s) = tweens s @ [\<lparr>tw_target = t, tw_goal = g, tw_duration = dur, tw_ease = e, tw_onComplete = cb\<rparr>]"
  "timers (gsap_to t g dur e cb s) = timers s"
  "nextTimer (gsap_to t g dur e cb s) = nextTimer s"
  "countryName (gsap_to t g dur e cb s) = countryName s"
  "clickedCountry (gsap_to t g dur e cb s) = clickedCountry s"
  "nextObj (gsap_to t g dur e cb s) = nextObj s"
  by (simp_all add: gsap_to_def)

lemma clearTimeout_fields [simp]:
  "hoveredCountryIdx (clearTimeout h s) = hoveredCountryIdx s"
  "clickedCountryIdx (clearTimeout h s) = clickedCountryIdx s"
  "clickTimeout (clearTimeout h s) = clickTimeout s"
  "isTouchScreen (clearTimeout h s) = isTouchScreen s"
  "isHoverable (clearTimeout h s) = isHoverable s"
  "targetZoom (clearTimeout h s) = targetZoom s"
  "autoRotate (clearTimeout h s) = autoRotate s"
  "selectionVisible (clearTimeout h s) = selectionVisible s"
  "clickedVisible (clearTimeout h s) = clickedVisible s"
  "selectionScale (clearTimeout h s) = selectionScale s"
  "clickedScale (clearTimeout h s) = clickedScale s"
  "mapTexture (clearTimeout h s) = mapTexture s"
  "strokesTexture (clearTimeout h s) = strokesTexture s"
  "highlightTexture (clearTimeout h s) = highlightTexture s"
  "clickTexture (clearTimeout h s) = clickTexture s"
  "tweens (clearTimeout h s) = tweens s"
  "timers (clearTimeout h s) = filter (\<lambda>t. fst t \<noteq> h) (timers s)"
  "nextTimer (clearTimeout h s) = nextTimer s"
  "countryName (clearTimeout h s) = countryName s"
  "clickedCountry (clearTimeout h s) = clickedCountry s"
  "nextObj (clearTimeout h s) = nextObj s"
  by (simp_all add: clearTimeout_def)

lemma clearClickTimeout_fields [simp]:
  "hoveredCountryIdx (clearClickTimeout s) = hoveredCountryIdx s"
  "clickedCountryIdx (clearClickTimeout s) = clickedCountryIdx s"
  "clickTimeout (clearClickTimeout s) = clickTimeout s"
  "isTouchScreen (clearClickTimeout s) = isTouchScreen s"
  "isHoverable (clearClickTimeout s) = isHoverable s"
  "targetZoom (clearClickTimeout s) = targetZoom s"
  "autoRotate (clearClickTimeout s) = autoRotate s"
  "selectionVisible (clearClickTimeout s) = selectionVisible s"
  "clickedVisible (clearClickTimeout s) = clickedVisible s"
  "selectionScale (clearClickTimeout s) = selectionScale s"
  "clickedScale (clearClickTimeout s) = clickedScale s"
  "mapTexture (clearClickTimeout s) = mapTexture s"
  "strokesTexture (clearClickTimeout s) = strokesTexture s"
  "highlightTexture (clearClickTimeout s) = highlightTexture s"
  "clickTexture (clearClickTimeout s) = clickTexture s"
  "tweens (clearClickTimeout s) = tweens s"
  "timers (clearClickTimeout s) = filter (\<lambda>t. clickTimeout s \<noteq> Some (fst t) \<or> fst t = 0) (timers s)"
  "nextTimer (clearClickTimeout s) = nextTimer s"
  "countryName (clearClickTimeout s) = countryName s"
  "clickedCountry (clearClickTimeout s) = clickedCountry s"
  "nextObj (clearClickTimeout s) = nextObj s"
  by (auto simp add: clearClickTimeout_def split: option.splits intro: filter_cong)

lemma setClickTimeout_fields [simp]:
  "hoveredCountryIdx (setClickTimeout ms s) = hoveredCountryIdx s"
  "clickedCountryIdx (setClickTimeout ms s) = clickedCountryIdx s"
  "clickTimeout (setClickTimeout ms s) = Some (nextTimer s)"
  "isTouchScreen (setClickTimeout ms s) = isTouchScreen s"
  "isHoverable (setClickTimeout ms s) = isHoverable s"
  "targetZoom (setClickTimeout ms s) = targetZoom s"
  "autoRotate (setClickTimeout ms s) = autoRotate s"
  "selectionVisible (setClickTimeout ms s) = selectionVisible s"
  "clickedVisible (setClickTimeout ms s) = clickedVisible s"
  "selectionScale (setClickTimeout ms s) = selectionScale s"
  "clickedScale (setClickTimeout ms s) = clickedScale s"
  "mapTexture (setClickTimeout ms s) = mapTexture s"
  "strokesTexture (setClickTimeout ms s) = strokesTexture s"
  "highlightTexture (setClickTimeout ms s) = highlightTexture s"
  "clickTexture (setClickTimeout ms s) = clickTexture s"
  "tweens (setClickTimeout ms s) = tweens s"
  "timers (setClickTimeout ms s) = timers s @ [(nextTimer s, ms)]"
  "nextTimer (setClickTimeout ms s) = nextTimer s + 1"
  "countryName (setClickTimeout ms s) = countryName s"
  "clickedCountry (setClickTimeout ms s) = clickedCountry s"
  "nextObj (setClickTimeout ms s) = nextObj s"
  by (simp_all add: setClickTimeout_def)

lemma setClickedCountry_fields [simp]:
  "hoveredCountryIdx (setClickedCountry v s) = hoveredCountryIdx s"
  "clickedCountryIdx (setClickedCountry v s) = clickedCountryIdx s"
  "clickTimeout (setClickedCountry v s) = clickTimeout s"
  "isTouchScreen (setClickedCountry v s) = isTouchScreen s"
  "isHoverable (setClickedCountry v s) = isHoverable s"
  "targetZoom (setClickedCountry v s) = targetZoom s"
  "autoRotate (setClickedCountry v s) = autoRotate s"
  "selectionVisible (setClickedCountry v s) = selectionVisible s"
  "clickedVisible (setClickedCountry v s) = clickedVisible s"
  "selectionScale (setClickedCountry v s) = selectionScale s"
  "clickedScale (setClickedCountry v s) = clickedScale s"
  "mapTexture (setClickedCountry v s) = mapTexture s"
  "strokesTexture (setClickedCountry v s) = strokesTexture s"
  "highlightTexture (setClickedCountry v s) = highlightTexture s"
  "clickTexture (setClickedCountry v s) = clickTexture s"
  "tweens (setClickedCountry v s) = tweens s"
  "timers (setClickedCountry v s) = timers s"
  "nextTimer (setClickedCountry v s) = nextTimer s"
  "countryName (setClickedCountry v s) = countryName s"
  "clickedCountry (setClickedCountry v s) = (case v of None \<Rightarrow> None | Some c \<Rightarrow> Some (nextObj s, c))"
  "nextObj (setClickedCountry v s) = (case v of None \<Rightarrow> nextObj s | Some c \<Rightarrow> nextObj s + 1)"
  by (simp_all add: setClickedCountry_def split: option.splits)


section \<open>Picking: the buffer and the lookup\<close>

subsection \<open>Rounding to a double\<close>

lemma powi_less2: "(2::real) powi a < 2 powi b \<Longrightarrow> a < b"
proof (rule ccontr)
  assume lt: "(2::real) powi a < 2 powi b" and "\<not> a < b"
  then have "b \<le> a" by simp
  then have "(2::real) powi b \<le> 2 powi a" by (intro power_int_increasing) simp_all
  then show False using lt by simp
qed

lemma binadeFrom_found:
  "2 powi e0 \<le> x \<Longrightarrow> x < 2 powi (e0 + 1) \<Longrightarrow> e0 \<le> e \<Longrightarrow> nat (e - e0) \<le> n
   \<Longrightarrow> binadeFrom n e x = e0"
proof (induction n arbitrary: e)
  case 0
  then show ?case by simp
next
  case (Suc n)
  show ?case
  proof (cases "2 powi e \<le> x")
    case True
    then have "(2::real) powi e < 2 powi (e0 + 1)" using Suc.prems(2) by simp
    then have "e < e0 + 1" by (rule powi_less2)
    then have "e = e0" using Suc.prems(3) by simp
    then show ?thesis using True by simp
  next
    case False
    then have "e \<noteq> e0" using Suc.prems(1) by auto
    then have lt: "e0 \<le> e - 1" using Suc.prems(3) by simp
    have "nat (e - 1 - e0) \<le> n" using Suc.prems(4) lt by simp
    then have "binadeFrom n (e - 1) x = e0" using Suc.prems(1,2) lt by (intro Suc.IH) simp_all
    then show ?thesis using False by simp
  qed
qed

lemma roundHalfEven_int: "roundHalfEven (of_int m) = m"
  by (simp add: roundHalfEven_def)

lemma binade_exists:
  assumes "0 < (x::real)"
  shows "\<exists>e. 2 powi e \<le> x \<and> x < 2 powi (e + 1)"
proof -
  let ?e = "\<lfloor>log 2 x\<rfloor>"
  have a: "of_int ?e \<le> log 2 x" "log 2 x < of_int (?e + 1)" by linarith+
  have "2 powr (of_int ?e) \<le> 2 powr (log 2 x)" using a(1) by simp
  then have lo: "2 powr (of_int ?e) \<le> x" using assms by simp
  have "2 powr (log 2 x) < 2 powr (of_int (?e + 1))" using a(2) by simp
  then have hi: "x < 2 powr (of_int (?e + 1))" using assms by simp
  have p: "\<And>i::int. (2::real) powr (of_int i) = 2 powi i" by (simp add: powr_real_of_int')
  show ?thesis using lo hi unfolding p by (intro exI[of _ ?e]) simp
qed

text \<open>
  A number with a significand of at most 53 bits and an exponent in the range of the
  doubles is a double: rounding leaves it as it is.
\<close>

lemma toDouble_exact:
  assumes x: "x = of_int n * 2 powi k" and n: "\<bar>n\<bar> < 2 ^ 53" and k: "- 1074 \<le> k" "k \<le> 971"
  shows "toDouble x = x"
proof (cases "x = 0")
  case True
  then show ?thesis by (simp add: toDouble_def roundHalfEven_def)
next
  case False
  then have n0: "n \<noteq> 0" using x by auto
  have ax: "\<bar>x\<bar> = of_int \<bar>n\<bar> * 2 powi k" using x by (simp add: abs_mult)
  obtain e0 where e0: "2 powi e0 \<le> \<bar>x\<bar>" "\<bar>x\<bar> < 2 powi (e0 + 1)"
    using binade_exists[of "\<bar>x\<bar>"] False by auto
  have n1: "1 \<le> \<bar>n\<bar>" using n0 by simp
  have nr: "(of_int \<bar>n\<bar> :: real) < 2 ^ 53" using n by (metis of_int_less_numeral_power_cancel_iff)
  have nr': "(of_int \<bar>n\<bar> :: real) < 2 powi 53" using nr by simp
  have "\<bar>x\<bar> < 2 powi 53 * 2 powi k" unfolding ax using nr' by (intro mult_strict_right_mono) simp_all
  then have up: "\<bar>x\<bar> < 2 powi (53 + k)" by (simp add: power_int_add)
  have "(2::real) powi e0 < 2 powi (53 + k)" using e0(1) up by simp
  then have e0k: "e0 < 53 + k" by (rule powi_less2)
  have "(1::real) \<le> of_int \<bar>n\<bar>" using n1 by (metis of_int_1_le_iff)
  then have "1 * 2 powi k \<le> \<bar>x\<bar>" unfolding ax by (intro mult_right_mono) simp_all
  then have "(2::real) powi k < 2 powi (e0 + 1)" using e0(2) by simp
  then have ke0: "k < e0 + 1" by (rule powi_less2)
  have top: "e0 \<le> 1023" using e0k k by simp
  have bot: "- 1074 \<le> e0" using ke0 k by simp
  have b: "binadeFrom 2098 1023 \<bar>x\<bar> = e0"
    using e0 top bot by (intro binadeFrom_found) simp_all
  define u where "u = ulpExponent x"
  have u: "u = max (e0 - 52) (- 1074)" by (simp add: u_def ulpExponent_def b)
  have ku: "0 \<le> k - u" using u e0k k by simp
  have "x / 2 powi u = of_int n * 2 powi (k - u)" unfolding x by (simp add: power_int_diff)
  also have "\<dots> = of_int n * 2 ^ nat (k - u)" using ku by (simp add: power_int_def)
  also have "\<dots> = of_int (n * 2 ^ nat (k - u))" by simp
  finally have q: "x / 2 powi u = of_int (n * 2 ^ nat (k - u))" .
  have "toDouble x = of_int (n * 2 ^ nat (k - u)) * 2 powi u"
    unfolding toDouble_def u_def[symmetric] q roundHalfEven_int ..
  also have "\<dots> = x / 2 powi u * 2 powi u" using q by simp
  also have "\<dots> = x" by simp
  finally show ?thesis .
qed

lemma toDouble_binade:
  assumes "2 powi e0 \<le> \<bar>x\<bar>" "\<bar>x\<bar> < 2 powi (e0 + 1)" "- 1022 \<le> e0" "e0 \<le> 1023"
  shows "toDouble x = of_int (roundHalfEven (x / 2 powi (e0 - 52))) * 2 powi (e0 - 52)"
proof -
  have b: "binadeFrom 2098 1023 \<bar>x\<bar> = e0"
    using assms by (intro binadeFrom_found) simp_all
  have "ulpExponent x = e0 - 52" using assms(3) by (simp add: ulpExponent_def b)
  then show ?thesis by (simp add: toDouble_def)
qed

text \<open>
  The product is rounded before it is floored: the double nearest to \<open>0.015\<close> lies below
  \<open>0.015\<close>, and so does its exact product with 2000 lie below 30, but the double product
  is 30 and the column read is 30.
\<close>

lemma pixelOf_rounds_up: "pixelOf (8646911284551352 / 2 ^ 59, 1 / 2) = (30, 500)"
proof -
  have "toDouble (8646911284551352 / 2 ^ 59 * 2000)
      = of_int (roundHalfEven ((8646911284551352 / 2 ^ 59 * 2000) / 2 powi (4 - 52))) * 2 powi (4 - 52)"
    by (rule toDouble_binade) simp_all
  also have "\<dots> = 30" by (simp add: roundHalfEven_def power_int_minus)
  finally have x: "js_mul (8646911284551352 / 2 ^ 59) 2000 = 30" by (simp add: js_mul_def)
  have "toDouble (1 / 2) = 1 / 2"
    by (rule toDouble_exact[where n=1 and k="- 1"]) (simp_all add: power_int_minus)
  then have h: "js_sub 1 (1 / 2) = 1 / 2" by (simp add: js_sub_def)
  have "toDouble 500 = 500" by (rule toDouble_exact[where n=500 and k=0]) simp_all
  then have y: "js_mul (1 / 2) 1000 = 500" by (simp add: js_mul_def)
  show ?thesis using x by (simp add: pixelOf_def svgViewBox_def h y)
qed

subsection \<open>The encoding and the fill loop\<close>

lemma toInt32_id: "- (2 ^ 31) \<le> n \<Longrightarrow> n < 2 ^ 31 \<Longrightarrow> toInt32 n = n"
  by (simp add: toInt32_def)

lemma and_255: "(x::int) AND 255 = take_bit 8 x"
proof -
  have "(255::int) = mask 8" by (simp add: mask_eq_exp_minus_1)
  thus ?thesis by (simp add: take_bit_eq_mask)
qed

lemma bit_above_24: "0 \<le> n \<Longrightarrow> n < 2 ^ 24 \<Longrightarrow> 24 \<le> i \<Longrightarrow> \<not> bit (n::int) i"
proof -
  assume a: "0 \<le> n" "n < 2 ^ 24" "24 \<le> i"
  have "take_bit 24 n = n" using a by (simp add: take_bit_int_eq_self)
  hence "bit n i = bit (take_bit 24 n) i" by simp
  also have "\<dots> = False" using a by (simp add: bit_take_bit_iff)
  finally show ?thesis by simp
qed

lemma bytes_roundtrip:
  assumes "0 \<le> n" "n < 2 ^ 24"
  shows "push_bit 16 (take_bit 8 (drop_bit 16 n)) OR push_bit 8 (take_bit 8 (drop_bit 8 n))
           OR take_bit 8 n = (n::int)"
proof (rule bit_eqI)
  fix i :: nat
  consider "i < 8" | "8 \<le> i" "i < 16" | "16 \<le> i" "i < 24" | "24 \<le> i" by linarith
  then show "bit (push_bit 16 (take_bit 8 (drop_bit 16 n)) OR push_bit 8 (take_bit 8 (drop_bit 8 n))
           OR take_bit 8 n) i = bit n i"
  proof cases
    case 1 then show ?thesis by (simp add: bit_simps)
  next
    case 2 then show ?thesis by (auto simp add: bit_simps)
  next
    case 3 then show ?thesis by (auto simp add: bit_simps)
  next
    case 4 then show ?thesis using bit_above_24[OF assms 4] by (auto simp add: bit_simps)
  qed
qed

lemma byte_bounds: "0 \<le> take_bit 8 (x::int) \<and> take_bit 8 (x::int) < 2 ^ 8"
  using take_bit_int_less_exp[of 8 x] by simp

lemma drop_bounds: "0 \<le> n \<Longrightarrow> n < 2 ^ 24 \<Longrightarrow> 0 \<le> drop_bit k (n::int) \<and> drop_bit k n < 2 ^ 24"
proof -
  assume a: "0 \<le> n" "n < 2 ^ 24"
  have "drop_bit k n \<le> n"
  proof (cases "n = 0")
    case True then show ?thesis by simp
  next
    case False
    then have "0 < n" using a by simp
    then show ?thesis by (simp add: drop_bit_eq_div int_div_le_self)
  qed
  thus ?thesis using a by simp
qed

lemma push16_bounds: "0 \<le> b \<Longrightarrow> b < 2 ^ 8 \<Longrightarrow> 0 \<le> push_bit 16 (b::int) \<and> push_bit 16 b < 2 ^ 24"
  by (simp add: push_bit_eq_mult)

lemma push8_bounds: "0 \<le> b \<Longrightarrow> b < 2 ^ 8 \<Longrightarrow> 0 \<le> push_bit 8 (b::int) \<and> push_bit 8 b < 2 ^ 24"
  by (simp add: push_bit_eq_mult)

lemma or_bounds24:
  "0 \<le> a \<Longrightarrow> a < 2 ^ 24 \<Longrightarrow> 0 \<le> b \<Longrightarrow> b < 2 ^ 24 \<Longrightarrow> 0 \<le> a OR b \<and> a OR (b::int) < 2 ^ 24"
  using OR_upper[of a 24 b] by simp

lemma small32: "0 \<le> n \<Longrightarrow> n < 2 ^ 24 \<Longrightarrow> toInt32 n = n"
  by (simp add: toInt32_id)

lemma in24: "0 \<le> n \<and> n < 2 ^ 24 \<Longrightarrow> toInt32 n = n"
  by (simp add: toInt32_id)

lemma in8: "0 \<le> n \<and> n < 2 ^ 8 \<Longrightarrow> toInt32 n = n"
  by (simp add: toInt32_id)

lemma js_byte:
  assumes "0 \<le> n" "n < 2 ^ 24"
  shows "js_and (js_shr n k) 255 = take_bit 8 (drop_bit (k mod 32) n)"
proof -
  have "toInt32 (drop_bit (k mod 32) n) = drop_bit (k mod 32) n"
    using drop_bounds[OF assms, of "k mod 32"] by (simp add: small32)
  moreover have "toInt32 255 = 255" by (simp add: toInt32_def)
  ultimately show ?thesis
    by (simp add: js_and_def js_shr_def small32[OF assms] and_255)
qed

lemma js_low_byte:
  assumes "0 \<le> n" "n < 2 ^ 24"
  shows "js_and n 255 = take_bit 8 n"
proof -
  have "toInt32 255 = 255" by (simp add: toInt32_def)
  then show ?thesis by (simp add: js_and_def small32[OF assms] and_255)
qed

lemma decode_fillStyle:
  assumes "0 \<le> n" "n < 2 ^ 24"
  shows "decodeIndex (fillStyle_rgb n) = n - 1"
proof -
  let ?r = "take_bit 8 (drop_bit 16 n)" and ?g = "take_bit 8 (drop_bit 8 n)" and ?b = "take_bit 8 n"
  have fs: "fillStyle_rgb n = RGBA ?r ?g ?b 255"
    using js_byte[OF assms, of 16] js_byte[OF assms, of 8] js_low_byte[OF assms]
    by (simp add: fillStyle_rgb_def)
  have r: "0 \<le> ?r \<and> ?r < 2 ^ 8" and g: "0 \<le> ?g \<and> ?g < 2 ^ 8" and b: "0 \<le> ?b \<and> ?b < 2 ^ 8"
    by (rule byte_bounds)+
  have pr: "0 \<le> push_bit 16 ?r \<and> push_bit 16 ?r < 2 ^ 24" using r by (intro push16_bounds) simp_all
  have pg: "0 \<le> push_bit 8 ?g \<and> push_bit 8 ?g < 2 ^ 24" using g by (intro push8_bounds) simp_all
  have r32: "toInt32 ?r = ?r" using r by (rule in8)
  have g32: "toInt32 ?g = ?g" using g by (rule in8)
  have b32: "toInt32 ?b = ?b" using b by (rule in8)
  have pr32: "toInt32 (push_bit 16 ?r) = push_bit 16 ?r" using pr by (rule in24)
  have pg32: "toInt32 (push_bit 8 ?g) = push_bit 8 ?g" using pg by (rule in24)
  have shl_r: "js_shl ?r 16 = push_bit 16 ?r"
    by (simp add: js_shl_def r32 pr32)
  have shl_g: "js_shl ?g 8 = push_bit 8 ?g"
    by (simp add: js_shl_def g32 pg32)
  have o1: "0 \<le> push_bit 16 ?r OR push_bit 8 ?g \<and> push_bit 16 ?r OR push_bit 8 ?g < 2 ^ 24"
    using pr pg by (intro or_bounds24) simp_all
  have o32: "toInt32 (push_bit 16 ?r OR push_bit 8 ?g) = (push_bit 16 ?r OR push_bit 8 ?g)"
    using o1 by (rule in24)
  have or1: "js_or (push_bit 16 ?r) (push_bit 8 ?g) = push_bit 16 ?r OR push_bit 8 ?g"
    by (simp add: js_or_def pr32 pg32)
  have or2: "js_or (push_bit 16 ?r OR push_bit 8 ?g) ?b = push_bit 16 ?r OR (push_bit 8 ?g OR ?b)"
    unfolding js_or_def o32 b32 by (simp only: or.assoc)
  show ?thesis
    unfolding decodeIndex_def fs rgba.sel shl_r shl_g or1 or2
    using bytes_roundtrip[OF assms] by simp
qed

lemma fill_other: "coverage R t d p = 0 \<Longrightarrow> fill R t col d c p = c p"
  by (simp add: fill_def)

lemma fill_hit: "255 \<le> coverage R t d p \<Longrightarrow> fill R t col d c p = col"
  by (simp add: fill_def)

lemma fillPaths_snoc:
  "fillPaths R (ps @ [q]) i c =
     fill R pickingTranslate (fillStyle_rgb (i + int (length ps) + 1)) (path_d q) (fillPaths R ps i c)"
  by (induction ps arbitrary: i c) (simp_all add: algebra_simps)

lemma fillPaths_uncovered:
  "(\<forall>k < length ps. coverage R pickingTranslate (path_d (ps ! k)) p = 0) \<Longrightarrow> fillPaths R ps i c p = c p"
proof (induction ps arbitrary: i c)
  case Nil
  then show ?case by simp
next
  case (Cons q ps)
  have q: "coverage R pickingTranslate (path_d q) p = 0" using Cons.prems by auto
  have rest: "\<forall>k < length ps. coverage R pickingTranslate (path_d (ps ! k)) p = 0"
    using Cons.prems by auto
  have "fillPaths R ps (i + 1) (fill R pickingTranslate (fillStyle_rgb (i + 1)) (path_d q) c) p
          = fill R pickingTranslate (fillStyle_rgb (i + 1)) (path_d q) c p"
    using rest by (rule Cons.IH)
  then show ?case using q by (simp add: fill_def)
qed

lemma fillPaths_last_cover:
  assumes "j < length ps"
      and "255 \<le> coverage R pickingTranslate (path_d (ps ! j)) p"
      and "\<forall>k. j < k \<and> k < length ps \<longrightarrow> coverage R pickingTranslate (path_d (ps ! k)) p = 0"
  shows "fillPaths R ps i c p = fillStyle_rgb (i + int j + 1)"
  using assms
proof (induction ps arbitrary: i c j)
  case Nil
  then show ?case by simp
next
  case (Cons q ps)
  show ?case
  proof (cases j)
    case 0
    have rest: "\<forall>k < length ps. coverage R pickingTranslate (path_d (ps ! k)) p = 0"
      using Cons.prems(3) 0 by auto
    have "fillPaths R ps (i + 1) (fill R pickingTranslate (fillStyle_rgb (i + 1)) (path_d q) c) p
            = fill R pickingTranslate (fillStyle_rgb (i + 1)) (path_d q) c p"
      using rest by (rule fillPaths_uncovered)
    then show ?thesis using Cons.prems(2) 0 by (simp add: fill_def)
  next
    case (Suc j')
    have a: "j' < length ps" using Cons.prems(1) Suc by simp
    have b: "255 \<le> coverage R pickingTranslate (path_d (ps ! j')) p" using Cons.prems(2) Suc by simp
    have c: "\<forall>k. j' < k \<and> k < length ps \<longrightarrow> coverage R pickingTranslate (path_d (ps ! k)) p = 0"
      using Cons.prems(3) Suc by auto
    show ?thesis using Cons.IH[OF a b c] Suc by (simp add: algebra_simps)
  qed
qed

lemma decode_transparent: "decodeIndex transparent = - 1"
  by (simp add: decodeIndex_def transparent_def js_or_def js_shl_def toInt32_def)

lemma handleCountryClick_total:
  assumes "0 \<le> idx" "idx < int (length (svgPaths cfg))"
  shows "\<exists>s'. handleCountryClick cfg idx s = Some s' \<and> clickedCountryIdx s' = idx"
proof (cases "clickedCountryIdx s = idx")
  case True
  then show ?thesis by (simp add: handleCountryClick_def)
next
  case False
  have ne: "idx \<noteq> - 1" using assms by simp
  show ?thesis using False assms ne
    by (simp add: handleCountryClick_def drawCountry_def Let_def setClickedCountry_def
        setClickTimeout_def clearTimeout_def gsap_to_def killTweensOf_def split: option.splits)
qed

lemma updateMap_no_match:
  assumes "pickingCtx cfg = Some c"
      and "\<not> (0 \<le> decodeIndex (getImageData c (fst (pixelOf p)) (snd (pixelOf p)))
             \<and> decodeIndex (getImageData c (fst (pixelOf p)) (snd (pixelOf p))) < int (length (svgPaths cfg)))"
  shows "updateMap cfg p b s = Some (s, False)"
proof (cases "0 \<le> decodeIndex (getImageData c (fst (pixelOf p)) (snd (pixelOf p)))")
  case True
  then have "\<not> decodeIndex (getImageData c (fst (pixelOf p)) (snd (pixelOf p))) < int (length (svgPaths cfg))"
    using assms(2) by simp
  then show ?thesis using assms(1) by (simp add: updateMap_def Let_def)
next
  case False
  then show ?thesis using assms(1) by (simp add: updateMap_def Let_def)
qed

lemma updateMap_no_ctx: "pickingCtx cfg = None \<Longrightarrow> updateMap cfg p b s = Some (s, False)"
  by (simp add: updateMap_def)

lemma updateMap_click:
  assumes "pickingCtx cfg = Some c"
      and "decodeIndex (getImageData c (fst (pixelOf p)) (snd (pixelOf p))) = idx"
      and "0 \<le> idx" "idx < int (length (svgPaths cfg))"
  shows "updateMap cfg p True s = map_option (\<lambda>s'. (s', True)) (handleCountryClick cfg idx s)"
  using assms by (simp add: updateMap_def Let_def split: option.splits)

lemma updateMap_hover:
  assumes "pickingCtx cfg = Some c"
      and "decodeIndex (getImageData c (fst (pixelOf p)) (snd (pixelOf p))) = idx"
      and "0 \<le> idx" "idx < int (length (svgPaths cfg))"
  shows "\<exists>s'. updateMap cfg p False s = Some (s', True) \<and> hoveredCountryIdx s' = idx"
proof -
  have ne: "idx \<noteq> - 1" using assms by simp
  show ?thesis using assms ne
    by (simp add: updateMap_def Let_def drawCountry_def gsap_to_def killTweensOf_def)
qed

lemma updateMap_total: "\<exists>r. updateMap cfg p b s = Some r"
proof (cases "pickingCtx cfg")
  case None
  then have "updateMap cfg p b s = Some (s, False)" by (rule updateMap_no_ctx)
  then show ?thesis by blast
next
  case (Some c)
  let ?idx = "decodeIndex (getImageData c (fst (pixelOf p)) (snd (pixelOf p)))"
  show ?thesis
  proof (cases "0 \<le> ?idx \<and> ?idx < int (length (svgPaths cfg))")
    case False
    then show ?thesis using updateMap_no_match[OF Some] by blast
  next
    case True
    show ?thesis
    proof (cases b)
      case True
      obtain s' where "handleCountryClick cfg ?idx s = Some s'"
        using handleCountryClick_total[of ?idx cfg s] \<open>0 \<le> ?idx \<and> ?idx < int (length (svgPaths cfg))\<close> by blast
      then have "updateMap cfg p True s = Some (s', True)"
        using updateMap_click[OF Some refl, of p s] \<open>0 \<le> ?idx \<and> ?idx < _\<close> by simp
      then show ?thesis using True by (intro exI[of _ "(s', True)"]) simp
    next
      case False
      then show ?thesis using updateMap_hover[OF Some refl, of p s] \<open>0 \<le> ?idx \<and> ?idx < _\<close> by auto
    qed
  qed
qed

lemma topmost_pixel:
  assumes "topmost R paths j px"
  shows "getImageData (pickingCanvas R paths) (fst px) (snd px) = fillStyle_rgb (int j + 1)"
proof -
  have j: "j < length paths" and inC: "inCanvas px"
    and hit: "255 \<le> coverage R pickingTranslate (path_d (paths ! j)) px"
    using assms by (simp_all add: topmost_def covers_def)
  have above: "\<forall>k. j < k \<and> k < length paths \<longrightarrow> coverage R pickingTranslate (path_d (paths ! k)) px = 0"
  proof (intro allI impI)
    fix k assume k: "j < k \<and> k < length paths"
    then have "k \<in> set [Suc j..<length paths]" by simp
    then have "\<not> touches R paths k px" using assms by (simp add: topmost_def list_all_iff del: set_upt)
    then show "coverage R pickingTranslate (path_d (paths ! k)) px = 0" using k inC by (simp add: touches_def)
  qed
  have "pickingCanvas R paths px = fillStyle_rgb (0 + int j + 1)"
    unfolding pickingCanvas_def using j hit above by (rule fillPaths_last_cover)
  then show ?thesis using inC by (simp add: getImageData_def inCanvas_def)
qed

lemma uncovered_pixel:
  assumes "uncovered R paths px"
  shows "getImageData (pickingCanvas R paths) (fst px) (snd px) = transparent"
proof (cases "inCanvas px")
  case False
  then show ?thesis by (auto simp add: getImageData_def inCanvas_def)
next
  case True
  have "\<forall>k < length paths. coverage R pickingTranslate (path_d (paths ! k)) px = 0"
  proof (intro allI impI)
    fix k assume k: "k < length paths"
    then have "k \<in> set [0..<length paths]" by simp
    then have "\<not> touches R paths k px" using assms by (simp add: uncovered_def list_all_iff del: set_upt)
    then show "coverage R pickingTranslate (path_d (paths ! k)) px = 0" using k True by (simp add: touches_def)
  qed
  then have "pickingCanvas R paths px = transparent"
    unfolding pickingCanvas_def by (rule fillPaths_uncovered)
  then show ?thesis using True by (simp add: getImageData_def inCanvas_def)
qed

lemma topmost_decode:
  assumes "topmost R paths j px" "length paths < 2 ^ 24"
  shows "decodeIndex (getImageData (pickingCanvas R paths) (fst px) (snd px)) = int j"
proof -
  have j: "j < length paths" using assms by (simp add: topmost_def covers_def)
  have "int j + 1 < 2 ^ 24" using j assms(2) by simp
  then have "decodeIndex (fillStyle_rgb (int j + 1)) = int j + 1 - 1"
    by (intro decode_fillStyle) simp_all
  then show ?thesis using topmost_pixel[OF assms(1)] by simp
qed

text \<open>
  What the lookup does on the pixels that anti-aliasing leaves alone. It never throws and
  treats every decoded index outside \<open>[0, length svgPaths)\<close> as no match, whatever the
  canvas holds. On the canvas the fill loop builds, with fewer than \<open>2 ^ 24\<close> countries, a
  pixel that country \<open>j\<close> covers in full and no later country touches decodes to \<open>j\<close>, and
  both the hover and the click path take that index; a pixel that no country touches, or
  one off the canvas, decodes to \<open>-1\<close> and is no match.
\<close>

lemma solid_pixel_lookup:
  "(pickingCtx cfg = Some c \<and>
      \<not> (0 \<le> decodeIndex (getImageData c (fst (pixelOf p)) (snd (pixelOf p))) \<and>
         decodeIndex (getImageData c (fst (pixelOf p)) (snd (pixelOf p))) < int (length (svgPaths cfg)))
      \<longrightarrow> updateMap cfg p b s = Some (s, False))
   \<and> (pickingCtx cfg = Some (pickingCanvas R (svgPaths cfg)) \<and> length (svgPaths cfg) < 2 ^ 24 \<and>
      topmost R (svgPaths cfg) j (pixelOf p)
      \<longrightarrow> decodeIndex (getImageData (pickingCanvas R (svgPaths cfg)) (fst (pixelOf p)) (snd (pixelOf p))) = int j
        \<and> (\<exists>s'. updateMap cfg p False s = Some (s', True) \<and> hoveredCountryIdx s' = int j)
        \<and> (\<exists>s'. updateMap cfg p True s = Some (s', True) \<and> clickedCountryIdx s' = int j))
   \<and> (pickingCtx cfg = Some (pickingCanvas R (svgPaths cfg)) \<and> uncovered R (svgPaths cfg) (pixelOf p)
      \<longrightarrow> decodeIndex (getImageData (pickingCanvas R (svgPaths cfg)) (fst (pixelOf p)) (snd (pixelOf p))) = - 1
        \<and> updateMap cfg p b s = Some (s, False))
   \<and> (\<exists>res. updateMap cfg p b s = Some res)"
proof (intro conjI impI)
  assume "pickingCtx cfg = Some c \<and>
      \<not> (0 \<le> decodeIndex (getImageData c (fst (pixelOf p)) (snd (pixelOf p))) \<and>
         decodeIndex (getImageData c (fst (pixelOf p)) (snd (pixelOf p))) < int (length (svgPaths cfg)))"
  then show "updateMap cfg p b s = Some (s, False)" using updateMap_no_match by blast
next
  assume a: "pickingCtx cfg = Some (pickingCanvas R (svgPaths cfg)) \<and> length (svgPaths cfg) < 2 ^ 24 \<and>
      topmost R (svgPaths cfg) j (pixelOf p)"
  then have d: "decodeIndex (getImageData (pickingCanvas R (svgPaths cfg)) (fst (pixelOf p)) (snd (pixelOf p))) = int j"
    using topmost_decode by blast
  have j: "0 \<le> int j" "int j < int (length (svgPaths cfg))"
    using a by (simp_all add: topmost_def covers_def)
  have ctx: "pickingCtx cfg = Some (pickingCanvas R (svgPaths cfg))" using a by simp
  show "decodeIndex (getImageData (pickingCanvas R (svgPaths cfg)) (fst (pixelOf p)) (snd (pixelOf p))) = int j"
    by (rule d)
  show "\<exists>s'. updateMap cfg p False s = Some (s', True) \<and> hoveredCountryIdx s' = int j"
    using ctx d j by (rule updateMap_hover)
  obtain s' where s': "handleCountryClick cfg (int j) s = Some s'" "clickedCountryIdx s' = int j"
    using handleCountryClick_total[OF j, of s] by blast
  have "updateMap cfg p True s = map_option (\<lambda>s'. (s', True)) (handleCountryClick cfg (int j) s)"
    using ctx d j by (rule updateMap_click)
  then show "\<exists>s'. updateMap cfg p True s = Some (s', True) \<and> clickedCountryIdx s' = int j"
    using s' by simp
next
  assume a: "pickingCtx cfg = Some (pickingCanvas R (svgPaths cfg)) \<and> uncovered R (svgPaths cfg) (pixelOf p)"
  then have px: "getImageData (pickingCanvas R (svgPaths cfg)) (fst (pixelOf p)) (snd (pixelOf p)) = transparent"
    using uncovered_pixel by blast
  show d: "decodeIndex (getImageData (pickingCanvas R (svgPaths cfg)) (fst (pixelOf p)) (snd (pixelOf p))) = - 1"
    using px by (simp add: decode_transparent)
  have ctx: "pickingCtx cfg = Some (pickingCanvas R (svgPaths cfg))" using a by simp
  show "updateMap cfg p b s = Some (s, False)"
    using ctx by (rule updateMap_no_match) (simp add: d)
next
  show "\<exists>res. updateMap cfg p b s = Some res" by (rule updateMap_total)
qed

subsection \<open>The two-country world\<close>

text \<open>The coordinates of the world are doubles, and so are the products the lookup forms.\<close>

lemma demo_doubles:
  "toDouble (375 / 64) = 375 / 64" "toDouble (125 / 16) = 125 / 16"
  "toDouble (1625 / 64) = 1625 / 64" "toDouble (1875 / 64) = 1875 / 64"
  "toDouble (61375 / 2048) = 61375 / 2048" "toDouble 1000 = 1000"
  "toDouble (113 / 1024) = 113 / 1024" "toDouble (27 / 256) = 27 / 256"
  "toDouble (1 / 2) = 1 / 2"
  "toDouble (14125 / 128) = 14125 / 128" "toDouble (3375 / 32) = 3375 / 32"
  "toDouble 500 = 500"
proof -
  show "toDouble (375 / 64) = 375 / 64"
    by (rule toDouble_exact[where n=375 and k="- 6"]) (simp_all add: power_int_minus)
  show "toDouble (125 / 16) = 125 / 16"
    by (rule toDouble_exact[where n=125 and k="- 4"]) (simp_all add: power_int_minus)
  show "toDouble (1625 / 64) = 1625 / 64"
    by (rule toDouble_exact[where n=1625 and k="- 6"]) (simp_all add: power_int_minus)
  show "toDouble (1875 / 64) = 1875 / 64"
    by (rule toDouble_exact[where n=1875 and k="- 6"]) (simp_all add: power_int_minus)
  show "toDouble (61375 / 2048) = 61375 / 2048"
    by (rule toDouble_exact[where n=61375 and k="- 11"]) (simp_all add: power_int_minus)
  show "toDouble 1000 = 1000"
    by (rule toDouble_exact[where n=1000 and k=0]) simp_all
  show "toDouble (113 / 1024) = 113 / 1024"
    by (rule toDouble_exact[where n=113 and k="- 10"]) (simp_all add: power_int_minus)
  show "toDouble (27 / 256) = 27 / 256"
    by (rule toDouble_exact[where n=27 and k="- 8"]) (simp_all add: power_int_minus)
  show "toDouble (1 / 2) = 1 / 2"
    by (rule toDouble_exact[where n=1 and k="- 1"]) (simp_all add: power_int_minus)
  show "toDouble (14125 / 128) = 14125 / 128"
    by (rule toDouble_exact[where n=14125 and k="- 7"]) (simp_all add: power_int_minus)
  show "toDouble (3375 / 32) = 3375 / 32"
    by (rule toDouble_exact[where n=3375 and k="- 5"]) (simp_all add: power_int_minus)
  show "toDouble 500 = 500"
    by (rule toDouble_exact[where n=500 and k=0]) simp_all
qed

lemma px_uvA: "pixelOf uvA = (5, 110)"
  by (simp add: pixelOf_def uvA_def svgViewBox_def js_mul_def js_sub_def demo_doubles)

lemma px_uvB: "pixelOf uvB = (25, 110)"
  by (simp add: pixelOf_def uvB_def svgViewBox_def js_mul_def js_sub_def demo_doubles)

lemma px_uvSea: "pixelOf uvSea = (1000, 500)"
  by (simp add: pixelOf_def uvSea_def svgViewBox_def js_mul_def js_sub_def demo_doubles)

lemma px_uvCoast: "pixelOf uvCoast = (29, 110)"
  by (simp add: pixelOf_def uvCoast_def svgViewBox_def js_mul_def js_sub_def demo_doubles)

lemma px_uvOffCoast: "pixelOf uvOffCoast = (29, 110)"
  by (simp add: pixelOf_def uvOffCoast_def svgViewBox_def js_mul_def js_sub_def demo_doubles)

lemma len_two: "length twoPaths = 2" by (simp add: twoPaths_def)

lemma demo_coverage:
  "boxCoverage pickingTranslate ''A'' (5, 110) = 255"
  "boxCoverage pickingTranslate ''B'' (5, 110) = 0"
  "boxCoverage pickingTranslate ''A'' (7, 105) = 255"
  "boxCoverage pickingTranslate ''B'' (7, 105) = 0"
  "boxCoverage pickingTranslate ''A'' (25, 110) = 0"
  "boxCoverage pickingTranslate ''B'' (25, 110) = 255"
  "boxCoverage pickingTranslate ''A'' (29, 110) = 0"
  "boxCoverage pickingTranslate ''B'' (29, 110) = 241"
  "boxCoverage pickingTranslate ''A'' (1000, 500) = 0"
  "boxCoverage pickingTranslate ''B'' (1000, 500) = 0"
  by (simp_all add: boxCoverage_def boxOf_def overlap_def pickingTranslate_def offsetY_def
      svgViewBox_def)

lemma covers_two:
  "covers demoRaster twoPaths 0 (5, 110)" "\<not> touches demoRaster twoPaths (Suc 0) (5, 110)"
  "covers demoRaster twoPaths 0 (7, 105)" "\<not> touches demoRaster twoPaths (Suc 0) (7, 105)"
  "\<not> touches demoRaster twoPaths 0 (25, 110)" "covers demoRaster twoPaths (Suc 0) (25, 110)"
  "\<not> touches demoRaster twoPaths 0 (1000, 500)" "\<not> touches demoRaster twoPaths (Suc 0) (1000, 500)"
  by (simp_all add: covers_def touches_def twoPaths_def demoRaster_def inCanvas_def svgViewBox_def
      demo_coverage)

lemma top_A: "topmost demoRaster twoPaths 0 (pixelOf uvA)"
  by (simp add: topmost_def px_uvA covers_two len_two upt_rec)

lemma sea: "uncovered demoRaster twoPaths (pixelOf uvSea)"
  by (simp add: uncovered_def px_uvSea covers_two len_two upt_rec)

lemma demo_fields:
  "pickingCtx (demoConfig m) = Some (pickingCanvas demoRaster twoPaths)"
  "svgPaths (demoConfig m) = twoPaths"
  by (simp_all add: demoConfig_def)

section \<open>The handlers: what they change and what they keep\<close>

lemma drawCountry_valid:
  assumes "0 \<le> idx" "idx < int (length (svgPaths cfg))"
  shows "drawCountry cfg ctx t idx col sc m =
     Some (if ctx then needsUpdate (t\<lparr>content := CountryDrawing idx col
              (if m > 1 then clickedColor else strokeColor) (strokeWidth * m) sc\<rparr>) else t)"
proof -
  have ne: "idx \<noteq> - 1" using assms by simp
  show ?thesis using assms ne by (simp add: drawCountry_def)
qed

lemma drawCountry_blank:
  "drawCountry cfg ctx t (- 1) col sc m =
     Some (if ctx then needsUpdate (t\<lparr>content := Blank sc\<rparr>) else t)"
  by (simp add: drawCountry_def)

lemma handleCountryClick_same:
  "clickedCountryIdx s = idx \<Longrightarrow> handleCountryClick cfg idx s = Some s"
  by (simp add: handleCountryClick_def)

lemma handleCountryClick_fresh:
  assumes "0 \<le> idx" "idx < int (length (svgPaths cfg))" "clickedCountryIdx s \<noteq> idx"
  shows "\<exists>s'. handleCountryClick cfg idx s = Some s'
     \<and> clickedCountryIdx s' = idx
     \<and> clickedCountry s' = Some (nextObj s,
            \<lparr>sel_name = or_empty (path_name (svgPaths cfg ! nat idx)),
             sel_id = or_empty (path_id (svgPaths cfg ! nat idx))\<rparr>)
     \<and> nextObj s' = nextObj s + 1
     \<and> targetZoom s' = 3 / 2
     \<and> autoRotate s' = (if isDeviceMotionActive cfg then autoRotate s else False)
     \<and> clickTimeout s' = Some (nextTimer s)
     \<and> nextTimer s' = nextTimer s + 1
     \<and> timers s' =
          filter (\<lambda>t. clickTimeout s \<noteq> Some (fst t) \<or> fst t = 0) (timers s)
          @ [(nextTimer s, 3000)]
     \<and> tweens s' = filter (\<lambda>w. tw_target w \<noteq> ClickedScale) (tweens s)
          @ [\<lparr>tw_target = ClickedScale, tw_goal = [102 / 100, 102 / 100, 102 / 100],
              tw_duration = 1 / 2, tw_ease = ''back.out(1.5)'', tw_onComplete = NoCallback\<rparr>,
             \<lparr>tw_target = CameraZoom, tw_goal = [3 / 2], tw_duration = 8 / 10,
              tw_ease = ''power2.out'', tw_onComplete = NoCallback\<rparr>]
     \<and> clickedVisible s' \<and> clickedScale s' = 1
     \<and> clickTexture s' = (if clickCtx cfg
           then needsUpdate ((clickTexture s)\<lparr>content :=
                  CountryDrawing idx hoverColor clickedColor (strokeWidth * 4) lowResScalingFactor\<rparr>)
           else clickTexture s)
     \<and> mapTexture s' = mapTexture s \<and> strokesTexture s' = strokesTexture s
     \<and> highlightTexture s' = highlightTexture s
     \<and> hoveredCountryIdx s' = hoveredCountryIdx s \<and> countryName s' = countryName s
     \<and> isHoverable s' = isHoverable s \<and> isTouchScreen s' = isTouchScreen s
     \<and> selectionVisible s' = selectionVisible s \<and> selectionScale s' = selectionScale s"
  using assms
  by (simp add: handleCountryClick_def drawCountry_valid Let_def)

lemma revertClick_idle: "clickedCountryIdx s = - 1 \<Longrightarrow> revertClick cfg s = s"
  by (simp add: revertClick_def)

lemma revertClick_clicked:
  assumes "clickedCountryIdx s \<noteq> - 1"
  shows "clickedCountryIdx (revertClick cfg s) = - 1"
    and "clickedCountry (revertClick cfg s) = None"
    and "nextObj (revertClick cfg s) = nextObj s"
    and "targetZoom (revertClick cfg s) = 1"
    and "autoRotate (revertClick cfg s) = (if isDeviceMotionActive cfg then autoRotate s else True)"
    and "clickTimeout (revertClick cfg s) = clickTimeout s"
    and "nextTimer (revertClick cfg s) = nextTimer s"
    and "timers (revertClick cfg s) = timers s"
    and "tweens (revertClick cfg s) = tweens s
          @ [\<lparr>tw_target = ClickedScale, tw_goal = [1, 1, 1],
              tw_duration = 1 / 2, tw_ease = [], tw_onComplete = HideClicked\<rparr>,
             \<lparr>tw_target = CameraZoom, tw_goal = [1], tw_duration = 8 / 10,
              tw_ease = ''power2.inOut'', tw_onComplete = NoCallback\<rparr>]"
    and "clickedVisible (revertClick cfg s) = clickedVisible s"
    and "clickedScale (revertClick cfg s) = clickedScale s"
    and "clickTexture (revertClick cfg s) = clickTexture s"
    and "mapTexture (revertClick cfg s) = mapTexture s"
    and "strokesTexture (revertClick cfg s) = strokesTexture s"
    and "highlightTexture (revertClick cfg s) = highlightTexture s"
    and "hoveredCountryIdx (revertClick cfg s) = hoveredCountryIdx s"
    and "countryName (revertClick cfg s) = countryName s"
    and "isHoverable (revertClick cfg s) = isHoverable s"
    and "isTouchScreen (revertClick cfg s) = isTouchScreen s"
    and "selectionVisible (revertClick cfg s) = selectionVisible s"
    and "selectionScale (revertClick cfg s) = selectionScale s"
  using assms by (simp_all add: revertClick_def Let_def)

lemma clearHover_fields:
  "hoveredCountryIdx (clearHover s) = - 1"
  "clickedCountryIdx (clearHover s) = clickedCountryIdx s"
  "clickedCountry (clearHover s) = clickedCountry s"
  "nextObj (clearHover s) = nextObj s"
  "targetZoom (clearHover s) = targetZoom s"
  "autoRotate (clearHover s) = autoRotate s"
  "clickTimeout (clearHover s) = clickTimeout s"
  "nextTimer (clearHover s) = nextTimer s"
  "timers (clearHover s) = timers s"
  "mapTexture (clearHover s) = mapTexture s"
  "strokesTexture (clearHover s) = strokesTexture s"
  "highlightTexture (clearHover s) = highlightTexture s"
  "clickTexture (clearHover s) = clickTexture s"
  "isHoverable (clearHover s) = isHoverable s"
  "isTouchScreen (clearHover s) = isTouchScreen s"
  by (simp_all add: clearHover_def)

lemma updateMap_hover_same:
  assumes "pickingCtx cfg = Some c"
      and "decodeIndex (getImageData c (fst (pixelOf p)) (snd (pixelOf p))) = hoveredCountryIdx s"
      and "0 \<le> hoveredCountryIdx s" "hoveredCountryIdx s < int (length (svgPaths cfg))"
  shows "updateMap cfg p False s = Some (s, True)"
  using assms by (simp add: updateMap_def Let_def)

lemma updateMap_hover_new:
  assumes "pickingCtx cfg = Some c"
      and "decodeIndex (getImageData c (fst (pixelOf p)) (snd (pixelOf p))) = idx"
      and "0 \<le> idx" "idx < int (length (svgPaths cfg))" "idx \<noteq> hoveredCountryIdx s"
  shows "updateMap cfg p False s =
     Some (s\<lparr>hoveredCountryIdx := idx, selectionVisible := True,
             highlightTexture := (if highlightCtx cfg
               then needsUpdate ((highlightTexture s)\<lparr>content :=
                      CountryDrawing idx hoverColor strokeColor (strokeWidth * 1) lowResScalingFactor\<rparr>)
               else highlightTexture s),
             countryName := or_empty (path_name (svgPaths cfg ! nat idx)),
             selectionScale := 1,
             tweens := filter (\<lambda>w. tw_target w \<noteq> SelectionOuterScale) (tweens s)
               @ [\<lparr>tw_target = SelectionOuterScale, tw_goal = [1015 / 1000, 1015 / 1000, 1015 / 1000],
                   tw_duration = 4 / 10, tw_ease = ''back.out(1.5)'', tw_onComplete = NoCallback\<rparr>]\<rparr>, True)"
  using assms
  by (simp add: updateMap_def Let_def drawCountry_valid gsap_to_def killTweensOf_def)


lemma handleCountryClick_range:
  assumes "handleCountryClick cfg idx s = Some s'" "clickedCountryIdx s \<noteq> idx"
  shows "0 \<le> idx \<and> idx < int (length (svgPaths cfg))"
proof (rule ccontr)
  assume "\<not> (0 \<le> idx \<and> idx < int (length (svgPaths cfg)))"
  then have "idx < 0 \<or> int (length (svgPaths cfg)) \<le> idx" by linarith
  then have "handleCountryClick cfg idx s = None"
    using assms(2) by (simp add: handleCountryClick_def)
  then show False using assms(1) by simp
qed

lemma timersKnown_click:
  assumes "timersKnown s"
      and "nextTimer s' = nextTimer s + 1"
      and "timers s' = filter P (timers s) @ [(nextTimer s, ms)]"
  shows "timersKnown s'"
proof -
  have pos: "0 < nextTimer s" and old: "\<forall>t \<in> set (timers s). 0 < fst t \<and> fst t < nextTimer s"
    using assms(1) by (simp_all add: timersKnown_def list_all_iff)
  have "\<forall>t \<in> set (timers s'). 0 < fst t \<and> fst t < nextTimer s'"
    using pos old assms(2,3) by auto
  then show ?thesis using pos assms(2) by (simp add: timersKnown_def list_all_iff)
qed

lemma timersKnown_same:
  assumes "timersKnown s" "nextTimer s' = nextTimer s" "timers s' = timers s"
  shows "timersKnown s'"
  using assms by (simp add: timersKnown_def)

lemma timersKnown_filter:
  assumes "timersKnown s" "nextTimer s' = nextTimer s" "timers s' = filter P (timers s)"
  shows "timersKnown s'"
  using assms by (auto simp add: timersKnown_def list_all_iff)

lemma handleCountryClick_inv:
  assumes "globeInv cfg s" "handleCountryClick cfg idx s = Some s'"
  shows "globeInv cfg s'"
proof (cases "clickedCountryIdx s = idx")
  case True
  then show ?thesis using assms by (simp add: handleCountryClick_same)
next
  case False
  have r: "0 \<le> idx" "idx < int (length (svgPaths cfg))"
    using handleCountryClick_range[OF assms(2) False] by simp_all
  obtain t where t: "handleCountryClick cfg idx s = Some t" "targetZoom t = 3 / 2"
      "autoRotate t = (if isDeviceMotionActive cfg then autoRotate s else False)"
      "nextTimer t = nextTimer s + 1"
      "timers t = filter (\<lambda>t. clickTimeout s \<noteq> Some (fst t) \<or> fst t = 0) (timers s) @ [(nextTimer s, 3000)]"
    using handleCountryClick_fresh[OF r False] by blast
  have eq: "s' = t" using t(1) assms(2) by simp
  have tk0: "timersKnown s" using assms(1) by (simp add: globeInv_def)
  have tk: "timersKnown t" using tk0 t(4,5) by (rule timersKnown_click)
  show ?thesis using assms(1) tk t(2,3) unfolding eq by (simp add: globeInv_def zoomInRange_def)
qed

lemma revertClick_inv:
  assumes "globeInv cfg s"
  shows "globeInv cfg (revertClick cfg s)"
proof (cases "clickedCountryIdx s = - 1")
  case True
  then show ?thesis using assms by (simp add: revertClick_idle)
next
  case False
  have tk0: "timersKnown s" using assms(1) by (simp add: globeInv_def)
  have tk: "timersKnown (revertClick cfg s)"
    using tk0 revertClick_clicked(7,8)[OF False, of cfg] by (rule timersKnown_same)
  show ?thesis using assms tk revertClick_clicked(4,5)[OF False, of cfg]
    by (simp add: globeInv_def zoomInRange_def)
qed

lemma clearHover_inv:
  assumes "globeInv cfg s"
  shows "globeInv cfg (clearHover s)"
proof -
  have tk0: "timersKnown s" using assms by (simp add: globeInv_def)
  have tk: "timersKnown (clearHover s)"
    using tk0 clearHover_fields(8,9)[of s] by (rule timersKnown_same)
  show ?thesis using assms tk by (simp add: globeInv_def zoomInRange_def clearHover_fields)
qed

lemma updateMap_cases:
  assumes "updateMap cfg p b s = Some (s', r)"
  obtains (same) "s' = s"
    | (click) idx where "b" "r" "handleCountryClick cfg idx s = Some s'" "clickedCountryIdx s \<noteq> idx"
        "0 \<le> idx" "idx < int (length (svgPaths cfg))"
    | (hover) idx where "\<not> b" "r" "0 \<le> idx" "idx < int (length (svgPaths cfg))"
        "idx \<noteq> hoveredCountryIdx s"
        "s' = s\<lparr>hoveredCountryIdx := idx, selectionVisible := True,
             highlightTexture := (if highlightCtx cfg
               then needsUpdate ((highlightTexture s)\<lparr>content :=
                      CountryDrawing idx hoverColor strokeColor (strokeWidth * 1) lowResScalingFactor\<rparr>)
               else highlightTexture s),
             countryName := or_empty (path_name (svgPaths cfg ! nat idx)),
             selectionScale := 1,
             tweens := filter (\<lambda>w. tw_target w \<noteq> SelectionOuterScale) (tweens s)
               @ [\<lparr>tw_target = SelectionOuterScale, tw_goal = [1015 / 1000, 1015 / 1000, 1015 / 1000],
                   tw_duration = 4 / 10, tw_ease = ''back.out(1.5)'', tw_onComplete = NoCallback\<rparr>]\<rparr>"
proof (cases "pickingCtx cfg")
  case None
  then have "updateMap cfg p b s = Some (s, False)" by (rule updateMap_no_ctx)
  then have "s' = s" using assms by simp
  then show thesis by (rule same)
next
  case (Some c)
  let ?idx = "decodeIndex (getImageData c (fst (pixelOf p)) (snd (pixelOf p)))"
  show thesis
  proof (cases "0 \<le> ?idx \<and> ?idx < int (length (svgPaths cfg))")
    case False
    have "updateMap cfg p b s = Some (s, False)" using Some False by (rule updateMap_no_match)
    then have "s' = s" using assms by simp
    then show thesis by (rule same)
  next
    case True
    then have r: "0 \<le> ?idx" "?idx < int (length (svgPaths cfg))" by simp_all
    show thesis
    proof (cases b)
      case True
      have u: "updateMap cfg p True s = map_option (\<lambda>s'. (s', True)) (handleCountryClick cfg ?idx s)"
        using Some refl r by (rule updateMap_click)
      have h: "handleCountryClick cfg ?idx s = Some s'" and rt: r
        using assms True u by auto
      show thesis
      proof (cases "clickedCountryIdx s = ?idx")
        case True
        then have "s' = s" using h by (simp add: handleCountryClick_same)
        then show thesis by (rule same)
      next
        case False
        show thesis using \<open>b\<close> rt h False r by (rule click)
      qed
    next
      case False
      show thesis
      proof (cases "?idx = hoveredCountryIdx s")
        case True
        then have "updateMap cfg p False s = Some (s, True)"
          using updateMap_hover_same[OF Some] r by simp
        then have "s' = s" using assms False by simp
        then show thesis by (rule same)
      next
        case neq: False
        have u: "updateMap cfg p b s = updateMap cfg p False s" using False by simp
        have e: "Some (s', r) = Some (s\<lparr>hoveredCountryIdx := ?idx, selectionVisible := True,
             highlightTexture := (if highlightCtx cfg
               then needsUpdate ((highlightTexture s)\<lparr>content :=
                      CountryDrawing ?idx hoverColor strokeColor (strokeWidth * 1) lowResScalingFactor\<rparr>)
               else highlightTexture s),
             countryName := or_empty (path_name (svgPaths cfg ! nat ?idx)),
             selectionScale := 1,
             tweens := filter (\<lambda>w. tw_target w \<noteq> SelectionOuterScale) (tweens s)
               @ [\<lparr>tw_target = SelectionOuterScale, tw_goal = [1015 / 1000, 1015 / 1000, 1015 / 1000],
                   tw_duration = 4 / 10, tw_ease = ''back.out(1.5)'', tw_onComplete = NoCallback\<rparr>]\<rparr>, True)"
          unfolding assms[symmetric] u by (rule updateMap_hover_new[OF Some refl r neq])
        have rt: r using e by blast
        have e': "s' = s\<lparr>hoveredCountryIdx := ?idx, selectionVisible := True,
             highlightTexture := (if highlightCtx cfg
               then needsUpdate ((highlightTexture s)\<lparr>content :=
                      CountryDrawing ?idx hoverColor strokeColor (strokeWidth * 1) lowResScalingFactor\<rparr>)
               else highlightTexture s),
             countryName := or_empty (path_name (svgPaths cfg ! nat ?idx)),
             selectionScale := 1,
             tweens := filter (\<lambda>w. tw_target w \<noteq> SelectionOuterScale) (tweens s)
               @ [\<lparr>tw_target = SelectionOuterScale, tw_goal = [1015 / 1000, 1015 / 1000, 1015 / 1000],
                   tw_duration = 4 / 10, tw_ease = ''back.out(1.5)'', tw_onComplete = NoCallback\<rparr>]\<rparr>"
          using e by blast
        show thesis using False rt r neq e' by (rule hover)
      qed
    qed
  qed
qed

lemma updateMap_inv:
  assumes "globeInv cfg s" "updateMap cfg p b s = Some (s', r)"
  shows "globeInv cfg s'"
  using assms(2)
proof (cases rule: updateMap_cases)
  case same
  then show ?thesis using assms(1) by simp
next
  case (click idx)
  then show ?thesis using assms(1) handleCountryClick_inv by blast
next
  case (hover idx)
  have f: "targetZoom s' = targetZoom s" "autoRotate s' = autoRotate s"
    "nextTimer s' = nextTimer s" "timers s' = timers s"
    unfolding hover(6) by simp_all
  have tk0: "timersKnown s" using assms(1) by (simp add: globeInv_def)
  have "timersKnown s'" using tk0 f(3,4) by (rule timersKnown_same)
  then show ?thesis using assms(1) f(1,2) by (simp add: globeInv_def zoomInRange_def)
qed

lemma isHoverable_update_inv:
  "globeInv cfg s \<Longrightarrow> globeInv cfg (s\<lparr>isHoverable := v\<rparr>)"
  by (simp add: globeInv_def zoomInRange_def timersKnown_def)

lemma render_total: "\<exists>s'. render cfg hit s = Some s'"
proof -
  obtain s1 r where "updateMap cfg (the hit) False s = Some (s1, r)"
    using updateMap_total[of cfg "the hit" False s] by auto
  then show ?thesis by (cases hit) (simp_all add: render_def Let_def)
qed

lemma render_inv:
  assumes "globeInv cfg s" "render cfg hit s = Some s'"
  shows "globeInv cfg s'"
proof -
  have mid: "\<exists>m. globeInv cfg m \<and> (s' = m \<or> s' = m\<lparr>isHoverable := False\<rparr>)"
  proof (cases "isHoverable s")
    case False
    then show ?thesis using assms by (auto simp add: render_def Let_def split: if_splits)
  next
    case True
    show ?thesis
    proof (cases hit)
      case None
      then show ?thesis using assms True clearHover_inv[OF assms(1)]
        by (auto simp add: render_def Let_def split: if_splits)
    next
      case (Some p)
      obtain s1 r where u: "updateMap cfg p False s = Some (s1, r)"
        using updateMap_total[of cfg p False s] by auto
      have i1: "globeInv cfg s1" using assms(1) u by (rule updateMap_inv)
      have i2: "globeInv cfg (clearHover s1)" using i1 by (rule clearHover_inv)
      show ?thesis using assms(2) True Some u i1 i2
        by (auto simp add: render_def Let_def split: if_splits)
    qed
  qed
  then show ?thesis using isHoverable_update_inv by blast
qed

lemma handleClick_total: "\<exists>s'. handleClick cfg hit s = Some s'"
proof -
  obtain s1 r where "updateMap cfg (the hit) True s = Some (s1, r)"
    using updateMap_total[of cfg "the hit" True s] by auto
  then show ?thesis by (cases hit) (simp_all add: handleClick_def)
qed

lemma handleClick_inv:
  assumes "globeInv cfg s" "handleClick cfg hit s = Some s'"
  shows "globeInv cfg s'"
proof (cases hit)
  case None
  then show ?thesis using assms revertClick_inv by (auto simp add: handleClick_def)
next
  case (Some p)
  obtain s1 r where u: "updateMap cfg p True s = Some (s1, r)"
    using updateMap_total[of cfg p True s] by auto
  have i1: "globeInv cfg s1" using assms(1) u by (rule updateMap_inv)
  have i2: "globeInv cfg (revertClick cfg s1)" using i1 by (rule revertClick_inv)
  show ?thesis using assms(2) Some u i1 i2 by (auto simp add: handleClick_def split: if_splits)
qed

lemma handleWheel_zoom:
  "targetZoom (handleWheel deltaY s) = max (8 / 10) (min 3 (targetZoom s + (if deltaY > 0 then - (3 / 10) else 3 / 10)))"
  by (simp add: handleWheel_def Let_def)

lemma handleWheel_inv:
  assumes "globeInv cfg s"
  shows "globeInv cfg (handleWheel deltaY s)"
proof -
  have tk0: "timersKnown s" using assms by (simp add: globeInv_def)
  have "nextTimer (handleWheel deltaY s) = nextTimer s" "timers (handleWheel deltaY s) = timers s"
    by (simp_all add: handleWheel_def Let_def)
  with tk0 have "timersKnown (handleWheel deltaY s)" by (rule timersKnown_same)
  moreover have "autoRotate (handleWheel deltaY s) = autoRotate s"
    by (simp add: handleWheel_def Let_def)
  moreover have "zoomInRange (handleWheel deltaY s)"
    unfolding zoomInRange_def handleWheel_zoom by simp
  ultimately show ?thesis using assms by (simp add: globeInv_def)
qed

lemma runCallback_total: "\<exists>s'. runCallback cfg cb s = Some s'"
  by (cases cb) (simp_all add: runCallback_def drawCountry_blank)

lemma runCallback_inv:
  assumes "globeInv cfg s" "runCallback cfg cb s = Some s'"
  shows "globeInv cfg s'"
  using assms
  by (cases cb)
     (auto simp add: runCallback_def drawCountry_blank globeInv_def zoomInRange_def timersKnown_def
        split: if_splits)

lemma arrive_inv: "globeInv cfg s \<Longrightarrow> globeInv cfg (arrive w s)"
  by (auto simp add: arrive_def globeInv_def zoomInRange_def timersKnown_def
      split: tween_target.splits list.splits)

lemma tweens_update_inv: "globeInv cfg s \<Longrightarrow> globeInv cfg (s\<lparr>tweens := v\<rparr>)"
  by (simp add: globeInv_def zoomInRange_def timersKnown_def)

lemma gsap_to_inv: "globeInv cfg s \<Longrightarrow> globeInv cfg (gsap_to t g d e cb s)"
  by (simp add: globeInv_def zoomInRange_def timersKnown_def)

lemma clearTimeout_inv: "globeInv cfg s \<Longrightarrow> globeInv cfg (clearTimeout h s)"
proof -
  assume a: "globeInv cfg s"
  have tk0: "timersKnown s" using a by (simp add: globeInv_def)
  have "nextTimer (clearTimeout h s) = nextTimer s"
    "timers (clearTimeout h s) = filter (\<lambda>t. fst t \<noteq> h) (timers s)" by simp_all
  with tk0 have "timersKnown (clearTimeout h s)" by (rule timersKnown_filter)
  then show ?thesis using a by (simp add: globeInv_def zoomInRange_def)
qed

lemma rotateToRegion_inv: "globeInv cfg s \<Longrightarrow> globeInv cfg (rotateToRegion cfg x y s)"
  by (simp add: rotateToRegion_def globeInv_def zoomInRange_def timersKnown_def)

lemma prepareHiResTextures_inv: "globeInv cfg s \<Longrightarrow> globeInv cfg (prepareHiResTextures cfg s)"
  by (simp add: prepareHiResTextures_def globeInv_def zoomInRange_def timersKnown_def)

lemma step_total: "\<exists>s'. step cfg e s = Some s'"
  by (cases e) (simp_all add: step_def handleClick_total render_total runCallback_total)

lemma step_inv:
  assumes "globeInv cfg s" "step cfg e s = Some s'"
  shows "globeInv cfg s'"
proof (cases e)
  case (Click hit)
  then show ?thesis using assms handleClick_inv by (simp add: step_def)
next
  case (Frame hit)
  then show ?thesis using assms render_inv by (simp add: step_def)
next
  case (Wheel d)
  then show ?thesis using assms handleWheel_inv by (auto simp add: step_def)
next
  case (TimerFired h)
  then show ?thesis using assms revertClick_inv[OF clearTimeout_inv[OF assms(1)], of h]
    by (auto simp add: step_def split: if_splits)
next
  case (TweenDone i)
  show ?thesis
  proof (cases "i < length (tweens s)")
    case False
    then show ?thesis using assms TweenDone by (simp add: step_def)
  next
    case True
    have "globeInv cfg (arrive (tweens s ! i) (s\<lparr>tweens := take i (tweens s) @ drop (Suc i) (tweens s)\<rparr>))"
      using assms(1) by (intro arrive_inv tweens_update_inv)
    then show ?thesis using assms(2) TweenDone True runCallback_inv by (simp add: step_def)
  qed
next
  case TouchStart
  then show ?thesis using assms by (auto simp add: step_def globeInv_def zoomInRange_def timersKnown_def)
next
  case DragStart
  then show ?thesis using assms gsap_to_inv[OF isHoverable_update_inv[OF assms(1)]]
    by (auto simp add: step_def)
next
  case DragEnd
  then show ?thesis using assms gsap_to_inv by (auto simp add: step_def)
next
  case (RotateTo x y)
  then show ?thesis using assms rotateToRegion_inv by (auto simp add: step_def)
next
  case HiResReady
  then show ?thesis using assms prepareHiResTextures_inv by (auto simp add: step_def)
qed

lemma run_total: "\<exists>s'. run cfg es s = Some s'"
proof (induction es arbitrary: s)
  case Nil
  then show ?case by simp
next
  case (Cons e es)
  obtain s1 where "step cfg e s = Some s1" using step_total by blast
  then show ?case using Cons.IH[of s1] by simp
qed

lemma run_inv:
  assumes "globeInv cfg s" "run cfg es s = Some s'"
  shows "globeInv cfg s'"
  using assms
proof (induction es arbitrary: s)
  case Nil
  then show ?case by simp
next
  case (Cons e es)
  obtain s1 where s1: "step cfg e s = Some s1" using step_total by blast
  have "globeInv cfg s1" using Cons.prems(1) s1 by (rule step_inv)
  then show ?case using Cons.IH[of s1] Cons.prems(2) s1 by simp
qed

lemma initGlobe_inv: "globeInv cfg (initGlobe cfg name0 clicked0 obj0)"
  by (simp add: initGlobe_def globeInv_def zoomInRange_def timersKnown_def)


section \<open>Zoom, clicks and hover\<close>

lemma or_empty_id: "or_empty s = s"
  by (simp add: or_empty_def)

lemma handleClick_miss:
  assumes "hit = None \<or> (\<exists>p. hit = Some p \<and> (pickingCtx cfg = None \<or>
             (\<exists>c. pickingCtx cfg = Some c \<and>
                  \<not> (0 \<le> decodeIndex (getImageData c (fst (pixelOf p)) (snd (pixelOf p))) \<and>
                     decodeIndex (getImageData c (fst (pixelOf p)) (snd (pixelOf p)))
                       < int (length (svgPaths cfg))))))"
  shows "handleClick cfg hit s = Some (revertClick cfg s)"
proof (cases hit)
  case None
  then show ?thesis by (simp add: handleClick_def)
next
  case (Some p)
  have "updateMap cfg p True s = Some (s, False)"
  proof (cases "pickingCtx cfg")
    case None
    then show ?thesis by (rule updateMap_no_ctx)
  next
    case (Some c)
    then show ?thesis using assms \<open>hit = Some p\<close> by (intro updateMap_no_match[OF Some]) auto
  qed
  then show ?thesis using Some by (simp add: handleClick_def)
qed

lemma handleClick_hit:
  assumes "pickingCtx cfg = Some c"
      and "decodeIndex (getImageData c (fst (pixelOf p)) (snd (pixelOf p))) = idx"
      and "0 \<le> idx" "idx < int (length (svgPaths cfg))"
  shows "handleClick cfg (Some p) s = handleCountryClick cfg idx s"
proof -
  have u: "updateMap cfg p True s = map_option (\<lambda>s'. (s', True)) (handleCountryClick cfg idx s)"
    using assms by (rule updateMap_click)
  obtain s' where "handleCountryClick cfg idx s = Some s'"
    using handleCountryClick_total[OF assms(3,4)] by blast
  then show ?thesis using u by (simp add: handleClick_def)
qed

lemma timerFired_pending:
  assumes "h \<in> fst ` set (timers s)"
  shows "step cfg (TimerFired h) s = Some (revertClick cfg (clearTimeout h s))"
  using assms by (simp add: step_def)

lemma globeInv_rot: "globeInv cfg s \<Longrightarrow> isDeviceMotionActive cfg \<Longrightarrow> \<not> autoRotate s"
  by (simp add: globeInv_def)

lemma reachable_inv:
  assumes "run cfg es (initGlobe cfg name0 clicked0 obj0) = Some s"
  shows "globeInv cfg s"
  using initGlobe_inv assms by (rule run_inv)

text \<open>
  Claim C10. The zoom target starts at 1, and after every sequence of events of the
  effect (wheel, click with or without a hit, timer expiry, frames, tween completions,
  drags, region rotations) the handlers have all returned and the target lies in
  \<open>[0.8, 3]\<close>. A wheel event moves it by 0.3 and clamps it to that interval.
\<close>

theorem zoom_target_in_range:
  "targetZoom (initGlobe cfg name0 clicked0 obj0) = 1
   \<and> (\<exists>s. run cfg es (initGlobe cfg name0 clicked0 obj0) = Some s
          \<and> 8 / 10 \<le> targetZoom s \<and> targetZoom s \<le> 3)
   \<and> targetZoom (handleWheel deltaY s0)
        = max (8 / 10) (min 3 (targetZoom s0 + (if deltaY > 0 then - (3 / 10) else 3 / 10)))"
proof -
  obtain s where s: "run cfg es (initGlobe cfg name0 clicked0 obj0) = Some s"
    using run_total by blast
  have "globeInv cfg s" using s by (rule reachable_inv)
  then have "8 / 10 \<le> targetZoom s \<and> targetZoom s \<le> 3"
    by (simp add: globeInv_def zoomInRange_def)
  then show ?thesis using s handleWheel_zoom[of deltaY s0] by (simp add: initGlobe_def)
qed


theorem zoom_target_in_range_witness:
  "targetZoom (demoGlobe False) = 1
   \<and> (\<exists>s. run (demoConfig False) [Wheel (- 1), Click (Some uvA), Wheel 1, Click None] (demoGlobe False) = Some s
          \<and> 8 / 10 \<le> targetZoom s \<and> targetZoom s \<le> 3)
   \<and> targetZoom (handleWheel 1 (demoGlobe False)) = 8 / 10
   \<and> targetZoom (handleWheel (- 1) ((demoGlobe False)\<lparr>targetZoom := 29 / 10\<rparr>)) = 3"
  using zoom_target_in_range[of "demoConfig False" "[]" None 0
      "[Wheel (- 1), Click (Some uvA), Wheel 1, Click None]" 1 "demoGlobe False"]
    zoom_target_in_range[of "demoConfig False" "[]" None 0
      "[]" "- 1" "(demoGlobe False)\<lparr>targetZoom := 29 / 10\<rparr>"]
  by (simp add: demoGlobe_def initGlobe_def)

text \<open>The two-country world: what the picking canvas decodes to.\<close>

lemma px_uvA2: "pixelOf uvA2 = (7, 105)"
  by (simp add: pixelOf_def uvA2_def svgViewBox_def js_mul_def js_sub_def demo_doubles)

lemma top_A2: "topmost demoRaster twoPaths 0 (pixelOf uvA2)"
  by (simp add: topmost_def px_uvA2 covers_two len_two upt_rec)

lemma top_B: "topmost demoRaster twoPaths (Suc 0) (pixelOf uvB)"
  by (simp add: topmost_def px_uvB covers_two len_two upt_rec)

lemma demo_decode:
  "decodeIndex (getImageData (pickingCanvas demoRaster twoPaths) (fst (pixelOf uvA)) (snd (pixelOf uvA))) = 0"
  "decodeIndex (getImageData (pickingCanvas demoRaster twoPaths) (fst (pixelOf uvA2)) (snd (pixelOf uvA2))) = 0"
  "decodeIndex (getImageData (pickingCanvas demoRaster twoPaths) (fst (pixelOf uvB)) (snd (pixelOf uvB))) = 1"
  "decodeIndex (getImageData (pickingCanvas demoRaster twoPaths) (fst (pixelOf uvSea)) (snd (pixelOf uvSea))) = - 1"
  using topmost_decode[OF top_A] topmost_decode[OF top_A2]
    topmost_decode[OF top_B] uncovered_pixel[OF sea]
  by (simp_all add: len_two decode_transparent)

lemma demo_paths:
  "int (length (svgPaths (demoConfig m))) = 2"
  "svgPaths (demoConfig m) ! 0 = \<lparr>path_d = ''A'', path_name = ''Aland'', path_id = ''001''\<rparr>"
  "svgPaths (demoConfig m) ! Suc 0 = \<lparr>path_d = ''B'', path_name = ''Bland'', path_id = ''002''\<rparr>"
  "isDeviceMotionActive (demoConfig m) = m"
  by (simp_all add: demoConfig_def twoPaths_def)

text \<open>
  Claim C3. Clicking the country that is already clicked changes nothing:
  \<^verbatim>\<open>handleCountryClick\<close> returns the state it was given, so does the whole click handler
  when the ray hits a pixel of that country, and so does the component: \<^verbatim>\<open>clickedCountry\<close>
  keeps its value, the detail effect does not run again and no request is sent, no
  texture is redrawn, no tween and no timer is added or removed.
\<close>

theorem reclick_is_noop:
  "(clickedCountryIdx s = idx \<longrightarrow> handleCountryClick cfg idx s = Some s)
   \<and> (pickingCtx cfg = Some c
        \<and> decodeIndex (getImageData c (fst (pixelOf p)) (snd (pixelOf p))) = clickedCountryIdx s
        \<and> 0 \<le> clickedCountryIdx s \<and> clickedCountryIdx s < int (length (svgPaths cfg))
      \<longrightarrow> updateMap cfg p True s = Some (s, True)
        \<and> handleClick cfg (Some p) s = Some s
        \<and> appStep cfg apiKey (Globe (Click (Some p))) (s, d) = Some (s, d))"
proof (intro conjI impI)
  assume "clickedCountryIdx s = idx"
  then show "handleCountryClick cfg idx s = Some s" by (rule handleCountryClick_same)
next
  assume a: "pickingCtx cfg = Some c
        \<and> decodeIndex (getImageData c (fst (pixelOf p)) (snd (pixelOf p))) = clickedCountryIdx s
        \<and> 0 \<le> clickedCountryIdx s \<and> clickedCountryIdx s < int (length (svgPaths cfg))"
  have h: "handleCountryClick cfg (clickedCountryIdx s) s = Some s"
    by (simp add: handleCountryClick_same)
  have "updateMap cfg p True s
          = map_option (\<lambda>s'. (s', True)) (handleCountryClick cfg (clickedCountryIdx s) s)"
    using a by (intro updateMap_click[of cfg c]) simp_all
  then show u: "updateMap cfg p True s = Some (s, True)" using h by simp
  show k: "handleClick cfg (Some p) s = Some s" using u by (simp add: handleClick_def)
  show "appStep cfg apiKey (Globe (Click (Some p))) (s, d) = Some (s, d)"
    using k by (simp add: appStep_def step_def)
qed

lemma demo_clickA:
  "\<exists>s'. run (demoConfig m) [Click (Some uvA)] (demoGlobe m) = Some s'
        \<and> clickedCountryIdx s' = 0
        \<and> clickedCountry s' = Some (0, \<lparr>sel_name = ''Aland'', sel_id = ''001''\<rparr>)
        \<and> targetZoom s' = 3 / 2
        \<and> autoRotate s' = False
        \<and> clickTimeout s' = Some 1
        \<and> timers s' = [(1, 3000)]
        \<and> nextTimer s' = 2
        \<and> nextObj s' = 1"
proof -
  have ne: "clickedCountryIdx (demoGlobe m) \<noteq> 0" by (simp add: demoGlobe_def initGlobe_def)
  obtain s' where s': "handleCountryClick (demoConfig m) 0 (demoGlobe m) = Some s'"
    "clickedCountryIdx s' = 0"
    "clickedCountry s' = Some (nextObj (demoGlobe m),
            \<lparr>sel_name = or_empty (path_name (svgPaths (demoConfig m) ! nat 0)),
             sel_id = or_empty (path_id (svgPaths (demoConfig m) ! nat 0))\<rparr>)"
    "targetZoom s' = 3 / 2"
    "autoRotate s' = (if isDeviceMotionActive (demoConfig m) then autoRotate (demoGlobe m) else False)"
    "clickTimeout s' = Some (nextTimer (demoGlobe m))"
    "nextTimer s' = nextTimer (demoGlobe m) + 1"
    "timers s' = filter (\<lambda>t. clickTimeout (demoGlobe m) \<noteq> Some (fst t) \<or> fst t = 0) (timers (demoGlobe m))
          @ [(nextTimer (demoGlobe m), 3000)]"
    "nextObj s' = nextObj (demoGlobe m) + 1"
    using handleCountryClick_fresh[of 0 "demoConfig m" "demoGlobe m"] ne
    by (auto simp add: demo_paths)
  have "handleClick (demoConfig m) (Some uvA) (demoGlobe m) = handleCountryClick (demoConfig m) 0 (demoGlobe m)"
    by (rule handleClick_hit[of _ "pickingCanvas demoRaster twoPaths"]) (simp_all add: demo_fields demo_decode len_two)
  then have "run (demoConfig m) [Click (Some uvA)] (demoGlobe m) = Some s'"
    using s'(1) by (simp add: step_def)
  then show ?thesis using s'(2-9)
    by (simp add: demo_paths or_empty_id demoGlobe_def initGlobe_def)
qed

theorem reclick_is_noop_witness:
  "appStep (demoConfig False) None (Globe (Click (Some uvA2)))
      (demoAfter False [Click (Some uvA)], initDetail)
     = Some (demoAfter False [Click (Some uvA)], initDetail)
   \<and> handleCountryClick (demoConfig False) 0 (demoAfter False [Click (Some uvA)])
     = Some (demoAfter False [Click (Some uvA)])"
proof -
  obtain s' where s': "run (demoConfig False) [Click (Some uvA)] (demoGlobe False) = Some s'"
      "clickedCountryIdx s' = 0"
    using demo_clickA[of False] by blast
  have e: "demoAfter False [Click (Some uvA)] = s'" using s'(1) by (simp add: demoAfter_def)
  show ?thesis
    using reclick_is_noop[of s' 0 "demoConfig False" "pickingCanvas demoRaster twoPaths" uvA2 None initDetail]
    unfolding e by (simp add: s'(2) demo_fields demo_decode len_two)
qed


text \<open>
  Claim C6. A frame whose ray resolves to the country that is already hovered changes
  nothing in \<^verbatim>\<open>updateMap\<close>: the highlight canvas is not redrawn (its texture keeps its
  version), the country name is not set and no tween is started. And whatever
  \<^verbatim>\<open>updateMap\<close> does, it leaves the map and stroke textures alone; the hover path touches
  only the highlight texture and the click path only the click texture, each only when
  the hovered (clicked) index changes, drawing the country of the new index.
\<close>

theorem hover_redraw_only_on_change:
  "(pickingCtx cfg = Some c
      \<and> decodeIndex (getImageData c (fst (pixelOf p)) (snd (pixelOf p))) = hoveredCountryIdx s
      \<and> 0 \<le> hoveredCountryIdx s \<and> hoveredCountryIdx s < int (length (svgPaths cfg))
     \<longrightarrow> updateMap cfg p False s = Some (s, True)
       \<and> (\<exists>s'. render cfg (Some p) s = Some s'
              \<and> highlightTexture s' = highlightTexture s \<and> countryName s' = countryName s
              \<and> tweens s' = tweens s \<and> hoveredCountryIdx s' = hoveredCountryIdx s
              \<and> mapTexture s' = mapTexture s))
   \<and> (updateMap cfg p b s = Some (s', r)
     \<longrightarrow> mapTexture s' = mapTexture s \<and> strokesTexture s' = strokesTexture s
       \<and> (b \<longrightarrow> highlightTexture s' = highlightTexture s)
       \<and> (\<not> b \<longrightarrow> clickTexture s' = clickTexture s)
       \<and> (highlightTexture s' \<noteq> highlightTexture s
            \<longrightarrow> hoveredCountryIdx s' \<noteq> hoveredCountryIdx s
              \<and> content (highlightTexture s') =
                  CountryDrawing (hoveredCountryIdx s') hoverColor strokeColor (strokeWidth * 1)
                    lowResScalingFactor)
       \<and> (clickTexture s' \<noteq> clickTexture s
            \<longrightarrow> clickedCountryIdx s' \<noteq> clickedCountryIdx s
              \<and> content (clickTexture s') =
                  CountryDrawing (clickedCountryIdx s') hoverColor clickedColor (strokeWidth * 4)
                    lowResScalingFactor))"
proof (intro conjI impI)
  assume a: "pickingCtx cfg = Some c
      \<and> decodeIndex (getImageData c (fst (pixelOf p)) (snd (pixelOf p))) = hoveredCountryIdx s
      \<and> 0 \<le> hoveredCountryIdx s \<and> hoveredCountryIdx s < int (length (svgPaths cfg))"
  show u: "updateMap cfg p False s = Some (s, True)"
    using a by (intro updateMap_hover_same[of cfg c]) simp_all
  show "\<exists>s'. render cfg (Some p) s = Some s'
              \<and> highlightTexture s' = highlightTexture s \<and> countryName s' = countryName s
              \<and> tweens s' = tweens s \<and> hoveredCountryIdx s' = hoveredCountryIdx s
              \<and> mapTexture s' = mapTexture s"
    using u by (simp add: render_def Let_def)
next
  assume u: "updateMap cfg p b s = Some (s', r)"
  have all: "mapTexture s' = mapTexture s \<and> strokesTexture s' = strokesTexture s
       \<and> (b \<longrightarrow> highlightTexture s' = highlightTexture s)
       \<and> (\<not> b \<longrightarrow> clickTexture s' = clickTexture s)
       \<and> (highlightTexture s' \<noteq> highlightTexture s
            \<longrightarrow> hoveredCountryIdx s' \<noteq> hoveredCountryIdx s
              \<and> content (highlightTexture s') =
                  CountryDrawing (hoveredCountryIdx s') hoverColor strokeColor (strokeWidth * 1)
                    lowResScalingFactor)
       \<and> (clickTexture s' \<noteq> clickTexture s
            \<longrightarrow> clickedCountryIdx s' \<noteq> clickedCountryIdx s
              \<and> content (clickTexture s') =
                  CountryDrawing (clickedCountryIdx s') hoverColor clickedColor (strokeWidth * 4)
                    lowResScalingFactor)"
    using u
  proof (cases rule: updateMap_cases)
    case same
    then show ?thesis by simp
  next
    case (click idx)
    obtain t where t: "handleCountryClick cfg idx s = Some t" "clickedCountryIdx t = idx"
      "clickTexture t = (if clickCtx cfg
           then needsUpdate ((clickTexture s)\<lparr>content :=
                  CountryDrawing idx hoverColor clickedColor (strokeWidth * 4) lowResScalingFactor\<rparr>)
           else clickTexture s)"
      "mapTexture t = mapTexture s" "strokesTexture t = strokesTexture s"
      "highlightTexture t = highlightTexture s"
      using handleCountryClick_fresh[OF click(5,6,4)] by blast
    have e: "s' = t" using t(1) click(3) by simp
    show ?thesis unfolding e using t(2-6) click(1,4) by (simp add: needsUpdate_def)
  next
    case (hover idx)
    show ?thesis unfolding hover(6) using hover(1,5) by (simp add: needsUpdate_def)
  qed
  show "mapTexture s' = mapTexture s" using all by blast
  show "strokesTexture s' = strokesTexture s" using all by blast
  show "highlightTexture s' = highlightTexture s" if b using all that by blast
  show "clickTexture s' = clickTexture s" if "\<not> b" using all that by blast
  show "hoveredCountryIdx s' \<noteq> hoveredCountryIdx s" if "highlightTexture s' \<noteq> highlightTexture s"
    using all that by blast
  show "content (highlightTexture s') =
                  CountryDrawing (hoveredCountryIdx s') hoverColor strokeColor (strokeWidth * 1)
                    lowResScalingFactor" if "highlightTexture s' \<noteq> highlightTexture s"
    using all that by blast
  show "clickedCountryIdx s' \<noteq> clickedCountryIdx s" if "clickTexture s' \<noteq> clickTexture s"
    using all that by blast
  show "content (clickTexture s') =
                  CountryDrawing (clickedCountryIdx s') hoverColor clickedColor (strokeWidth * 4)
                    lowResScalingFactor" if "clickTexture s' \<noteq> clickTexture s"
    using all that by blast
qed

lemma demo_hoverA:
  "\<exists>s'. run (demoConfig m) [Frame (Some uvA)] (demoGlobe m) = Some s'
        \<and> updateMap (demoConfig m) uvA False (demoGlobe m) = Some (s', True)
        \<and> hoveredCountryIdx s' = 0 \<and> countryName s' = ''Aland''
        \<and> version (highlightTexture s') = 1
        \<and> content (highlightTexture s') = CountryDrawing 0 hoverColor strokeColor (strokeWidth * 1) lowResScalingFactor
        \<and> mapTexture s' = mapTexture (demoGlobe m)
        \<and> isHoverable s'"
proof -
  have ne: "0 \<noteq> hoveredCountryIdx (demoGlobe m)" by (simp add: demoGlobe_def initGlobe_def)
  have d: "decodeIndex (getImageData (pickingCanvas demoRaster twoPaths) (fst (pixelOf uvA)) (snd (pixelOf uvA))) = 0"
    by (rule demo_decode)
  have r: "(0::int) \<le> 0" "0 < int (length (svgPaths (demoConfig m)))" by (simp_all add: demo_paths)
  note u = updateMap_hover_new[OF demo_fields(1)[of m] d r ne]
  have hc: "highlightCtx (demoConfig m)" by (simp add: demoConfig_def)
  have "\<exists>S. updateMap (demoConfig m) uvA False (demoGlobe m) = Some (S, True)
        \<and> hoveredCountryIdx S = 0 \<and> countryName S = ''Aland''
        \<and> version (highlightTexture S) = version (highlightTexture (demoGlobe m)) + 1
        \<and> content (highlightTexture S) = CountryDrawing 0 hoverColor strokeColor (strokeWidth * 1) lowResScalingFactor
        \<and> mapTexture S = mapTexture (demoGlobe m)
        \<and> isHoverable S = isHoverable (demoGlobe m) \<and> isTouchScreen S = isTouchScreen (demoGlobe m)"
    unfolding u by (simp add: demo_paths or_empty_id needsUpdate_def hc)
  then obtain S where S: "updateMap (demoConfig m) uvA False (demoGlobe m) = Some (S, True)"
        "hoveredCountryIdx S = 0" "countryName S = ''Aland''"
        "version (highlightTexture S) = version (highlightTexture (demoGlobe m)) + 1"
        "content (highlightTexture S) = CountryDrawing 0 hoverColor strokeColor (strokeWidth * 1) lowResScalingFactor"
        "mapTexture S = mapTexture (demoGlobe m)"
        "isHoverable S = isHoverable (demoGlobe m)" "isTouchScreen S = isTouchScreen (demoGlobe m)"
    by blast
  have f: "isHoverable (demoGlobe m)" "\<not> isTouchScreen (demoGlobe m)"
    "version (highlightTexture (demoGlobe m)) = 0"
    by (simp_all add: demoGlobe_def initGlobe_def)
  have "render (demoConfig m) (Some uvA) (demoGlobe m) = Some S"
    using f S(1,7,8) by (simp add: render_def Let_def)
  then have "run (demoConfig m) [Frame (Some uvA)] (demoGlobe m) = Some S"
    by (simp add: step_def)
  then show ?thesis using S f by simp
qed

theorem hover_redraw_only_on_change_witness:
  "updateMap (demoConfig False) uvA2 False (demoAfter False [Frame (Some uvA)])
     = Some (demoAfter False [Frame (Some uvA)], True)
   \<and> version (highlightTexture (demoAfter False [Frame (Some uvA), Frame (Some uvA2)])) = 1
   \<and> mapTexture (demoAfter False [Frame (Some uvA)]) = mapTexture (demoGlobe False)
   \<and> clickTexture (demoAfter False [Frame (Some uvA)]) = clickTexture (demoGlobe False)
   \<and> content (highlightTexture (demoAfter False [Frame (Some uvA)]))
       = CountryDrawing 0 hoverColor strokeColor (strokeWidth * 1) lowResScalingFactor"
proof -
  obtain s' where s': "run (demoConfig False) [Frame (Some uvA)] (demoGlobe False) = Some s'"
      "updateMap (demoConfig False) uvA False (demoGlobe False) = Some (s', True)"
      "hoveredCountryIdx s' = 0" "version (highlightTexture s') = 1"
    using demo_hoverA[of False] by blast
  have e: "demoAfter False [Frame (Some uvA)] = s'" using s'(1) by (simp add: demoAfter_def)
  have ne: "highlightTexture s' \<noteq> highlightTexture (demoGlobe False)"
    using s'(4) by (auto simp add: demoGlobe_def initGlobe_def)
  note first = hover_redraw_only_on_change[of "demoConfig False" "pickingCanvas demoRaster twoPaths"
      uvA2 s' False s' True, THEN conjunct1]
  note second = hover_redraw_only_on_change[of "demoConfig False" "pickingCanvas demoRaster twoPaths"
      uvA "demoGlobe False" False s' True, THEN conjunct2]
  have h: "pickingCtx (demoConfig False) = Some (pickingCanvas demoRaster twoPaths)
      \<and> decodeIndex (getImageData (pickingCanvas demoRaster twoPaths) (fst (pixelOf uvA2)) (snd (pixelOf uvA2)))
          = hoveredCountryIdx s'
      \<and> 0 \<le> hoveredCountryIdx s' \<and> hoveredCountryIdx s' < int (length (svgPaths (demoConfig False)))"
    by (simp add: demo_fields demo_decode s'(3) len_two)
  obtain t where t: "render (demoConfig False) (Some uvA2) s' = Some t"
      "highlightTexture t = highlightTexture s'"
    using first h by blast
  have st1: "step (demoConfig False) (Frame (Some uvA)) (demoGlobe False) = Some s'"
    using s'(1) by (simp split: option.splits)
  have st2: "step (demoConfig False) (Frame (Some uvA2)) s' = Some t"
    using t(1) by (simp add: step_def)
  have two: "demoAfter False [Frame (Some uvA), Frame (Some uvA2)] = t"
    by (simp add: demoAfter_def st1 st2)
  show ?thesis unfolding e two using first h second s'(2,3,4) ne t(2) by simp
qed


lemma hitOn_click:
  assumes "hitOn cfg hit idx"
  shows "handleClick cfg hit s = handleCountryClick cfg idx s"
proof -
  obtain p c where h: "hit = Some p" "pickingCtx cfg = Some c"
      "decodeIndex (getImageData c (fst (pixelOf p)) (snd (pixelOf p))) = idx"
      "0 \<le> idx" "idx < int (length (svgPaths cfg))"
    using assms by (auto simp add: hitOn_def split: option.splits)
  show ?thesis unfolding h(1) using h(2-5) by (rule handleClick_hit)
qed

lemma noHit_click:
  assumes "noHit cfg hit"
  shows "handleClick cfg hit s = Some (revertClick cfg s)"
proof (rule handleClick_miss)
  show "hit = None \<or> (\<exists>p. hit = Some p \<and> (pickingCtx cfg = None \<or>
             (\<exists>c. pickingCtx cfg = Some c \<and>
                  \<not> (0 \<le> decodeIndex (getImageData c (fst (pixelOf p)) (snd (pixelOf p))) \<and>
                     decodeIndex (getImageData c (fst (pixelOf p)) (snd (pixelOf p)))
                       < int (length (svgPaths cfg))))))"
    using assms by (auto simp add: noHit_def split: option.splits)
qed

lemma revertClick_summary:
  assumes "globeInv cfg s" "clickedCountryIdx s \<noteq> - 1"
  shows "clickedCountryIdx (revertClick cfg s) = - 1 \<and> clickedCountry (revertClick cfg s) = None
     \<and> targetZoom (revertClick cfg s) = 1
     \<and> autoRotate (revertClick cfg s) = (\<not> isDeviceMotionActive cfg)"
  using revertClick_clicked(1,2,4,5)[OF assms(2), of cfg] globeInv_rot[OF assms(1)]
  by auto

text \<open>
  Claim C5, as the code has it. In every reachable state of the effect: a click whose hit
  test succeeds on an index that is not the clicked one enters the clicked state
  (\<^verbatim>\<open>clickedCountry\<close> is the name and id of that country, the zoom target is 1.5,
  auto-rotate is off, and a timeout of 3000 ms is pending whose expiry calls
  \<^verbatim>\<open>revertClick\<close>); while a country is clicked, a click with no hit and the expiry of a
  pending timeout revert it (\<^verbatim>\<open>clickedCountry\<close> is null, the zoom target is 1, and
  auto-rotate is on again exactly when device motion is not active); while no country is
  clicked, a click with no hit changes nothing.
\<close>

theorem click_enters_and_reverts:
  assumes "run cfg es (initGlobe cfg name0 clicked0 obj0) = Some s"
  shows "(hitOn cfg hit idx \<and> clickedCountryIdx s \<noteq> idx
       \<longrightarrow> (\<exists>s'. handleClick cfg hit s = Some s' \<and> clickedCountryIdx s' = idx
              \<and> clickedCountry s' = Some (nextObj s,
                    \<lparr>sel_name = path_name (svgPaths cfg ! nat idx),
                     sel_id = path_id (svgPaths cfg ! nat idx)\<rparr>)
              \<and> targetZoom s' = 3 / 2 \<and> \<not> autoRotate s'
              \<and> clickTimeout s' = Some (nextTimer s) \<and> (nextTimer s, 3000) \<in> set (timers s')
              \<and> step cfg (TimerFired (nextTimer s)) s'
                   = Some (revertClick cfg (clearTimeout (nextTimer s) s'))))
   \<and> (noHit cfg hit \<and> clickedCountryIdx s \<noteq> - 1
       \<longrightarrow> (\<exists>s'. handleClick cfg hit s = Some s' \<and> clickedCountryIdx s' = - 1
              \<and> clickedCountry s' = None \<and> targetZoom s' = 1
              \<and> autoRotate s' = (\<not> isDeviceMotionActive cfg)))
   \<and> (h \<in> fst ` set (timers s) \<and> clickedCountryIdx s \<noteq> - 1
       \<longrightarrow> (\<exists>s'. step cfg (TimerFired h) s = Some s' \<and> clickedCountryIdx s' = - 1
              \<and> clickedCountry s' = None \<and> targetZoom s' = 1
              \<and> autoRotate s' = (\<not> isDeviceMotionActive cfg)))
   \<and> (noHit cfg hit \<and> clickedCountryIdx s = - 1 \<longrightarrow> handleClick cfg hit s = Some s)"
proof (intro conjI impI)
  have inv: "globeInv cfg s" using assms by (rule reachable_inv)
  {
    assume a: "hitOn cfg hit idx \<and> clickedCountryIdx s \<noteq> idx"
    then have r: "0 \<le> idx" "idx < int (length (svgPaths cfg))" and ne: "clickedCountryIdx s \<noteq> idx"
      by (auto simp add: hitOn_def split: option.splits)
    obtain t where t: "handleCountryClick cfg idx s = Some t" "clickedCountryIdx t = idx"
        "clickedCountry t = Some (nextObj s,
            \<lparr>sel_name = or_empty (path_name (svgPaths cfg ! nat idx)),
             sel_id = or_empty (path_id (svgPaths cfg ! nat idx))\<rparr>)"
        "targetZoom t = 3 / 2"
        "autoRotate t = (if isDeviceMotionActive cfg then autoRotate s else False)"
        "clickTimeout t = Some (nextTimer s)"
        "timers t = filter (\<lambda>t. clickTimeout s \<noteq> Some (fst t) \<or> fst t = 0) (timers s)
          @ [(nextTimer s, 3000)]"
      using handleCountryClick_fresh[OF r ne] by blast
    have k: "handleClick cfg hit s = Some t" using hitOn_click[of cfg hit idx s] a t(1) by simp
    have rot: "\<not> autoRotate t" using t(5) globeInv_rot[OF inv] by auto
    have pend: "(nextTimer s, 3000) \<in> set (timers t)" unfolding t(7) by simp
    then have "nextTimer s \<in> fst ` set (timers t)" by force
    then have fire: "step cfg (TimerFired (nextTimer s)) t
                   = Some (revertClick cfg (clearTimeout (nextTimer s) t))"
      by (rule timerFired_pending)
    show "\<exists>s'. handleClick cfg hit s = Some s' \<and> clickedCountryIdx s' = idx
              \<and> clickedCountry s' = Some (nextObj s,
                    \<lparr>sel_name = path_name (svgPaths cfg ! nat idx),
                     sel_id = path_id (svgPaths cfg ! nat idx)\<rparr>)
              \<and> targetZoom s' = 3 / 2 \<and> \<not> autoRotate s'
              \<and> clickTimeout s' = Some (nextTimer s) \<and> (nextTimer s, 3000) \<in> set (timers s')
              \<and> step cfg (TimerFired (nextTimer s)) s'
                   = Some (revertClick cfg (clearTimeout (nextTimer s) s'))"
      using k t(2,3,4,6) rot pend fire by (intro exI[of _ t]) (simp add: or_empty_id)
  }
  {
    assume a: "noHit cfg hit \<and> clickedCountryIdx s \<noteq> - 1"
    then have k: "handleClick cfg hit s = Some (revertClick cfg s)" by (simp add: noHit_click)
    show "\<exists>s'. handleClick cfg hit s = Some s' \<and> clickedCountryIdx s' = - 1
              \<and> clickedCountry s' = None \<and> targetZoom s' = 1
              \<and> autoRotate s' = (\<not> isDeviceMotionActive cfg)"
      using k revertClick_summary[OF inv, of ] a by (intro exI[of _ "revertClick cfg s"]) simp
  }
  {
    assume a: "h \<in> fst ` set (timers s) \<and> clickedCountryIdx s \<noteq> - 1"
    then have k: "step cfg (TimerFired h) s = Some (revertClick cfg (clearTimeout h s))"
      by (simp add: timerFired_pending)
    have i: "globeInv cfg (clearTimeout h s)" using inv by (rule clearTimeout_inv)
    have c: "clickedCountryIdx (clearTimeout h s) \<noteq> - 1" using a by simp
    show "\<exists>s'. step cfg (TimerFired h) s = Some s' \<and> clickedCountryIdx s' = - 1
              \<and> clickedCountry s' = None \<and> targetZoom s' = 1
              \<and> autoRotate s' = (\<not> isDeviceMotionActive cfg)"
      using k revertClick_summary[OF i c] by (intro exI[of _ "revertClick cfg (clearTimeout h s)"]) simp
  }
  {
    assume a: "noHit cfg hit \<and> clickedCountryIdx s = - 1"
    then show "handleClick cfg hit s = Some s" by (simp add: noHit_click revertClick_idle)
  }
qed


lemma demo_hits:
  "hitOn (demoConfig m) (Some uvA) 0" "hitOn (demoConfig m) (Some uvB) 1"
  "noHit (demoConfig m) (Some uvSea)" "noHit (demoConfig m) None"
  by (simp_all add: hitOn_def noHit_def demo_fields demo_decode len_two)

lemma demo_idle:
  "clickedCountryIdx (demoGlobe m) = - 1" "nextObj (demoGlobe m) = 0" "nextTimer (demoGlobe m) = 1"
  "targetZoom (demoGlobe m) = 1" "autoRotate (demoGlobe m) = (\<not> m)" "timers (demoGlobe m) = []"
  by (simp_all add: demoGlobe_def initGlobe_def demoConfig_def)

lemma run_two:
  "step cfg e1 s = Some s1 \<Longrightarrow> step cfg e2 s1 = Some s2 \<Longrightarrow> run cfg [e1, e2] s = Some s2"
  by simp

lemma run_one: "run cfg [e] s = Some s1 \<Longrightarrow> step cfg e s = Some s1"
  by (simp split: option.splits)

theorem click_enters_and_reverts_witness:
  "(\<exists>s'. handleClick (demoConfig False) (Some uvA) (demoGlobe False) = Some s'
         \<and> clickedCountry s' = Some (0, \<lparr>sel_name = ''Aland'', sel_id = ''001''\<rparr>)
         \<and> targetZoom s' = 3 / 2 \<and> \<not> autoRotate s' \<and> (1, 3000) \<in> set (timers s'))
   \<and> (\<exists>s'. handleClick (demoConfig False) (Some uvSea) (demoAfter False [Click (Some uvA)]) = Some s'
         \<and> clickedCountry s' = None \<and> targetZoom s' = 1 \<and> autoRotate s')
   \<and> (\<exists>s'. step (demoConfig False) (TimerFired 1) (demoAfter False [Click (Some uvA)]) = Some s'
         \<and> clickedCountry s' = None \<and> targetZoom s' = 1 \<and> autoRotate s')
   \<and> handleClick (demoConfig False) (Some uvSea) (demoGlobe False) = Some (demoGlobe False)"
proof -
  have r0: "run (demoConfig False) [] (initGlobe (demoConfig False) [] None 0) = Some (demoGlobe False)"
    by (simp add: demoGlobe_def)
  obtain s1 where s1: "run (demoConfig False) [Click (Some uvA)] (demoGlobe False) = Some s1"
      "clickedCountryIdx s1 = 0" "timers s1 = [(1, 3000)]"
    using demo_clickA[of False] by blast
  have e: "demoAfter False [Click (Some uvA)] = s1" using s1(1) by (simp add: demoAfter_def)
  have r1: "run (demoConfig False) [Click (Some uvA)] (initGlobe (demoConfig False) [] None 0) = Some s1"
    using s1(1) by (simp add: demoGlobe_def)
  note enter = click_enters_and_reverts[OF r0, where hit="Some uvA" and idx=0, THEN conjunct1]
  note idle = click_enters_and_reverts[OF r0, where hit="Some uvSea", THEN conjunct2, THEN conjunct2, THEN conjunct2]
  note miss = click_enters_and_reverts[OF r1, where hit="Some uvSea", THEN conjunct2, THEN conjunct1]
  note fire = click_enters_and_reverts[OF r1, where h=1, THEN conjunct2, THEN conjunct2, THEN conjunct1]
  have a: "\<exists>s'. handleClick (demoConfig False) (Some uvA) (demoGlobe False) = Some s'
         \<and> clickedCountry s' = Some (0, \<lparr>sel_name = ''Aland'', sel_id = ''001''\<rparr>)
         \<and> targetZoom s' = 3 / 2 \<and> \<not> autoRotate s' \<and> (1, 3000) \<in> set (timers s')"
    using enter by (auto simp add: demo_hits demo_idle demo_paths)
  have b: "\<exists>s'. handleClick (demoConfig False) (Some uvSea) s1 = Some s'
         \<and> clickedCountry s' = None \<and> targetZoom s' = 1 \<and> autoRotate s'"
    using miss by (auto simp add: demo_hits s1(2) demo_paths)
  have c: "\<exists>s'. step (demoConfig False) (TimerFired 1) s1 = Some s'
         \<and> clickedCountry s' = None \<and> targetZoom s' = 1 \<and> autoRotate s'"
    using fire by (auto simp add: s1(2,3) demo_paths)
  have d: "handleClick (demoConfig False) (Some uvSea) (demoGlobe False) = Some (demoGlobe False)"
    using idle by (simp add: demo_hits demo_idle)
  show ?thesis unfolding e using a b c d by blast
qed

text \<open>
  The claim as it is written fails: with device motion active a revert, by a click with
  no hit or by the timer, leaves auto-rotate off; and a click with no hit while nothing is
  clicked does not set the zoom target to 1.
\<close>

theorem click_enters_and_reverts_counterexample:
  "map_option clickedCountry (run (demoConfig True) [Click (Some uvA), Click None] (demoGlobe True)) = Some None
   \<and> map_option autoRotate (run (demoConfig True) [Click (Some uvA), Click None] (demoGlobe True)) = Some False
   \<and> map_option autoRotate (run (demoConfig True) [Click (Some uvA), TimerFired 1] (demoGlobe True)) = Some False
   \<and> map_option targetZoom (run (demoConfig False) [Wheel (- 1), Click None] (demoGlobe False)) = Some (13 / 10)"
proof -
  obtain s1 where s1: "run (demoConfig True) [Click (Some uvA)] (demoGlobe True) = Some s1"
      "clickedCountryIdx s1 = 0" "autoRotate s1 = False" "timers s1 = [(1, 3000)]"
    using demo_clickA[of True] by blast
  have st1: "step (demoConfig True) (Click (Some uvA)) (demoGlobe True) = Some s1"
    using s1(1) by (rule run_one)
  have ne: "clickedCountryIdx s1 \<noteq> - 1" using s1(2) by simp
  have st2: "step (demoConfig True) (Click None) s1 = Some (revertClick (demoConfig True) s1)"
    by (simp add: step_def handleClick_def)
  have ne': "clickedCountryIdx (clearTimeout 1 s1) \<noteq> - 1" using s1(2) by simp
  have st3: "step (demoConfig True) (TimerFired 1) s1
       = Some (revertClick (demoConfig True) (clearTimeout 1 s1))"
    by (rule timerFired_pending) (simp add: s1(4))
  have w1: "step (demoConfig False) (Wheel (- 1)) (demoGlobe False) = Some (handleWheel (- 1) (demoGlobe False))"
    by (simp add: step_def)
  have idle: "clickedCountryIdx (handleWheel (- 1) (demoGlobe False)) = - 1"
    by (simp add: handleWheel_def Let_def demo_idle)
  have w2: "step (demoConfig False) (Click None) (handleWheel (- 1) (demoGlobe False))
       = Some (handleWheel (- 1) (demoGlobe False))"
    by (simp add: step_def handleClick_def revertClick_idle[OF idle])
  have z: "targetZoom (handleWheel (- 1) (demoGlobe False)) = 13 / 10"
    by (simp add: handleWheel_zoom demo_idle)
  show ?thesis
    unfolding run_two[OF st1 st2] run_two[OF st1 st3] run_two[OF w1 w2]
    using revertClick_clicked(2,5)[OF ne, of "demoConfig True"]
      revertClick_clicked(5)[OF ne', of "demoConfig True"] z s1(3)
    by (simp add: demo_paths)
qed


section \<open>Picking at the rim of a polygon\<close>

lemma fill2: "fillStyle_rgb 1 = RGBA 0 0 1 255" "fillStyle_rgb 2 = RGBA 0 0 2 255"
  by (simp_all add: fillStyle_rgb_def js_and_def js_shr_def toInt32_def)

lemma coast_pixel: "getImageData (pickingCanvas demoRaster twoPaths) 29 110 = RGBA 0 0 1 241"
  by (simp add: getImageData_def svgViewBox_def pickingCanvas_def twoPaths_def fill_def
      demoRaster_def demo_coverage fill2 srcOver_def transparent_def Let_def)

lemma coast_decode: "decodeIndex (RGBA 0 0 1 241) = 0"
  by (simp add: decodeIndex_def js_or_def js_shl_def toInt32_def)

lemma coast_inside:
  "insideBox ''B'' (mapPoint uvCoast)" "\<not> insideBox ''A'' (mapPoint uvCoast)"
  "\<not> insideBox ''A'' (mapPoint uvOffCoast)" "\<not> insideBox ''B'' (mapPoint uvOffCoast)"
  by (simp_all add: insideBox_def boxOf_def mapPoint_def uvCoast_def uvOffCoast_def svgViewBox_def
      pickingTranslate_def offsetY_def)

text \<open>
  Claim C1 fails on the code at the rim of a polygon. \<^verbatim>\<open>fill\<close> anti-aliases: a pixel that
  the coast of Bland runs through is covered in part, holds a blend of Bland's colour
  \<^verbatim>\<open>rgb(0, 0, 2)\<close> with what was there, and reads back as \<open>[0, 0, 1, 241]\<close>. \<^verbatim>\<open>updateMap\<close>
  never reads the alpha byte: it decodes the three colour bytes to the index 0, which is in
  range, and takes the pointer to be on Aland. So it does for a texture coordinate inside
  the polygon of Bland, on hover and on click, where the claim has the index of Bland; and
  for a texture coordinate just off the coast, inside no polygon, where the claim has no
  match. The range test of the lookup catches only the blends that decode to no country:
  a blend and a solid colour with the same three colour bytes decode alike.
\<close>

theorem coast_pixel_picks_neighbour:
  "insideBox ''B'' (mapPoint uvCoast)
   \<and> \<not> insideBox ''A'' (mapPoint uvCoast)
   \<and> pixelOf uvCoast = (29, 110)
   \<and> coverage demoRaster pickingTranslate ''B'' (29, 110) = 241
   \<and> getImageData (pickingCanvas demoRaster twoPaths) 29 110 = RGBA 0 0 1 241
   \<and> decodeIndex (RGBA 0 0 1 241) = 0
   \<and> map_option (hoveredCountryIdx \<circ> fst) (updateMap (demoConfig False) uvCoast False (demoGlobe False))
        = Some 0
   \<and> map_option (countryName \<circ> fst) (updateMap (demoConfig False) uvCoast False (demoGlobe False))
        = Some ''Aland''
   \<and> map_option (clickedCountryIdx \<circ> fst) (updateMap (demoConfig False) uvCoast True (demoGlobe False))
        = Some 0
   \<and> map_option (clickedCountry \<circ> fst) (updateMap (demoConfig False) uvCoast True (demoGlobe False))
        = Some (Some (0, \<lparr>sel_name = ''Aland'', sel_id = ''001''\<rparr>))
   \<and> \<not> insideBox ''A'' (mapPoint uvOffCoast)
   \<and> \<not> insideBox ''B'' (mapPoint uvOffCoast)
   \<and> pixelOf uvOffCoast = (29, 110)
   \<and> map_option snd (updateMap (demoConfig False) uvOffCoast False (demoGlobe False)) = Some True
   \<and> map_option (countryName \<circ> fst) (updateMap (demoConfig False) uvOffCoast False (demoGlobe False))
        = Some ''Aland''
   \<and> decodeIndex (RGBA r g b a) = decodeIndex (RGBA r g b 255)"
proof -
  let ?c = "pickingCanvas demoRaster twoPaths"
  have d1: "decodeIndex (getImageData ?c (fst (pixelOf uvCoast)) (snd (pixelOf uvCoast))) = 0"
    by (simp add: px_uvCoast coast_pixel coast_decode)
  have d2: "decodeIndex (getImageData ?c (fst (pixelOf uvOffCoast)) (snd (pixelOf uvOffCoast))) = 0"
    by (simp add: px_uvOffCoast coast_pixel coast_decode)
  have h0: "(0::int) \<noteq> hoveredCountryIdx (demoGlobe False)" "clickedCountryIdx (demoGlobe False) \<noteq> 0"
    "nextObj (demoGlobe False) = 0"
    by (simp_all add: demoGlobe_def initGlobe_def)
  note H1 = updateMap_hover_new[of "demoConfig False" ?c uvCoast 0 "demoGlobe False", OF demo_fields(1) d1]
  note H2 = updateMap_hover_new[of "demoConfig False" ?c uvOffCoast 0 "demoGlobe False", OF demo_fields(1) d2]
  have a1: "map_option (hoveredCountryIdx \<circ> fst) (updateMap (demoConfig False) uvCoast False (demoGlobe False)) = Some 0"
    "map_option (countryName \<circ> fst) (updateMap (demoConfig False) uvCoast False (demoGlobe False)) = Some ''Aland''"
    using H1 h0 by (simp_all add: demo_paths or_empty_id)
  have a2: "map_option snd (updateMap (demoConfig False) uvOffCoast False (demoGlobe False)) = Some True"
    "map_option (countryName \<circ> fst) (updateMap (demoConfig False) uvOffCoast False (demoGlobe False)) = Some ''Aland''"
    using H2 h0 by (simp_all add: demo_paths or_empty_id)
  obtain s' where s': "handleCountryClick (demoConfig False) 0 (demoGlobe False) = Some s'"
    "clickedCountryIdx s' = 0"
    "clickedCountry s' = Some (nextObj (demoGlobe False),
            \<lparr>sel_name = or_empty (path_name (svgPaths (demoConfig False) ! nat 0)),
             sel_id = or_empty (path_id (svgPaths (demoConfig False) ! nat 0))\<rparr>)"
    using handleCountryClick_fresh[of 0 "demoConfig False" "demoGlobe False"] h0
    by (auto simp add: demo_paths)
  have "updateMap (demoConfig False) uvCoast True (demoGlobe False)
      = map_option (\<lambda>s'. (s', True)) (handleCountryClick (demoConfig False) 0 (demoGlobe False))"
    using demo_fields(1) d1 by (rule updateMap_click) (simp_all add: demo_paths)
  then have a3: "map_option (clickedCountryIdx \<circ> fst) (updateMap (demoConfig False) uvCoast True (demoGlobe False)) = Some 0"
    "map_option (clickedCountry \<circ> fst) (updateMap (demoConfig False) uvCoast True (demoGlobe False))
        = Some (Some (0, \<lparr>sel_name = ''Aland'', sel_id = ''001''\<rparr>))"
    using s' h0 by (simp_all add: demo_paths or_empty_id)
  have cov: "coverage demoRaster pickingTranslate ''B'' (29, 110) = 241"
    by (simp add: demoRaster_def demo_coverage)
  have alpha: "decodeIndex (RGBA r g b a) = decodeIndex (RGBA r g b 255)"
    by (simp add: decodeIndex_def)
  show ?thesis
    using coast_inside px_uvCoast px_uvOffCoast cov coast_pixel coast_decode a1 a2 a3 alpha
    by simp
qed

section \<open>The detail effect and stale results\<close>

lemma fetchWeather_settle_stale: "\<not> isMounted st k \<Longrightarrow> fetchWeather_settle k out st = st"
  by (cases out) (simp_all add: fetchWeather_settle_def)

lemma fetchSummary_settle_stale: "\<not> isMounted st k \<Longrightarrow> fetchSummary_settle k r st = st"
  by (cases r) (simp_all add: fetchSummary_settle_def)

lemma weatherSettled_stale: "\<not> isMounted st k \<Longrightarrow> weatherSettled k net st = st"
  by (simp add: weatherSettled_def fetchWeather_settle_stale split: option.splits)

lemma summarySettled_stale: "\<not> isMounted st k \<Longrightarrow> summarySettled k r st = st"
  by (simp add: summarySettled_def fetchSummary_settle_stale split: option.splits)

lemma fetchWeather_settle_keeps:
  "isMounted (fetchWeather_settle k out st) = isMounted st"
  "nextRun (fetchWeather_settle k out st) = nextRun st"
  "cleanup (fetchWeather_settle k out st) = cleanup st"
  "closure (fetchWeather_settle k out st) = closure st"
  "issued (fetchWeather_settle k out st) = issued st"
  "aiSummary (fetchWeather_settle k out st) = aiSummary st"
  "isLoadingSummary (fetchWeather_settle k out st) = isLoadingSummary st"
  "groundingSources (fetchWeather_settle k out st) = groundingSources st"
  by (simp_all add: fetchWeather_settle_def Let_def split: chain_outcome.splits option.splits)

lemma fetchSummary_settle_keeps:
  "isMounted (fetchSummary_settle k r st) = isMounted st"
  "nextRun (fetchSummary_settle k r st) = nextRun st"
  "cleanup (fetchSummary_settle k r st) = cleanup st"
  "closure (fetchSummary_settle k r st) = closure st"
  "issued (fetchSummary_settle k r st) = issued st"
  "weatherData (fetchSummary_settle k r st) = weatherData st"
  "countryDetails (fetchSummary_settle k r st) = countryDetails st"
  "isLoadingWeather (fetchSummary_settle k r st) = isLoadingWeather st"
  by (simp_all add: fetchSummary_settle_def Let_def split: ai_reply.splits option.splits)

lemma weatherSettled_keeps:
  "isMounted (weatherSettled k net st) = isMounted st"
  "nextRun (weatherSettled k net st) = nextRun st"
  "cleanup (weatherSettled k net st) = cleanup st"
  by (simp_all add: weatherSettled_def fetchWeather_settle_keeps split: option.splits)

lemma summarySettled_keeps:
  "isMounted (summarySettled k r st) = isMounted st"
  "nextRun (summarySettled k r st) = nextRun st"
  "cleanup (summarySettled k r st) = cleanup st"
  by (simp_all add: summarySettled_def fetchSummary_settle_keeps split: option.splits)

lemma runCleanup_fields:
  "isMounted (runCleanup st) = (case cleanup st of None \<Rightarrow> isMounted st | Some k \<Rightarrow> (isMounted st)(k := False))"
  "cleanup (runCleanup st) = None"
  "nextRun (runCleanup st) = nextRun st"
  "closure (runCleanup st) = closure st"
  "issued (runCleanup st) = issued st"
  "weatherData (runCleanup st) = weatherData st"
  "countryDetails (runCleanup st) = countryDetails st"
  "aiSummary (runCleanup st) = aiSummary st"
  "groundingSources (runCleanup st) = groundingSources st"
  "isLoadingWeather (runCleanup st) = isLoadingWeather st"
  "isLoadingSummary (runCleanup st) = isLoadingSummary st"
  by (simp_all add: runCleanup_def split: option.splits)

lemma detailEffect_none:
  "isMounted (detailEffect apiKey None st) = isMounted (runCleanup st)"
  "cleanup (detailEffect apiKey None st) = None"
  "nextRun (detailEffect apiKey None st) = nextRun st"
  "weatherData (detailEffect apiKey None st) = None"
  "countryDetails (detailEffect apiKey None st) = None"
  "aiSummary (detailEffect apiKey None st) = None"
  "groundingSources (detailEffect apiKey None st) = []"
  "issued (detailEffect apiKey None st) = issued st"
  by (simp_all add: detailEffect_def Let_def runCleanup_fields)

lemma detailEffect_some:
  "isMounted (detailEffect apiKey (Some sel) st) = (isMounted (runCleanup st))(nextRun st := True)"
  "cleanup (detailEffect apiKey (Some sel) st) = Some (nextRun st)"
  "nextRun (detailEffect apiKey (Some sel) st) = nextRun st + 1"
  "closure (detailEffect apiKey (Some sel) st) = (closure st)(nextRun st := Some sel)"
  "weatherData (detailEffect apiKey (Some sel) st) = None"
  "countryDetails (detailEffect apiKey (Some sel) st) = None"
  "groundingSources (detailEffect apiKey (Some sel) st) = []"
  "isLoadingWeather (detailEffect apiKey (Some sel) st)"
  "aiSummary (detailEffect apiKey (Some sel) st)
     = (if noKey apiKey then Some ''Gemini API key not configured.'' else None)"
  "isLoadingSummary (detailEffect apiKey (Some sel) st) = (\<not> noKey apiKey)"
  "issued (detailEffect apiKey (Some sel) st)
     = issued st @ [(nextRun st, CountryByNameFull (sel_name sel))]
       @ (if noKey apiKey then [] else [(nextRun st, GenerateContent (sel_name sel))])"
  by (simp_all add: detailEffect_def Let_def runCleanup_fields fetchWeather_start_def
      fetchSummary_start_def)

lemma detailEffect_unmounts:
  assumes "cleanup st = Some k" "detailInv st"
  shows "staleRun k (detailEffect apiKey clicked st)"
proof -
  have lt: "k < nextRun st" using assms by (simp add: detailInv_def)
  show ?thesis
  proof (cases clicked)
    case None
    then show ?thesis using lt assms(1)
      by (simp add: staleRun_def detailEffect_none runCleanup_fields)
  next
    case (Some sel)
    then show ?thesis using lt assms(1)
      by (simp add: staleRun_def detailEffect_some runCleanup_fields)
  qed
qed

lemma detailEffect_stale:
  assumes "staleRun k st"
  shows "staleRun k (detailEffect apiKey clicked st)"
proof (cases clicked)
  case None
  then show ?thesis using assms
    by (simp add: staleRun_def detailEffect_none runCleanup_fields split: option.splits)
next
  case (Some sel)
  then show ?thesis using assms
    by (simp add: staleRun_def detailEffect_some runCleanup_fields split: option.splits)
qed

lemma detailEffect_inv: "detailInv (detailEffect apiKey clicked st)"
  by (cases clicked) (simp_all add: detailInv_def detailEffect_none detailEffect_some)

lemma appStep_total: "\<exists>gd'. appStep cfg apiKey e gd = Some gd'"
proof (cases e)
  case (Globe ev)
  obtain g' where "step cfg ev (fst gd) = Some g'" using step_total by blast
  then show ?thesis using Globe by (simp add: appStep_def)
qed (simp_all add: appStep_def)

lemma appStep_stale:
  assumes "staleRun k (snd gd)" "appStep cfg apiKey e gd = Some gd'"
  shows "staleRun k (snd gd')"
proof (cases e)
  case (Globe ev)
  obtain g' where g': "step cfg ev (fst gd) = Some g'" using step_total by blast
  show ?thesis using assms g' Globe detailEffect_stale[OF assms(1)]
    by (auto simp add: appStep_def)
next
  case (WeatherSettled j net)
  then show ?thesis using assms by (auto simp add: appStep_def staleRun_def weatherSettled_keeps)
next
  case (SummarySettled j r)
  then show ?thesis using assms by (auto simp add: appStep_def staleRun_def summarySettled_keeps)
qed

lemma appStep_inv:
  assumes "globeInv cfg (fst gd) \<and> detailInv (snd gd)" "appStep cfg apiKey e gd = Some gd'"
  shows "globeInv cfg (fst gd') \<and> detailInv (snd gd')"
proof (cases e)
  case (Globe ev)
  obtain g' where g': "step cfg ev (fst gd) = Some g'" using step_total by blast
  have "globeInv cfg g'" using assms(1) g' step_inv by blast
  then show ?thesis using assms g' Globe detailEffect_inv by (auto simp add: appStep_def)
next
  case (WeatherSettled j net)
  then show ?thesis using assms by (auto simp add: appStep_def detailInv_def weatherSettled_keeps split: option.splits)
next
  case (SummarySettled j r)
  then show ?thesis using assms by (auto simp add: appStep_def detailInv_def summarySettled_keeps split: option.splits)
qed

lemma appRun_total: "\<exists>gd'. appRun cfg apiKey es gd = Some gd'"
proof (induction es arbitrary: gd)
  case Nil
  then show ?case by simp
next
  case (Cons e es)
  obtain gd1 where "appStep cfg apiKey e gd = Some gd1" using appStep_total by blast
  then show ?case using Cons.IH[of gd1] by simp
qed

lemma appRun_stale:
  assumes "staleRun k (snd gd)" "appRun cfg apiKey es gd = Some gd'"
  shows "staleRun k (snd gd')"
  using assms
proof (induction es arbitrary: gd)
  case Nil
  then show ?case by simp
next
  case (Cons e es)
  obtain gd1 where s1: "appStep cfg apiKey e gd = Some gd1" using appStep_total by blast
  have "staleRun k (snd gd1)" using Cons.prems(1) s1 by (rule appStep_stale)
  then show ?case using Cons.IH[of gd1] Cons.prems(2) s1 by simp
qed

lemma appRun_inv:
  assumes "globeInv cfg (fst gd) \<and> detailInv (snd gd)" "appRun cfg apiKey es gd = Some gd'"
  shows "globeInv cfg (fst gd') \<and> detailInv (snd gd')"
  using assms
proof (induction es arbitrary: gd)
  case Nil
  then show ?case by simp
next
  case (Cons e es)
  obtain gd1 where s1: "appStep cfg apiKey e gd = Some gd1" using appStep_total by blast
  have "globeInv cfg (fst gd1) \<and> detailInv (snd gd1)" using Cons.prems(1) s1 by (rule appStep_inv)
  then show ?case using Cons.IH[of gd1] Cons.prems(2) s1 by simp
qed

lemma app_reachable_inv:
  assumes "appRun cfg apiKey es (initGlobe cfg name0 clicked0 obj0, initDetail) = Some (g, d)"
  shows "globeInv cfg g" "detailInv d"
proof -
  have "globeInv cfg (fst (initGlobe cfg name0 clicked0 obj0, initDetail))
      \<and> detailInv (snd (initGlobe cfg name0 clicked0 obj0, initDetail))"
    by (simp add: initGlobe_inv detailInv_def initDetail_def)
  from appRun_inv[OF this assms] show "globeInv cfg g" "detailInv d" by simp_all
qed

text \<open>
  Claim C2. Take any reachable state of the component in which a selection is active, \<open>k\<close>
  being the run of the detail effect that started its fetches, and any event that
  changes \<^verbatim>\<open>clickedCountry\<close> (the selection is cleared or another country is clicked).
  From then on, whatever happens, the flag of run \<open>k\<close> is off, and every continuation of
  that run (the weather chain with any network, the summary with any answer, resolved or
  failed) leaves the detail state as it is: \<^verbatim>\<open>weatherData\<close>, \<^verbatim>\<open>countryDetails\<close>,
  \<^verbatim>\<open>aiSummary\<close> and \<^verbatim>\<open>groundingSources\<close> are not written.
\<close>

theorem stale_results_ignored:
  assumes "appRun cfg apiKey es (initGlobe cfg name0 clicked0 obj0, initDetail) = Some (g, d)"
      and "cleanup d = Some k"
      and "appStep cfg apiKey e (g, d) = Some (g', d')"
      and "clickedCountry g' \<noteq> clickedCountry g"
      and "appRun cfg apiKey es' (g', d') = Some (g'', d'')"
  shows "\<not> isMounted d'' k
     \<and> weatherSettled k net d'' = d'' \<and> summarySettled k r d'' = d''
     \<and> fetchWeather_settle k out d'' = d'' \<and> fetchSummary_settle k r d'' = d''
     \<and> appStep cfg apiKey (WeatherSettled k net) (g'', d'') = Some (g'', d'')
     \<and> appStep cfg apiKey (SummarySettled k r) (g'', d'') = Some (g'', d'')"
proof -
  have inv: "detailInv d" using assms(1) by (rule app_reachable_inv)
  obtain ev where ev: "e = Globe ev"
    using assms(3,4) by (cases e) (auto simp add: appStep_def)
  have d': "d' = detailEffect apiKey (map_option snd (clickedCountry g')) d"
    using assms(3,4) ev by (auto simp add: appStep_def split: option.splits if_splits)
  have "staleRun k d'" unfolding d' using assms(2) inv by (rule detailEffect_unmounts)
  then have "staleRun k (snd (g', d'))" by simp
  from appRun_stale[OF this assms(5)] have off: "\<not> isMounted d'' k" by (simp add: staleRun_def)
  show ?thesis
    using off
    by (simp add: weatherSettled_stale summarySettled_stale fetchWeather_settle_stale
        fetchSummary_settle_stale appStep_def)
qed


lemma appStep_globe:
  "step cfg ev g = Some g' \<Longrightarrow>
   appStep cfg apiKey (Globe ev) (g, d)
     = Some (g', if clickedCountry g' \<noteq> clickedCountry g
                 then detailEffect apiKey (map_option snd (clickedCountry g')) d else d)"
  by (simp add: appStep_def)

lemma appRun_the: "appRun cfg apiKey es gd = Some (the (appRun cfg apiKey es gd))"
  using appRun_total[of cfg apiKey es gd] by auto

lemma appRun_snoc:
  "appRun cfg apiKey es gd = Some gd1 \<Longrightarrow> appStep cfg apiKey e gd1 = Some gd2
   \<Longrightarrow> appRun cfg apiKey (es @ [e]) gd = Some gd2"
proof (induction es arbitrary: gd)
  case Nil
  then show ?case by simp
next
  case (Cons a es)
  obtain m where m: "appStep cfg apiKey a gd = Some m" using appStep_total by blast
  then show ?case using Cons.IH[of m] Cons.prems by simp
qed

lemma demo_app_clickA:
  "\<exists>g1. appRun (demoConfig False) apiKey [Globe (Click (Some uvA))] (demoGlobe False, initDetail)
          = Some (g1, detailEffect apiKey (Some \<lparr>sel_name = ''Aland'', sel_id = ''001''\<rparr>) initDetail)
        \<and> run (demoConfig False) [Click (Some uvA)] (demoGlobe False) = Some g1
        \<and> clickedCountryIdx g1 = 0
        \<and> clickedCountry g1 = Some (0, \<lparr>sel_name = ''Aland'', sel_id = ''001''\<rparr>)
        \<and> clickTimeout g1 = Some 1 \<and> timers g1 = [(1, 3000)] \<and> nextTimer g1 = 2
        \<and> nextObj g1 = 1"
proof -
  obtain g1 where g1: "run (demoConfig False) [Click (Some uvA)] (demoGlobe False) = Some g1"
      "clickedCountryIdx g1 = 0"
      "clickedCountry g1 = Some (0, \<lparr>sel_name = ''Aland'', sel_id = ''001''\<rparr>)"
      "clickTimeout g1 = Some 1" "timers g1 = [(1, 3000)]" "nextTimer g1 = 2" "nextObj g1 = 1"
    using demo_clickA[of False] by blast
  have st: "step (demoConfig False) (Click (Some uvA)) (demoGlobe False) = Some g1"
    using g1(1) by (rule run_one)
  have none: "clickedCountry (demoGlobe False) = None" by (simp add: demoGlobe_def initGlobe_def)
  have "appRun (demoConfig False) apiKey [Globe (Click (Some uvA))] (demoGlobe False, initDetail)
          = Some (g1, detailEffect apiKey (Some \<lparr>sel_name = ''Aland'', sel_id = ''001''\<rparr>) initDetail)"
    by (simp add: appStep_globe[OF st] g1(3) none)
  then show ?thesis using g1 by blast
qed

theorem stale_results_ignored_witness:
  "weatherSettled 0 demoNet (snd (demoApp None [Globe (Click (Some uvA)), Globe (Click (Some uvSea))]))
     = snd (demoApp None [Globe (Click (Some uvA)), Globe (Click (Some uvSea))])
   \<and> summarySettled 0 (AiResponse (Some ''A fact.'') None)
        (snd (demoApp None [Globe (Click (Some uvA)), Globe (Click (Some uvSea))]))
     = snd (demoApp None [Globe (Click (Some uvA)), Globe (Click (Some uvSea))])
   \<and> \<not> isMounted (snd (demoApp None [Globe (Click (Some uvA)), Globe (Click (Some uvSea))])) 0
   \<and> isMounted (snd (demoApp None [Globe (Click (Some uvA))])) 0"
proof -
  let ?sel = "\<lparr>sel_name = ''Aland'', sel_id = ''001''\<rparr>"
  let ?d1 = "detailEffect None (Some ?sel) initDetail"
  obtain g1 where g1:
      "appRun (demoConfig False) None [Globe (Click (Some uvA))] (demoGlobe False, initDetail) = Some (g1, ?d1)"
      "clickedCountryIdx g1 = 0" "clickedCountry g1 = Some (0, ?sel)"
    using demo_app_clickA[of None] by blast
  have r1: "appRun (demoConfig False) None [Globe (Click (Some uvA))]
        (initGlobe (demoConfig False) [] None 0, initDetail) = Some (g1, ?d1)"
    using g1(1) by (simp add: demoGlobe_def)
  have c: "cleanup ?d1 = Some 0" by (simp add: detailEffect_some initDetail_def)
  have ne: "clickedCountryIdx g1 \<noteq> - 1" using g1(2) by simp
  have st: "step (demoConfig False) (Click (Some uvSea)) g1 = Some (revertClick (demoConfig False) g1)"
    using noHit_click[OF demo_hits(3), of False g1] by (simp add: step_def)
  have ch: "clickedCountry (revertClick (demoConfig False) g1) \<noteq> clickedCountry g1"
    using revertClick_clicked(2)[OF ne, of "demoConfig False"] g1(3) by simp
  obtain d2 where s2: "appStep (demoConfig False) None (Globe (Click (Some uvSea))) (g1, ?d1)
       = Some (revertClick (demoConfig False) g1, d2)"
    using appStep_globe[OF st, of None ?d1] by simp
  have r2: "appRun (demoConfig False) None [] (revertClick (demoConfig False) g1, d2)
       = Some (revertClick (demoConfig False) g1, d2)" by simp
  have e1: "demoApp None [Globe (Click (Some uvA))] = (g1, ?d1)"
    using g1(1) by (simp add: demoApp_def)
  have "appRun (demoConfig False) None ([Globe (Click (Some uvA))] @ [Globe (Click (Some uvSea))])
       (demoGlobe False, initDetail) = Some (revertClick (demoConfig False) g1, d2)"
    using g1(1) s2 by (rule appRun_snoc)
  then have e2: "demoApp None [Globe (Click (Some uvA)), Globe (Click (Some uvSea))]
       = (revertClick (demoConfig False) g1, d2)"
    by (simp add: demoApp_def)
  have m: "isMounted ?d1 0" by (simp add: detailEffect_some initDetail_def)
  show ?thesis
    unfolding e1 e2
    using stale_results_ignored[OF r1 c s2 ch r2, of demoNet "AiResponse (Some ''A fact.'') None"] m
    by simp
qed


lemma freshIdentity_same:
  assumes "freshIdentity s" "clickedCountry s' = clickedCountry s" "nextObj s' = nextObj s"
  shows "freshIdentity s'"
  using assms by (simp add: freshIdentity_def)

lemma handleCountryClick_id:
  assumes "freshIdentity s" "handleCountryClick cfg idx s = Some s'"
  shows "freshIdentity s'"
proof (cases "clickedCountryIdx s = idx")
  case True
  then show ?thesis using assms by (simp add: handleCountryClick_same)
next
  case False
  have r: "0 \<le> idx" "idx < int (length (svgPaths cfg))"
    using handleCountryClick_range[OF assms(2) False] by simp_all
  obtain t where t: "handleCountryClick cfg idx s = Some t"
      "clickedCountry t = Some (nextObj s,
            \<lparr>sel_name = or_empty (path_name (svgPaths cfg ! nat idx)),
             sel_id = or_empty (path_id (svgPaths cfg ! nat idx))\<rparr>)"
      "nextObj t = nextObj s + 1"
    using handleCountryClick_fresh[OF r False] by blast
  have "s' = t" using t(1) assms(2) by simp
  then show ?thesis using t(2,3) by (simp add: freshIdentity_def)
qed

lemma revertClick_id:
  assumes "freshIdentity s"
  shows "freshIdentity (revertClick cfg s)"
proof (cases "clickedCountryIdx s = - 1")
  case True
  then show ?thesis using assms by (simp add: revertClick_idle)
next
  case False
  show ?thesis using revertClick_clicked(2)[OF False, of cfg] by (simp add: freshIdentity_def)
qed

lemma clearHover_id: "freshIdentity s \<Longrightarrow> freshIdentity (clearHover s)"
  by (simp add: freshIdentity_def clearHover_fields)

lemma updateMap_id:
  assumes "freshIdentity s" "updateMap cfg p b s = Some (s', r)"
  shows "freshIdentity s'"
  using assms(2)
proof (cases rule: updateMap_cases)
  case same
  then show ?thesis using assms(1) by simp
next
  case (click idx)
  then show ?thesis using assms(1) handleCountryClick_id by blast
next
  case (hover idx)
  show ?thesis using assms(1) unfolding hover(6) by (simp add: freshIdentity_def)
qed

lemma isHoverable_update_id: "freshIdentity s \<Longrightarrow> freshIdentity (s\<lparr>isHoverable := v\<rparr>)"
  by (simp add: freshIdentity_def)

lemma render_id:
  assumes "freshIdentity s" "render cfg hit s = Some s'"
  shows "freshIdentity s'"
proof -
  have mid: "\<exists>m. freshIdentity m \<and> (s' = m \<or> s' = m\<lparr>isHoverable := False\<rparr>)"
  proof (cases "isHoverable s")
    case False
    then show ?thesis using assms by (auto simp add: render_def Let_def split: if_splits)
  next
    case True
    show ?thesis
    proof (cases hit)
      case None
      then show ?thesis using assms True clearHover_id[OF assms(1)]
        by (auto simp add: render_def Let_def split: if_splits)
    next
      case (Some p)
      obtain s1 r where u: "updateMap cfg p False s = Some (s1, r)"
        using updateMap_total[of cfg p False s] by auto
      have i1: "freshIdentity s1" using assms(1) u by (rule updateMap_id)
      have i2: "freshIdentity (clearHover s1)" using i1 by (rule clearHover_id)
      show ?thesis using assms(2) True Some u i1 i2
        by (auto simp add: render_def Let_def split: if_splits)
    qed
  qed
  then show ?thesis using isHoverable_update_id by blast
qed

lemma handleClick_id:
  assumes "freshIdentity s" "handleClick cfg hit s = Some s'"
  shows "freshIdentity s'"
proof (cases hit)
  case None
  then show ?thesis using assms revertClick_id by (auto simp add: handleClick_def)
next
  case (Some p)
  obtain s1 r where u: "updateMap cfg p True s = Some (s1, r)"
    using updateMap_total[of cfg p True s] by auto
  have i1: "freshIdentity s1" using assms(1) u by (rule updateMap_id)
  have i2: "freshIdentity (revertClick cfg s1)" using i1 by (rule revertClick_id)
  show ?thesis using assms(2) Some u i1 i2 by (auto simp add: handleClick_def split: if_splits)
qed

lemma runCallback_id:
  assumes "freshIdentity s" "runCallback cfg cb s = Some s'"
  shows "freshIdentity s'"
  using assms
  by (cases cb) (auto simp add: runCallback_def drawCountry_blank freshIdentity_def split: if_splits)

lemma arrive_id: "freshIdentity s \<Longrightarrow> freshIdentity (arrive w s)"
  by (auto simp add: arrive_def freshIdentity_def split: tween_target.splits list.splits)

lemma step_id:
  assumes "freshIdentity s" "step cfg e s = Some s'"
  shows "freshIdentity s'"
proof (cases e)
  case (Click hit)
  then show ?thesis using assms handleClick_id by (simp add: step_def)
next
  case (Frame hit)
  then show ?thesis using assms render_id by (simp add: step_def)
next
  case (Wheel d)
  then show ?thesis using assms by (auto simp add: step_def handleWheel_def Let_def freshIdentity_def)
next
  case (TimerFired h)
  have "freshIdentity (clearTimeout h s)" using assms(1) by (simp add: freshIdentity_def)
  then have "freshIdentity (revertClick cfg (clearTimeout h s))" by (rule revertClick_id)
  then show ?thesis using assms TimerFired by (auto simp add: step_def split: if_splits)
next
  case (TweenDone i)
  show ?thesis
  proof (cases "i < length (tweens s)")
    case False
    then show ?thesis using assms TweenDone by (simp add: step_def)
  next
    case True
    have "freshIdentity (s\<lparr>tweens := take i (tweens s) @ drop (Suc i) (tweens s)\<rparr>)"
      using assms(1) by (simp add: freshIdentity_def)
    then have "freshIdentity (arrive (tweens s ! i) (s\<lparr>tweens := take i (tweens s) @ drop (Suc i) (tweens s)\<rparr>))"
      by (rule arrive_id)
    then show ?thesis using assms(2) TweenDone True runCallback_id by (simp add: step_def)
  qed
next
  case TouchStart
  then show ?thesis using assms by (auto simp add: step_def freshIdentity_def)
next
  case DragStart
  then show ?thesis using assms by (auto simp add: step_def freshIdentity_def)
next
  case DragEnd
  then show ?thesis using assms by (auto simp add: step_def freshIdentity_def)
next
  case (RotateTo x y)
  have "freshIdentity (rotateToRegion cfg x y s)"
    using assms(1) by (cases "isDeviceMotionActive cfg") (simp_all add: rotateToRegion_def freshIdentity_def)
  then show ?thesis using assms(2) RotateTo by (simp add: step_def)
next
  case HiResReady
  then show ?thesis using assms by (auto simp add: step_def prepareHiResTextures_def freshIdentity_def)
qed

lemma appStep_id:
  assumes "freshIdentity (fst gd)" "appStep cfg apiKey e gd = Some gd'"
  shows "freshIdentity (fst gd')"
proof (cases e)
  case (Globe ev)
  obtain g' where g': "step cfg ev (fst gd) = Some g'" using step_total by blast
  have "freshIdentity g'" using assms(1) g' by (rule step_id)
  then show ?thesis using assms(2) g' Globe by (auto simp add: appStep_def)
next
  case (WeatherSettled j net)
  then show ?thesis using assms by (auto simp add: appStep_def)
next
  case (SummarySettled j r)
  then show ?thesis using assms by (auto simp add: appStep_def)
qed

lemma appRun_id:
  assumes "freshIdentity (fst gd)" "appRun cfg apiKey es gd = Some gd'"
  shows "freshIdentity (fst gd')"
  using assms
proof (induction es arbitrary: gd)
  case Nil
  then show ?case by simp
next
  case (Cons e es)
  obtain gd1 where s1: "appStep cfg apiKey e gd = Some gd1" using appStep_total by blast
  have "freshIdentity (fst gd1)" using Cons.prems(1) s1 by (rule appStep_id)
  then show ?case using Cons.IH[of gd1] Cons.prems(2) s1 by simp
qed

lemma mounted_identity:
  assumes "appRun cfg apiKey es (initGlobe cfg name0 None obj0, initDetail) = Some (g, d)"
  shows "freshIdentity g"
proof -
  have "freshIdentity (fst (initGlobe cfg name0 None obj0, initDetail))"
    by (simp add: freshIdentity_def initGlobe_def)
  from appRun_id[OF this assms] show ?thesis by simp
qed


section \<open>The requests of a selection\<close>

lemma lookupCountry_first:
  "\<exists>rest. fst (lookupCountry net sel) = CountryByNameFull (sel_name sel) # rest"
  by (simp add: lookupCountry_def Let_def split: reply.splits)

lemma lookupCountry_alpha:
  "CountryByAlpha (sel_id sel) \<in> set (fst (lookupCountry net sel))
     \<longleftrightarrow> (\<exists>b. net (CountryByNameFull (sel_name sel)) = Response False b) \<and> sel_id sel \<noteq> []"
  by (auto simp add: lookupCountry_def Let_def split: reply.splits if_splits)

lemma lookupCountry_name_ok:
  "net (CountryByNameFull (sel_name sel)) = Response True b1
   \<Longrightarrow> lookupCountry net sel = ([CountryByNameFull (sel_name sel)], Some b1)"
  by (simp add: lookupCountry_def Let_def)

lemma lookupCountry_fallback:
  "net (CountryByNameFull (sel_name sel)) = Response False b1 \<Longrightarrow> sel_id sel \<noteq> []
   \<Longrightarrow> net (CountryByAlpha (sel_id sel)) = Response True b2
   \<Longrightarrow> lookupCountry net sel
        = ([CountryByNameFull (sel_name sel), CountryByAlpha (sel_id sel)], Some b2)"
  by (simp add: lookupCountry_def Let_def)

lemma chain_prefix:
  "\<exists>rest. fst (fetchWeather_chain net sel) = fst (lookupCountry net sel) @ rest"
  by (cases "lookupCountry net sel")
     (auto simp add: fetchWeather_chain_def Let_def
        split: option.splits body.splits list.splits reply.splits prod.splits)

lemma settle_commute:
  "fetchSummary_settle k r (fetchWeather_settle k out st)
     = fetchWeather_settle k out (fetchSummary_settle k r st)"
proof (cases "isMounted st k")
  case False
  then show ?thesis by (simp add: fetchWeather_settle_stale fetchSummary_settle_stale)
next
  case True
  then show ?thesis
    by (cases out; cases r)
       (simp_all add: fetchWeather_settle_def fetchSummary_settle_def Let_def split: option.splits)
qed


lemma chain_requests:
  "fst (fetchWeather_chain net sel) = fst (lookupCountry net sel)
   \<or> (\<exists>lat lng b. snd (lookupCountry net sel) = Some b
         \<and> fst (fetchWeather_chain net sel) = fst (lookupCountry net sel) @ [Forecast lat lng])"
  by (cases "lookupCountry net sel")
     (auto simp add: fetchWeather_chain_def Let_def
        split: option.splits body.splits list.splits reply.splits prod.splits)

lemma lookupCountry_no_forecast: "Forecast lat lng \<notin> set (fst (lookupCountry net sel))"
  by (auto simp add: lookupCountry_def Let_def split: reply.splits if_splits)

lemma chain_alpha:
  "CountryByAlpha (sel_id sel) \<in> set (fst (fetchWeather_chain net sel))
     \<longleftrightarrow> (\<exists>b. net (CountryByNameFull (sel_name sel)) = Response False b) \<and> sel_id sel \<noteq> []"
proof -
  have "CountryByAlpha (sel_id sel) \<in> set (fst (fetchWeather_chain net sel))
      \<longleftrightarrow> CountryByAlpha (sel_id sel) \<in> set (fst (lookupCountry net sel))"
    using chain_requests[of net sel] by auto
  then show ?thesis using lookupCountry_alpha[of sel net] by simp
qed

lemma chain_forecast_after_lookup:
  assumes "Forecast lat lng \<in> set (fst (fetchWeather_chain net sel))"
  shows "\<exists>b. snd (lookupCountry net sel) = Some b"
  using chain_requests[of net sel] assms lookupCountry_no_forecast[of lat lng net sel] by auto

lemma chain_got:
  assumes "lookupCountry net sel = (sent, Some (CountriesJson (country # others)))"
      and "capitalInfo_latlng country = Some (lat, lng)"
      and "cj_capital country = Some (cap # caps)" "cap \<noteq> []"
      and "net (Forecast lat lng) = Response True (WeatherJson cw)"
  shows "fetchWeather_chain net sel = (sent @ [Forecast lat lng], Got country cap cw)"
  using assms by (simp add: fetchWeather_chain_def)

lemma chain_forecast_fails:
  assumes "lookupCountry net sel = (sent, Some (CountriesJson (country # others)))"
      and "capitalInfo_latlng country = Some (lat, lng)"
      and "net (Forecast lat lng) = Rejected \<or> net (Forecast lat lng) = Response False b"
  shows "fetchWeather_chain net sel = (sent @ [Forecast lat lng], Threw)"
  using assms by (auto simp add: fetchWeather_chain_def split: option.splits list.splits)

lemma weatherSettled_threw:
  assumes "snd (fetchWeather_chain net sel) = Threw" "closure st k = Some sel"
  shows "countryDetails (weatherSettled k net st) = countryDetails st"
    "weatherData (weatherSettled k net st) = weatherData st"
  using assms by (simp_all add: weatherSettled_def fetchWeather_settle_def)

lemma chain_got_forecast:
  assumes got: "snd (fetchWeather_chain net sel) = Got country cap cw"
  shows "\<exists>lat lng b. Forecast lat lng \<in> set (fst (fetchWeather_chain net sel))
           \<and> net (Forecast lat lng) = Response True b"
proof -
  obtain sent bo where l: "lookupCountry net sel = (sent, bo)" by (cases "lookupCountry net sel")
  show ?thesis
  proof (cases bo)
    case None
    then show ?thesis using got l by (simp add: fetchWeather_chain_def)
  next
    case (Some body)
    show ?thesis
    proof (cases body)
      case (CountriesJson cs)
      show ?thesis
      proof (cases cs)
        case Nil
        then show ?thesis using got l Some CountriesJson by (simp add: fetchWeather_chain_def)
      next
        case (Cons c rest)
        define place where "place =
                 (case capitalInfo_latlng c of
                    Some ll \<Rightarrow>
                      Some (ll, (case cj_capital c of
                                   Some (c # cs) \<Rightarrow> if c = [] then ''Capital'' else c
                                 | _ \<Rightarrow> ''Capital''))
                  | None \<Rightarrow>
                      (case cj_latlng c of
                         Some ll \<Rightarrow> Some (ll, cj_name_common c)
                       | None \<Rightarrow> None))"
        have ch: "fetchWeather_chain net sel =
              (case place of
                None \<Rightarrow> (sent, Threw)
              | Some ((lat, lng), capital) \<Rightarrow>
                  (case net (Forecast lat lng) of
                     Rejected \<Rightarrow> (sent @ [Forecast lat lng], Threw)
                   | Response ok b \<Rightarrow>
                       if \<not> ok then (sent @ [Forecast lat lng], Threw)
                       else (case b of
                               WeatherJson cw \<Rightarrow> (sent @ [Forecast lat lng], Got c capital cw)
                             | CountriesJson cs \<Rightarrow> (sent @ [Forecast lat lng], Got c capital None)
                             | NotJson \<Rightarrow> (sent @ [Forecast lat lng], Threw))))"
          unfolding place_def using l Some CountriesJson Cons by (simp add: fetchWeather_chain_def)
        show ?thesis
        proof (cases place)
          case None
          then show ?thesis using got ch by simp
        next
          case (Some pl)
          obtain lat lng capital where pl: "pl = ((lat, lng), capital)" by (cases pl) auto
          show ?thesis
          proof (cases "net (Forecast lat lng)")
            case Rejected
            then show ?thesis using got ch Some pl by simp
          next
            case (Response ok b)
            show ?thesis
            proof (cases ok)
              case False
              then show ?thesis using got ch Some pl Response by simp
            next
              case True
              have "fst (fetchWeather_chain net sel) = sent @ [Forecast lat lng]"
                using ch Some pl Response True by (cases b) simp_all
              then show ?thesis using Response True by auto
            qed
          qed
        qed
      qed
    next
      case (WeatherJson x)
      then show ?thesis using got l Some by (simp add: fetchWeather_chain_def)
    next
      case NotJson
      then show ?thesis using got l Some by (simp add: fetchWeather_chain_def)
    qed
  qed
qed

lemma details_need_forecast:
  assumes "closure st k = Some sel"
      and "countryDetails (weatherSettled k net st) \<noteq> countryDetails st"
  shows "\<exists>lat lng b. Forecast lat lng \<in> set (fst (fetchWeather_chain net sel))
           \<and> net (Forecast lat lng) = Response True b"
proof (cases "snd (fetchWeather_chain net sel)")
  case Threw
  then show ?thesis using weatherSettled_threw(1)[OF Threw assms(1)] assms(2) by simp
next
  case (Got country cap cw)
  then show ?thesis by (rule chain_got_forecast)
qed

lemma weatherSettled_got:
  assumes "snd (fetchWeather_chain net sel) = Got country cap (Some w)"
      and "closure st k = Some sel" "isMounted st k"
  shows "countryDetails (weatherSettled k net st) = Some (mkDetails country cap)"
    "weatherData (weatherSettled k net st)
       = Some \<lparr>wd_temperature = cw_temperature w, wd_windspeed = cw_windspeed w,
               wd_weathercode = cw_weathercode w, wd_capital = cap\<rparr>"
    "\<not> isLoadingWeather (weatherSettled k net st)"
  using assms by (simp_all add: weatherSettled_def fetchWeather_settle_def)

lemma settled_commute:
  "summarySettled k r (weatherSettled k net st) = weatherSettled k net (summarySettled k r st)"
  by (cases "closure st k")
     (simp_all add: summarySettled_def weatherSettled_def fetchWeather_settle_keeps
        fetchSummary_settle_keeps settle_commute)

lemma settled_frames:
  "aiSummary (weatherSettled k net st) = aiSummary st"
  "groundingSources (weatherSettled k net st) = groundingSources st"
  "isLoadingSummary (weatherSettled k net st) = isLoadingSummary st"
  "closure (weatherSettled k net st) = closure st"
  "weatherData (summarySettled k r st) = weatherData st"
  "countryDetails (summarySettled k r st) = countryDetails st"
  "isLoadingWeather (summarySettled k r st) = isLoadingWeather st"
  "closure (summarySettled k r st) = closure st"
  by (simp_all add: weatherSettled_def summarySettled_def fetchWeather_settle_keeps
      fetchSummary_settle_keeps split: option.splits)

lemma summary_shown:
  assumes "closure st k = Some sel" "isMounted st k"
  shows "aiSummary (summarySettled k (AiResponse (Some t) cs) st)
           = Some (if t = [] then ''No summary available.'' else t)"
    "\<not> isLoadingSummary (summarySettled k (AiResponse (Some t) cs) st)"
  using assms by (simp_all add: summarySettled_def fetchSummary_settle_def Let_def split: option.splits)

text \<open>
  Claim C7, as the code has it. The requests of a selection form two units: the chain of
  \<^verbatim>\<open>fetchWeather\<close> and the call of \<^verbatim>\<open>fetchSummary\<close>. The chain asks for the country by its
  full name first; it asks by code exactly when that response is not ok and the clicked
  country has an id, and when the answer by code is ok it goes on with it: it asks for the
  forecast at the capital, and when that response is ok the continuation of the run writes
  the country details and the weather. The forecast is asked for only after a lookup has
  given a country; when the forecast fails the chain throws, and the details of the
  country that was found are not written either: the continuation changes the country
  details only when a forecast was asked for and its response was ok. The two units are
  independent: the effect sends the first lookup and, with an API key, the summary
  request at once; the two continuations write different parts of the detail state and
  commute; whatever the network does to the chain, the summary that arrives is shown; and
  when the chain succeeds, its data are shown after a failed summary.
\<close>

theorem lookup_fallback_and_chains:
  "(\<exists>rest. fst (fetchWeather_chain net sel) = CountryByNameFull (sel_name sel) # rest)
   \<and> (CountryByAlpha (sel_id sel) \<in> set (fst (fetchWeather_chain net sel))
        \<longleftrightarrow> (\<exists>b. net (CountryByNameFull (sel_name sel)) = Response False b) \<and> sel_id sel \<noteq> [])
   \<and> (net (CountryByNameFull (sel_name sel)) = Response False b1 \<and> sel_id sel \<noteq> []
        \<and> net (CountryByAlpha (sel_id sel)) = Response True (CountriesJson (country # others))
        \<and> capitalInfo_latlng country = Some (lat, lng)
        \<and> cj_capital country = Some (cap # caps) \<and> cap \<noteq> []
        \<and> net (Forecast lat lng) = Response True (WeatherJson (Some w))
      \<longrightarrow> fetchWeather_chain net sel
            = ([CountryByNameFull (sel_name sel), CountryByAlpha (sel_id sel), Forecast lat lng],
               Got country cap (Some w))
        \<and> countryDetails (weatherSettled (nextRun st) net (detailEffect apiKey (Some sel) st))
            = Some (mkDetails country cap)
        \<and> weatherData (weatherSettled (nextRun st) net (detailEffect apiKey (Some sel) st))
            = Some \<lparr>wd_temperature = cw_temperature w, wd_windspeed = cw_windspeed w,
                    wd_weathercode = cw_weathercode w, wd_capital = cap\<rparr>
        \<and> \<not> isLoadingWeather (weatherSettled (nextRun st) net (detailEffect apiKey (Some sel) st)))
   \<and> (Forecast lat lng \<in> set (fst (fetchWeather_chain net sel))
      \<longrightarrow> (\<exists>b. snd (lookupCountry net sel) = Some b))
   \<and> (snd (lookupCountry net sel) = Some (CountriesJson (country # others))
        \<and> capitalInfo_latlng country = Some (lat, lng)
        \<and> (net (Forecast lat lng) = Rejected \<or> net (Forecast lat lng) = Response False b2)
      \<longrightarrow> fetchWeather_chain net sel = (fst (lookupCountry net sel) @ [Forecast lat lng], Threw)
        \<and> countryDetails (weatherSettled (nextRun st) net (detailEffect apiKey (Some sel) st)) = None
        \<and> weatherData (weatherSettled (nextRun st) net (detailEffect apiKey (Some sel) st)) = None
        \<and> \<not> isLoadingWeather (weatherSettled (nextRun st) net (detailEffect apiKey (Some sel) st)))
   \<and> (closure st k = Some sel \<and> countryDetails (weatherSettled k net st) \<noteq> countryDetails st
      \<longrightarrow> (\<exists>la ln b. Forecast la ln \<in> set (fst (fetchWeather_chain net sel))
                     \<and> net (Forecast la ln) = Response True b))
   \<and> issued (detailEffect apiKey (Some sel) st)
        = issued st @ [(nextRun st, CountryByNameFull (sel_name sel))]
          @ (if noKey apiKey then [] else [(nextRun st, GenerateContent (sel_name sel))])
   \<and> summarySettled k r (weatherSettled k net st) = weatherSettled k net (summarySettled k r st)
   \<and> aiSummary (weatherSettled k net st) = aiSummary st
   \<and> groundingSources (weatherSettled k net st) = groundingSources st
   \<and> isLoadingSummary (weatherSettled k net st) = isLoadingSummary st
   \<and> weatherData (summarySettled k r st) = weatherData st
   \<and> countryDetails (summarySettled k r st) = countryDetails st
   \<and> isLoadingWeather (summarySettled k r st) = isLoadingWeather st
   \<and> aiSummary (summarySettled (nextRun st) (AiResponse (Some t) cs)
        (weatherSettled (nextRun st) net (detailEffect apiKey (Some sel) st)))
        = Some (if t = [] then ''No summary available.'' else t)
   \<and> \<not> isLoadingSummary (summarySettled (nextRun st) (AiResponse (Some t) cs)
        (weatherSettled (nextRun st) net (detailEffect apiKey (Some sel) st)))
   \<and> (snd (fetchWeather_chain net sel) = Got country cap (Some w)
      \<longrightarrow> countryDetails (weatherSettled (nextRun st) net
              (summarySettled (nextRun st) AiRejected (detailEffect apiKey (Some sel) st)))
            = Some (mkDetails country cap)
        \<and> weatherData (weatherSettled (nextRun st) net
              (summarySettled (nextRun st) AiRejected (detailEffect apiKey (Some sel) st)))
            = Some \<lparr>wd_temperature = cw_temperature w, wd_windspeed = cw_windspeed w,
                    wd_weathercode = cw_weathercode w, wd_capital = cap\<rparr>
        \<and> aiSummary (weatherSettled (nextRun st) net
              (summarySettled (nextRun st) AiRejected (detailEffect apiKey (Some sel) st)))
            = Some ''Failed to load summary.'')"
proof -
  let ?d = "detailEffect apiKey (Some sel) st"
  let ?k = "nextRun st"
  have cl: "closure ?d ?k = Some sel" and mt: "isMounted ?d ?k"
    by (simp_all add: detailEffect_some)
  have c1: "\<exists>rest. fst (fetchWeather_chain net sel) = CountryByNameFull (sel_name sel) # rest"
  proof -
    obtain r1 where r1: "fst (lookupCountry net sel) = CountryByNameFull (sel_name sel) # r1"
      using lookupCountry_first by blast
    obtain r2 where r2: "fst (fetchWeather_chain net sel) = fst (lookupCountry net sel) @ r2"
      using chain_prefix by blast
    show ?thesis unfolding r2 r1 by simp
  qed
  have c3: "fetchWeather_chain net sel
            = ([CountryByNameFull (sel_name sel), CountryByAlpha (sel_id sel), Forecast lat lng],
               Got country cap (Some w))
        \<and> countryDetails (weatherSettled ?k net ?d) = Some (mkDetails country cap)
        \<and> weatherData (weatherSettled ?k net ?d)
            = Some \<lparr>wd_temperature = cw_temperature w, wd_windspeed = cw_windspeed w,
                    wd_weathercode = cw_weathercode w, wd_capital = cap\<rparr>
        \<and> \<not> isLoadingWeather (weatherSettled ?k net ?d)"
    if h: "net (CountryByNameFull (sel_name sel)) = Response False b1 \<and> sel_id sel \<noteq> []
        \<and> net (CountryByAlpha (sel_id sel)) = Response True (CountriesJson (country # others))
        \<and> capitalInfo_latlng country = Some (lat, lng)
        \<and> cj_capital country = Some (cap # caps) \<and> cap \<noteq> []
        \<and> net (Forecast lat lng) = Response True (WeatherJson (Some w))"
  proof -
    have l: "lookupCountry net sel
        = ([CountryByNameFull (sel_name sel), CountryByAlpha (sel_id sel)],
           Some (CountriesJson (country # others)))"
      using h by (intro lookupCountry_fallback) simp_all
    have ch: "fetchWeather_chain net sel
        = ([CountryByNameFull (sel_name sel), CountryByAlpha (sel_id sel)] @ [Forecast lat lng],
           Got country cap (Some w))"
      using l h by (intro chain_got) simp_all
    then have g: "snd (fetchWeather_chain net sel) = Got country cap (Some w)" by simp
    show ?thesis using ch weatherSettled_got[OF g cl mt] by simp
  qed
  have c5: "fetchWeather_chain net sel = (fst (lookupCountry net sel) @ [Forecast lat lng], Threw)
        \<and> countryDetails (weatherSettled ?k net ?d) = None
        \<and> weatherData (weatherSettled ?k net ?d) = None
        \<and> \<not> isLoadingWeather (weatherSettled ?k net ?d)"
    if h: "snd (lookupCountry net sel) = Some (CountriesJson (country # others))
        \<and> capitalInfo_latlng country = Some (lat, lng)
        \<and> (net (Forecast lat lng) = Rejected \<or> net (Forecast lat lng) = Response False b2)"
  proof -
    have l: "lookupCountry net sel = (fst (lookupCountry net sel), Some (CountriesJson (country # others)))"
      using h by (simp add: prod_eq_iff)
    have h2: "capitalInfo_latlng country = Some (lat, lng)"
      and h3: "net (Forecast lat lng) = Rejected \<or> net (Forecast lat lng) = Response False b2"
      using h by blast+
    have ch: "fetchWeather_chain net sel = (fst (lookupCountry net sel) @ [Forecast lat lng], Threw)"
      using l h2 h3 by (rule chain_forecast_fails)
    then have t: "snd (fetchWeather_chain net sel) = Threw" by simp
    have "weatherSettled ?k net ?d = ?d\<lparr>isLoadingWeather := False\<rparr>"
      using t cl mt by (simp add: weatherSettled_def fetchWeather_settle_def)
    then show ?thesis using ch by (simp add: detailEffect_some)
  qed
  have mt1: "isMounted (weatherSettled ?k net ?d) ?k" "closure (weatherSettled ?k net ?d) ?k = Some sel"
    using cl mt by (simp_all add: weatherSettled_keeps settled_frames)
  have mt2: "isMounted (summarySettled ?k AiRejected ?d) ?k"
    "closure (summarySettled ?k AiRejected ?d) ?k = Some sel"
    using cl mt by (simp_all add: summarySettled_keeps settled_frames)
  have c9: "countryDetails (weatherSettled ?k net (summarySettled ?k AiRejected ?d))
            = Some (mkDetails country cap)
        \<and> weatherData (weatherSettled ?k net (summarySettled ?k AiRejected ?d))
            = Some \<lparr>wd_temperature = cw_temperature w, wd_windspeed = cw_windspeed w,
                    wd_weathercode = cw_weathercode w, wd_capital = cap\<rparr>
        \<and> aiSummary (weatherSettled ?k net (summarySettled ?k AiRejected ?d))
            = Some ''Failed to load summary.''"
    if g: "snd (fetchWeather_chain net sel) = Got country cap (Some w)"
  proof -
    have "aiSummary (summarySettled ?k AiRejected ?d)
        = Some ''Failed to load summary.''"
      using cl mt by (simp add: summarySettled_def fetchSummary_settle_def)
    then show ?thesis using weatherSettled_got[OF g mt2(2) mt2(1)] by (simp add: settled_frames)
  qed
  show ?thesis
    apply (intro conjI impI)
    subgoal by (rule c1)
    subgoal by (rule chain_alpha)
    subgoal using c3 by blast
    subgoal using c3 by blast
    subgoal using c3 by blast
    subgoal using c3 by blast
    subgoal by (rule chain_forecast_after_lookup)
    subgoal using c5 by blast
    subgoal using c5 by blast
    subgoal using c5 by blast
    subgoal using c5 by blast
    subgoal using details_need_forecast[of st k sel net] by blast
    subgoal by (rule detailEffect_some)
    subgoal by (rule settled_commute)
    subgoal by (rule settled_frames)
    subgoal by (rule settled_frames)
    subgoal by (rule settled_frames)
    subgoal by (rule settled_frames)
    subgoal by (rule settled_frames)
    subgoal by (rule settled_frames)
    subgoal by (rule summary_shown[OF mt1(2) mt1(1)])
    subgoal by (rule summary_shown[OF mt1(2) mt1(1)])
    subgoal using c9 by blast
    subgoal using c9 by blast
    subgoal using c9 by blast
    done
qed

lemma demoNet_bland:
  "demoNet (CountryByNameFull ''Bland'') = Response False (CountriesJson [demoCountry ''Bland''])"
  "demoNet (CountryByAlpha ''002'') = Response True (CountriesJson [demoCountry ''Bland''])"
  "demoNet (CountryByNameFull ''Aland'') = Response True (CountriesJson [demoCountry ''Aland''])"
  "demoNet (Forecast lat lng)
     = Response True (WeatherJson (Some \<lparr>cw_temperature = 21, cw_windspeed = 5, cw_weathercode = 0\<rparr>))"
  by (simp_all add: demoNet_def)

lemma noForecastNet_aland:
  "noForecastNet (CountryByNameFull ''Aland'') = Response True (CountriesJson [demoCountry ''Aland''])"
  "noForecastNet (Forecast lat lng) = Response False NotJson"
  by (simp_all add: noForecastNet_def demoNet_def)

lemma demoCountry_fields:
  "capitalInfo_latlng (demoCountry n) = Some (1, 2)"
  "cj_capital (demoCountry n) = Some [n @ '' City'']"
  by (simp_all add: demoCountry_def)

lemma lookup_aland:
  "lookupCountry noForecastNet \<lparr>sel_name = ''Aland'', sel_id = ''001''\<rparr>
     = ([CountryByNameFull ''Aland''], Some (CountriesJson [demoCountry ''Aland'']))"
  "lookupCountry demoNet \<lparr>sel_name = ''Aland'', sel_id = ''001''\<rparr>
     = ([CountryByNameFull ''Aland''], Some (CountriesJson [demoCountry ''Aland'']))"
  by (simp_all add: lookupCountry_name_ok noForecastNet_aland demoNet_bland)

theorem lookup_fallback_and_chains_witness:
  "fetchWeather_chain demoNet \<lparr>sel_name = ''Bland'', sel_id = ''002''\<rparr>
     = ([CountryByNameFull ''Bland'', CountryByAlpha ''002'', Forecast 1 2],
        Got (demoCountry ''Bland'') ''Bland City''
          (Some \<lparr>cw_temperature = 21, cw_windspeed = 5, cw_weathercode = 0\<rparr>))
   \<and> countryDetails (weatherSettled 0 demoNet
        (detailEffect (Some ''key'') (Some \<lparr>sel_name = ''Bland'', sel_id = ''002''\<rparr>) initDetail))
       = Some (mkDetails (demoCountry ''Bland'') ''Bland City'')
   \<and> snd (lookupCountry demoNet \<lparr>sel_name = ''Bland'', sel_id = ''002''\<rparr>)
       = Some (CountriesJson [demoCountry ''Bland''])
   \<and> CountryByAlpha ''001'' \<notin> set (fst (fetchWeather_chain demoNet \<lparr>sel_name = ''Aland'', sel_id = ''001''\<rparr>))
   \<and> fetchWeather_chain noForecastNet \<lparr>sel_name = ''Aland'', sel_id = ''001''\<rparr>
       = ([CountryByNameFull ''Aland'', Forecast 1 2], Threw)
   \<and> countryDetails (weatherSettled 0 noForecastNet
        (detailEffect (Some ''key'') (Some \<lparr>sel_name = ''Aland'', sel_id = ''001''\<rparr>) initDetail))
       = None
   \<and> aiSummary (summarySettled 0 (AiResponse (Some ''A fact.'') None)
        (weatherSettled 0 deadNet
           (detailEffect (Some ''key'') (Some \<lparr>sel_name = ''Bland'', sel_id = ''002''\<rparr>) initDetail)))
       = Some ''A fact.''
   \<and> countryDetails (weatherSettled 0 demoNet
        (summarySettled 0 AiRejected
           (detailEffect (Some ''key'') (Some \<lparr>sel_name = ''Bland'', sel_id = ''002''\<rparr>) initDetail)))
       = Some (mkDetails (demoCountry ''Bland'') ''Bland City'')
   \<and> aiSummary (weatherSettled 0 demoNet
        (summarySettled 0 AiRejected
           (detailEffect (Some ''key'') (Some \<lparr>sel_name = ''Bland'', sel_id = ''002''\<rparr>) initDetail)))
       = Some ''Failed to load summary.''
   \<and> (\<exists>la ln b. Forecast la ln
            \<in> set (fst (fetchWeather_chain demoNet \<lparr>sel_name = ''Bland'', sel_id = ''002''\<rparr>))
          \<and> demoNet (Forecast la ln) = Response True b)"
proof -
  let ?selB = "\<lparr>sel_name = ''Bland'', sel_id = ''002''\<rparr>"
  let ?selA = "\<lparr>sel_name = ''Aland'', sel_id = ''001''\<rparr>"
  let ?w = "\<lparr>cw_temperature = 21, cw_windspeed = 5, cw_weathercode = 0\<rparr>"
  have n0: "nextRun initDetail = 0" by (simp add: initDetail_def)
  note B = lookup_fallback_and_chains[where net=demoNet and sel="?selB"
      and ?b1.0="CountriesJson [demoCountry ''Bland'']" and country="demoCountry ''Bland''"
      and others="[]" and lat=1 and lng=2 and cap="''Bland City''" and caps="[]" and w="?w"
      and ?b2.0=NotJson and st=initDetail and apiKey="Some ''key''" and k=0 and r=AiRejected
      and t="''A fact.''" and cs=None]
  note D = lookup_fallback_and_chains[where net=deadNet and sel="?selB"
      and ?b1.0="CountriesJson [demoCountry ''Bland'']" and country="demoCountry ''Bland''"
      and others="[]" and lat=1 and lng=2 and cap="''Bland City''" and caps="[]" and w="?w"
      and ?b2.0=NotJson and st=initDetail and apiKey="Some ''key''" and k=0 and r=AiRejected
      and t="''A fact.''" and cs=None]
  note A = lookup_fallback_and_chains[where net=demoNet and sel="?selA"
      and ?b1.0="CountriesJson [demoCountry ''Bland'']" and country="demoCountry ''Aland''"
      and others="[]" and lat=1 and lng=2 and cap="''Aland City''" and caps="[]" and w="?w"
      and ?b2.0=NotJson and st=initDetail and apiKey="Some ''key''" and k=0 and r=AiRejected
      and t="''A fact.''" and cs=None]
  note F = lookup_fallback_and_chains[where net=noForecastNet and sel="?selA"
      and ?b1.0="CountriesJson [demoCountry ''Bland'']" and country="demoCountry ''Aland''"
      and others="[]" and lat=1 and lng=2 and cap="''Aland City''" and caps="[]" and w="?w"
      and ?b2.0=NotJson and st=initDetail and apiKey="Some ''key''" and k=0 and r=AiRejected
      and t="''A fact.''" and cs=None]
  have b3: "fetchWeather_chain demoNet ?selB
     = ([CountryByNameFull ''Bland'', CountryByAlpha ''002'', Forecast 1 2],
        Got (demoCountry ''Bland'') ''Bland City'' (Some ?w))"
    "countryDetails (weatherSettled 0 demoNet (detailEffect (Some ''key'') (Some ?selB) initDetail))
       = Some (mkDetails (demoCountry ''Bland'') ''Bland City'')"
    using B by (simp_all add: demoNet_bland demoCountry_fields n0)
  have b4: "snd (lookupCountry demoNet ?selB) = Some (CountriesJson [demoCountry ''Bland''])"
    by (simp add: lookupCountry_fallback[where ?b1.0="CountriesJson [demoCountry ''Bland'']"] demoNet_bland)
  have a2: "CountryByAlpha ''001'' \<notin> set (fst (fetchWeather_chain demoNet ?selA))"
    using A[THEN conjunct2, THEN conjunct1] by (simp add: demoNet_bland)
  have f5: "fetchWeather_chain noForecastNet ?selA = ([CountryByNameFull ''Aland'', Forecast 1 2], Threw)"
    "countryDetails (weatherSettled 0 noForecastNet (detailEffect (Some ''key'') (Some ?selA) initDetail)) = None"
    using F by (simp_all add: lookup_aland noForecastNet_aland demoCountry_fields n0)
  have d8: "aiSummary (summarySettled 0 (AiResponse (Some ''A fact.'') None)
        (weatherSettled 0 deadNet (detailEffect (Some ''key'') (Some ?selB) initDetail)))
       = Some ''A fact.''"
    using D by (simp add: n0)
  have b9: "countryDetails (weatherSettled 0 demoNet
        (summarySettled 0 AiRejected (detailEffect (Some ''key'') (Some ?selB) initDetail)))
       = Some (mkDetails (demoCountry ''Bland'') ''Bland City'')"
    "aiSummary (weatherSettled 0 demoNet
        (summarySettled 0 AiRejected (detailEffect (Some ''key'') (Some ?selB) initDetail)))
       = Some ''Failed to load summary.''"
    using B b3(1) by (simp_all add: n0)
  let ?d = "detailEffect (Some ''key'') (Some ?selB) initDetail"
  note E = lookup_fallback_and_chains[where net=demoNet and sel="?selB"
      and ?b1.0="CountriesJson [demoCountry ''Bland'']" and country="demoCountry ''Bland''"
      and others="[]" and lat=1 and lng=2 and cap="''Bland City''" and caps="[]" and w="?w"
      and ?b2.0=NotJson and st="?d" and apiKey="Some ''key''" and k=0 and r=AiRejected
      and t="''A fact.''" and cs=None]
  have cl: "closure ?d 0 = Some ?selB" "countryDetails ?d = None"
    by (simp_all add: detailEffect_some n0)
  have e6: "\<exists>la ln b. Forecast la ln \<in> set (fst (fetchWeather_chain demoNet ?selB))
          \<and> demoNet (Forecast la ln) = Response True b"
    using E cl b3(2) by simp
  show ?thesis using b3 b4 a2 f5 d8 b9 e6 by simp
qed

text \<open>
  The claim as it is written has three independent requests, none blocking another.
  Inside the chain they are not: with the forecast service down the lookup of Aland
  succeeds, and the run of the effect, still mounted, ends with the loading flag cleared
  and without country details.
\<close>

theorem lookup_fallback_and_chains_counterexample:
  "lookupCountry noForecastNet \<lparr>sel_name = ''Aland'', sel_id = ''001''\<rparr>
     = ([CountryByNameFull ''Aland''], Some (CountriesJson [demoCountry ''Aland'']))
   \<and> fetchWeather_chain noForecastNet \<lparr>sel_name = ''Aland'', sel_id = ''001''\<rparr>
       = ([CountryByNameFull ''Aland'', Forecast 1 2], Threw)
   \<and> isMounted (detailEffect None (Some \<lparr>sel_name = ''Aland'', sel_id = ''001''\<rparr>) initDetail) 0
   \<and> countryDetails (weatherSettled 0 noForecastNet
        (detailEffect None (Some \<lparr>sel_name = ''Aland'', sel_id = ''001''\<rparr>) initDetail)) = None
   \<and> \<not> isLoadingWeather (weatherSettled 0 noForecastNet
        (detailEffect None (Some \<lparr>sel_name = ''Aland'', sel_id = ''001''\<rparr>) initDetail))"
proof -
  let ?selA = "\<lparr>sel_name = ''Aland'', sel_id = ''001''\<rparr>"
  let ?d = "detailEffect None (Some ?selA) initDetail"
  have n0: "nextRun initDetail = 0" by (simp add: initDetail_def)
  have ch: "fetchWeather_chain noForecastNet ?selA = ([CountryByNameFull ''Aland''] @ [Forecast 1 2], Threw)"
    by (rule chain_forecast_fails[where b=NotJson and others="[]" and country="demoCountry ''Aland''"])
       (simp_all add: lookup_aland noForecastNet_aland demoCountry_fields)
  have cl: "closure ?d 0 = Some ?selA" and mt: "isMounted ?d 0"
    by (simp_all add: detailEffect_some n0)
  have "weatherSettled 0 noForecastNet ?d = ?d\<lparr>isLoadingWeather := False\<rparr>"
    using ch cl mt by (simp add: weatherSettled_def fetchWeather_settle_def)
  then show ?thesis using ch mt by (simp add: lookup_aland detailEffect_some)
qed

text \<open>
  Claim C8. Without an API key the effect writes the fixed message
  \<^verbatim>\<open>Gemini API key not configured.\<close>, clears the loading flag and sends no summary request.
  With a key, when \<^verbatim>\<open>generateContent\<close> fails while the run is still mounted, the
  continuation writes the fixed message \<^verbatim>\<open>Failed to load summary.\<close> and clears the loading
  flag, changing nothing else. The failure is caught: the step of the component returns,
  leaves the globe state as it is, and every later sequence of events runs.
\<close>

theorem ai_summary_fallback:
  "(noKey apiKey
      \<longrightarrow> aiSummary (detailEffect apiKey (Some sel) st) = Some ''Gemini API key not configured.''
        \<and> \<not> isLoadingSummary (detailEffect apiKey (Some sel) st)
        \<and> issued (detailEffect apiKey (Some sel) st)
            = issued st @ [(nextRun st, CountryByNameFull (sel_name sel))])
   \<and> (isMounted st k
      \<longrightarrow> fetchSummary_settle k AiRejected st
            = st\<lparr>aiSummary := Some ''Failed to load summary.'', isLoadingSummary := False\<rparr>)
   \<and> (\<not> noKey apiKey
      \<longrightarrow> aiSummary (summarySettled (nextRun st) AiRejected (detailEffect apiKey (Some sel) st))
            = Some ''Failed to load summary.''
        \<and> \<not> isLoadingSummary (summarySettled (nextRun st) AiRejected (detailEffect apiKey (Some sel) st)))
   \<and> (\<exists>d'. appStep cfg apiKey (SummarySettled k AiRejected) (g, d) = Some (g, d'))
   \<and> (\<exists>gd'. appRun cfg apiKey (SummarySettled k AiRejected # evs) (g, d) = Some gd')"
proof (intro conjI impI)
  show "aiSummary (detailEffect apiKey (Some sel) st) = Some ''Gemini API key not configured.''"
    if "noKey apiKey" using that by (simp add: detailEffect_some)
  show "\<not> isLoadingSummary (detailEffect apiKey (Some sel) st)"
    if "noKey apiKey" using that by (simp add: detailEffect_some)
  show "issued (detailEffect apiKey (Some sel) st)
            = issued st @ [(nextRun st, CountryByNameFull (sel_name sel))]"
    if "noKey apiKey" using that by (simp add: detailEffect_some)
  show "fetchSummary_settle k AiRejected st
            = st\<lparr>aiSummary := Some ''Failed to load summary.'', isLoadingSummary := False\<rparr>"
    if "isMounted st k" using that by (simp add: fetchSummary_settle_def)
  {
    assume nk: "\<not> noKey apiKey"
    let ?d = "detailEffect apiKey (Some sel) st"
    have m: "isMounted ?d (nextRun st)" and c: "closure ?d (nextRun st) = Some sel"
      by (simp_all add: detailEffect_some)
    have e: "summarySettled (nextRun st) AiRejected ?d
        = ?d\<lparr>aiSummary := Some ''Failed to load summary.'', isLoadingSummary := False\<rparr>"
      using m c by (simp add: summarySettled_def fetchSummary_settle_def)
    show "aiSummary (summarySettled (nextRun st) AiRejected ?d) = Some ''Failed to load summary.''"
      unfolding e by simp
    show "\<not> isLoadingSummary (summarySettled (nextRun st) AiRejected ?d)"
      unfolding e by simp
  }
  show "\<exists>d'. appStep cfg apiKey (SummarySettled k AiRejected) (g, d) = Some (g, d')"
    by (simp add: appStep_def)
  show "\<exists>gd'. appRun cfg apiKey (SummarySettled k AiRejected # evs) (g, d) = Some gd'"
    by (rule appRun_total)
qed

theorem ai_summary_fallback_witness:
  "aiSummary (detailEffect None (Some \<lparr>sel_name = ''Aland'', sel_id = ''001''\<rparr>) initDetail)
     = Some ''Gemini API key not configured.''
   \<and> aiSummary (detailEffect (Some []) (Some \<lparr>sel_name = ''Aland'', sel_id = ''001''\<rparr>) initDetail)
     = Some ''Gemini API key not configured.''
   \<and> aiSummary (summarySettled 0 AiRejected
        (detailEffect (Some ''key'') (Some \<lparr>sel_name = ''Aland'', sel_id = ''001''\<rparr>) initDetail))
     = Some ''Failed to load summary.''
   \<and> \<not> isLoadingSummary (summarySettled 0 AiRejected
        (detailEffect (Some ''key'') (Some \<lparr>sel_name = ''Aland'', sel_id = ''001''\<rparr>) initDetail))
   \<and> fetchSummary_settle 0 AiRejected
        (detailEffect (Some ''key'') (Some \<lparr>sel_name = ''Aland'', sel_id = ''001''\<rparr>) initDetail)
     = (detailEffect (Some ''key'') (Some \<lparr>sel_name = ''Aland'', sel_id = ''001''\<rparr>) initDetail)
         \<lparr>aiSummary := Some ''Failed to load summary.'', isLoadingSummary := False\<rparr>"
proof -
  let ?sel = "\<lparr>sel_name = ''Aland'', sel_id = ''001''\<rparr>"
  let ?d = "detailEffect (Some ''key'') (Some ?sel) initDetail"
  have m: "isMounted ?d 0" by (simp add: detailEffect_some initDetail_def)
  have n0: "nextRun initDetail = 0" by (simp add: initDetail_def)
  have k: "noKey None" "noKey (Some [])" "\<not> noKey (Some ''key'')" by (simp_all add: noKey_def)
  show ?thesis
    using ai_summary_fallback[of None ?sel initDetail]
      ai_summary_fallback[of "Some []" ?sel initDetail]
      ai_summary_fallback[of "Some ''key''" ?sel initDetail, THEN conjunct2, THEN conjunct2, THEN conjunct1]
      ai_summary_fallback[where st="?d" and k=0, THEN conjunct2, THEN conjunct1]
      m k
    by (simp add: n0)
qed


section \<open>Clicking another country\<close>

lemma timersKnown_handle:
  assumes "timersKnown g" "h \<in> fst ` set (timers g)"
  shows "h \<noteq> 0 \<and> h < nextTimer g"
  using assms by (auto simp add: timersKnown_def list_all_iff)

text \<open>
  Within one run of the globe effect. In a state reached from the start of the component
  where country \<open>a\<close> is clicked, its timeout \<open>hA\<close> is still pending and the run \<open>kA\<close> of the
  detail effect belongs to it, a click that hits another country \<open>b\<close> removes \<open>hA\<close> from
  the pending timeouts and starts one new timeout of 3000 ms; removes every pending tween
  on the scale of the click ring and starts one new tween there; sets \<^verbatim>\<open>clickedCountry\<close>
  to \<open>b\<close>; and runs the detail effect: the flag of \<open>kA\<close> is cleared, so that no
  continuation of \<open>kA\<close> writes the detail state then or later, the detail state is reset,
  and the requests that are sent are those of the new run, for the name of \<open>b\<close>. The
  answers of the new run are written: the country details and the weather when its chain
  succeeds, the summary when that arrives.
\<close>

lemma reselect_within_one_run:
  assumes "appRun cfg apiKey es (initGlobe cfg name0 None obj0, initDetail) = Some (g, d)"
      and "clickedCountryIdx g = a" and "a \<noteq> - 1"
      and "clickTimeout g = Some hA" and "hA \<in> fst ` set (timers g)"
      and "cleanup d = Some kA"
      and "hitOn cfg hit b" and "b \<noteq> a"
  shows "\<exists>g' d'. appStep cfg apiKey (Globe (Click hit)) (g, d) = Some (g', d')
     \<and> hA \<notin> fst ` set (timers g')
     \<and> timers g' = filter (\<lambda>t. fst t \<noteq> hA) (timers g) @ [(nextTimer g, 3000)]
     \<and> clickTimeout g' = Some (nextTimer g)
     \<and> filter (\<lambda>w. tw_target w = ClickedScale) (tweens g')
          = [\<lparr>tw_target = ClickedScale, tw_goal = [102 / 100, 102 / 100, 102 / 100],
              tw_duration = 1 / 2, tw_ease = ''back.out(1.5)'', tw_onComplete = NoCallback\<rparr>]
     \<and> clickedCountryIdx g' = b
     \<and> clickedCountry g' = Some (nextObj g,
           \<lparr>sel_name = path_name (svgPaths cfg ! nat b), sel_id = path_id (svgPaths cfg ! nat b)\<rparr>)
     \<and> \<not> isMounted d' kA \<and> isMounted d' (nextRun d) \<and> cleanup d' = Some (nextRun d)
     \<and> closure d' (nextRun d) = Some
           \<lparr>sel_name = path_name (svgPaths cfg ! nat b), sel_id = path_id (svgPaths cfg ! nat b)\<rparr>
     \<and> weatherData d' = None \<and> countryDetails d' = None \<and> groundingSources d' = []
     \<and> aiSummary d' = (if noKey apiKey then Some ''Gemini API key not configured.'' else None)
     \<and> isLoadingWeather d'
     \<and> issued d' = issued d @ [(nextRun d, CountryByNameFull (path_name (svgPaths cfg ! nat b)))]
          @ (if noKey apiKey then []
             else [(nextRun d, GenerateContent (path_name (svgPaths cfg ! nat b)))])
     \<and> (\<forall>net r. weatherSettled kA net d' = d' \<and> summarySettled kA r d' = d')
     \<and> (\<forall>es' g'' d'' net r. appRun cfg apiKey es' (g', d') = Some (g'', d'')
           \<longrightarrow> weatherSettled kA net d'' = d'' \<and> summarySettled kA r d'' = d'')
     \<and> (\<forall>net country cap w.
           snd (fetchWeather_chain net
                  \<lparr>sel_name = path_name (svgPaths cfg ! nat b), sel_id = path_id (svgPaths cfg ! nat b)\<rparr>)
             = Got country cap (Some w)
           \<longrightarrow> countryDetails (weatherSettled (nextRun d) net d') = Some (mkDetails country cap)
             \<and> weatherData (weatherSettled (nextRun d) net d')
                 = Some \<lparr>wd_temperature = cw_temperature w, wd_windspeed = cw_windspeed w,
                         wd_weathercode = cw_weathercode w, wd_capital = cap\<rparr>)
     \<and> (\<forall>t cs. aiSummary (summarySettled (nextRun d) (AiResponse (Some t) cs) d')
                   = Some (if t = [] then ''No summary available.'' else t))"
proof -
  let ?sel = "\<lparr>sel_name = path_name (svgPaths cfg ! nat b), sel_id = path_id (svgPaths cfg ! nat b)\<rparr>"
  have ginv: "globeInv cfg g" and dinv: "detailInv d" using assms(1) by (rule app_reachable_inv)+
  have tk: "timersKnown g" using ginv by (simp add: globeInv_def)
  have hA: "hA \<noteq> 0" "hA < nextTimer g" using timersKnown_handle[OF tk assms(5)] by simp_all
  have r: "0 \<le> b" "b < int (length (svgPaths cfg))"
    using assms(7) by (auto simp add: hitOn_def split: option.splits)
  have ne: "clickedCountryIdx g \<noteq> b" using assms(2,8) by simp
  obtain t where t: "handleCountryClick cfg b g = Some t" "clickedCountryIdx t = b"
      "clickedCountry t = Some (nextObj g,
          \<lparr>sel_name = or_empty (path_name (svgPaths cfg ! nat b)),
           sel_id = or_empty (path_id (svgPaths cfg ! nat b))\<rparr>)"
      "clickTimeout t = Some (nextTimer g)"
      "timers t = filter (\<lambda>t. clickTimeout g \<noteq> Some (fst t) \<or> fst t = 0) (timers g)
          @ [(nextTimer g, 3000)]"
      "tweens t = filter (\<lambda>w. tw_target w \<noteq> ClickedScale) (tweens g)
          @ [\<lparr>tw_target = ClickedScale, tw_goal = [102 / 100, 102 / 100, 102 / 100],
              tw_duration = 1 / 2, tw_ease = ''back.out(1.5)'', tw_onComplete = NoCallback\<rparr>,
             \<lparr>tw_target = CameraZoom, tw_goal = [3 / 2], tw_duration = 8 / 10,
              tw_ease = ''power2.out'', tw_onComplete = NoCallback\<rparr>]"
    using handleCountryClick_fresh[OF r ne] by blast
  have cc: "clickedCountry t = Some (nextObj g, ?sel)" using t(3) by (simp add: or_empty_id)
  have flt: "filter (\<lambda>t. clickTimeout g \<noteq> Some (fst t) \<or> fst t = 0) (timers g)
      = filter (\<lambda>t. fst t \<noteq> hA) (timers g)"
    using hA(1) assms(4) by (intro filter_cong) auto
  have tm: "timers t = filter (\<lambda>t. fst t \<noteq> hA) (timers g) @ [(nextTimer g, 3000)]"
    using t(5) flt by simp
  have gone: "hA \<notin> fst ` set (timers t)" unfolding tm using hA(2) by auto
  have tw: "filter (\<lambda>w. tw_target w = ClickedScale) (tweens t)
          = [\<lparr>tw_target = ClickedScale, tw_goal = [102 / 100, 102 / 100, 102 / 100],
              tw_duration = 1 / 2, tw_ease = ''back.out(1.5)'', tw_onComplete = NoCallback\<rparr>]"
    unfolding t(6) by (simp add: filter_empty_conv)
  have st: "step cfg (Click hit) g = Some t"
    using hitOn_click[OF assms(7), of g] t(1) by (simp add: step_def)
  have inv: "globeInv cfg g" by (rule ginv)
  have fresh: "clickedCountry t \<noteq> clickedCountry g"
  proof
    assume eq: "clickedCountry t = clickedCountry g"
    have "freshIdentity g" using assms(1) by (rule mounted_identity)
    then show False using cc eq by (simp add: freshIdentity_def)
  qed
  let ?d' = "detailEffect apiKey (Some ?sel) d"
  have ap: "appStep cfg apiKey (Globe (Click hit)) (g, d) = Some (t, ?d')"
    using appStep_globe[OF st, of apiKey d] fresh cc by simp
  have stale: "staleRun kA ?d'" using assms(6) dinv by (rule detailEffect_unmounts)
  then have off: "\<not> isMounted ?d' kA" by (simp add: staleRun_def)
  have now: "\<forall>net r. weatherSettled kA net ?d' = ?d' \<and> summarySettled kA r ?d' = ?d'"
    using off by (simp add: weatherSettled_stale summarySettled_stale)
  have later: "\<forall>es' g'' d'' net r. appRun cfg apiKey es' (t, ?d') = Some (g'', d'')
           \<longrightarrow> weatherSettled kA net d'' = d'' \<and> summarySettled kA r d'' = d''"
  proof (intro allI impI)
    fix es' g'' d'' net r
    assume run: "appRun cfg apiKey es' (t, ?d') = Some (g'', d'')"
    have "staleRun kA (snd (t, ?d'))" using stale by simp
    from appRun_stale[OF this run] have "\<not> isMounted d'' kA" by (simp add: staleRun_def)
    then show "weatherSettled kA net d'' = d'' \<and> summarySettled kA r d'' = d''"
      by (simp add: weatherSettled_stale summarySettled_stale)
  qed
  have fields: "isMounted ?d' (nextRun d)" "cleanup ?d' = Some (nextRun d)"
     "closure ?d' (nextRun d) = Some ?sel"
     "weatherData ?d' = None" "countryDetails ?d' = None" "groundingSources ?d' = []"
     "aiSummary ?d' = (if noKey apiKey then Some ''Gemini API key not configured.'' else None)"
     "isLoadingWeather ?d'"
     "issued ?d' = issued d @ [(nextRun d, CountryByNameFull (path_name (svgPaths cfg ! nat b)))]
          @ (if noKey apiKey then []
             else [(nextRun d, GenerateContent (path_name (svgPaths cfg ! nat b)))])"
    by (simp_all add: detailEffect_some)
  have written: "\<forall>net country cap w.
           snd (fetchWeather_chain net ?sel) = Got country cap (Some w)
           \<longrightarrow> countryDetails (weatherSettled (nextRun d) net ?d') = Some (mkDetails country cap)
             \<and> weatherData (weatherSettled (nextRun d) net ?d')
                 = Some \<lparr>wd_temperature = cw_temperature w, wd_windspeed = cw_windspeed w,
                         wd_weathercode = cw_weathercode w, wd_capital = cap\<rparr>"
    using weatherSettled_got[OF _ fields(3) fields(1)] by blast
  have summary: "\<forall>t cs. aiSummary (summarySettled (nextRun d) (AiResponse (Some t) cs) ?d')
                   = Some (if t = [] then ''No summary available.'' else t)"
    using summary_shown(1)[OF fields(3) fields(1)] by blast
  show ?thesis
    apply (rule exI[of _ t])
    apply (rule exI[of _ ?d'])
    apply (intro conjI)
    apply (rule ap)
    apply (rule gone)
    apply (rule tm)
    apply (rule t(4))
    apply (rule tw)
    apply (rule t(2))
    apply (rule cc)
    apply (rule off)
    apply (rule fields(1))
    apply (rule fields(2))
    apply (rule fields(3))
    apply (rule fields(4))
    apply (rule fields(5))
    apply (rule fields(6))
    apply (rule fields(7))
    apply (rule fields(8))
    apply (rule fields(9))
    apply (rule now)
    apply (rule later)
    apply (rule written)
    apply (rule summary)
    done
qed


lemma demo_chain_bland:
  "fetchWeather_chain demoNet \<lparr>sel_name = ''Bland'', sel_id = ''002''\<rparr>
     = ([CountryByNameFull ''Bland'', CountryByAlpha ''002'', Forecast 1 2],
        Got (demoCountry ''Bland'') ''Bland City''
          (Some \<lparr>cw_temperature = 21, cw_windspeed = 5, cw_weathercode = 0\<rparr>))"
proof -
  have l: "lookupCountry demoNet \<lparr>sel_name = ''Bland'', sel_id = ''002''\<rparr>
      = ([CountryByNameFull ''Bland'', CountryByAlpha ''002''], Some (CountriesJson [demoCountry ''Bland'']))"
    by (simp add: lookupCountry_fallback[where ?b1.0="CountriesJson [demoCountry ''Bland'']"] demoNet_bland)
  have "fetchWeather_chain demoNet \<lparr>sel_name = ''Bland'', sel_id = ''002''\<rparr>
     = ([CountryByNameFull ''Bland'', CountryByAlpha ''002''] @ [Forecast 1 2],
        Got (demoCountry ''Bland'') ''Bland City''
          (Some \<lparr>cw_temperature = 21, cw_windspeed = 5, cw_weathercode = 0\<rparr>))"
    using l by (rule chain_got) (simp_all add: demoCountry_fields demoNet_bland)
  then show ?thesis by simp
qed

lemma reselect_within_one_run_demo:
  "timers (fst (demoApp (Some ''key'') [Globe (Click (Some uvA)), Globe (Click (Some uvB))])) = [(2, 3000)]
   \<and> clickedCountry (fst (demoApp (Some ''key'') [Globe (Click (Some uvA)), Globe (Click (Some uvB))]))
       = Some (1, \<lparr>sel_name = ''Bland'', sel_id = ''002''\<rparr>)
   \<and> \<not> isMounted (snd (demoApp (Some ''key'') [Globe (Click (Some uvA)), Globe (Click (Some uvB))])) 0
   \<and> isMounted (snd (demoApp (Some ''key'') [Globe (Click (Some uvA)), Globe (Click (Some uvB))])) 1
   \<and> weatherData (snd (demoApp (Some ''key'') [Globe (Click (Some uvA)), Globe (Click (Some uvB))])) = None
   \<and> issued (snd (demoApp (Some ''key'') [Globe (Click (Some uvA)), Globe (Click (Some uvB))]))
       = [(0, CountryByNameFull ''Aland''), (0, GenerateContent ''Aland''),
          (1, CountryByNameFull ''Bland''), (1, GenerateContent ''Bland'')]
   \<and> weatherSettled 0 demoNet (snd (demoApp (Some ''key'') [Globe (Click (Some uvA)), Globe (Click (Some uvB))]))
       = snd (demoApp (Some ''key'') [Globe (Click (Some uvA)), Globe (Click (Some uvB))])
   \<and> countryDetails (weatherSettled 1 demoNet
         (snd (demoApp (Some ''key'') [Globe (Click (Some uvA)), Globe (Click (Some uvB))])))
       = Some (mkDetails (demoCountry ''Bland'') ''Bland City'')"
proof -
  let ?key = "Some ''key''"
  let ?selA = "\<lparr>sel_name = ''Aland'', sel_id = ''001''\<rparr>"
  let ?d1 = "detailEffect ?key (Some ?selA) initDetail"
  obtain g1 where g1:
      "appRun (demoConfig False) ?key [Globe (Click (Some uvA))] (demoGlobe False, initDetail) = Some (g1, ?d1)"
      "clickedCountryIdx g1 = 0" "clickTimeout g1 = Some 1" "timers g1 = [(1, 3000)]"
      "nextTimer g1 = 2" "nextObj g1 = 1"
    using demo_app_clickA[of ?key] by blast
  have r1: "appRun (demoConfig False) ?key [Globe (Click (Some uvA))]
        (initGlobe (demoConfig False) [] None 0, initDetail) = Some (g1, ?d1)"
    using g1(1) by (simp add: demoGlobe_def)
  have nk: "\<not> noKey ?key" by (simp add: noKey_def)
  have d1: "cleanup ?d1 = Some 0" "nextRun ?d1 = 1"
    "issued ?d1 = [(0, CountryByNameFull ''Aland''), (0, GenerateContent ''Aland'')]"
    by (simp_all add: detailEffect_some initDetail_def nk)
  have pend: "1 \<in> fst ` set (timers g1)" by (simp add: g1(4))
  obtain g2 d2 where s2:
     "appStep (demoConfig False) ?key (Globe (Click (Some uvB))) (g1, ?d1) = Some (g2, d2)"
     "timers g2 = filter (\<lambda>t. fst t \<noteq> 1) (timers g1) @ [(nextTimer g1, 3000)]"
     "clickedCountry g2 = Some (nextObj g1,
           \<lparr>sel_name = path_name (svgPaths (demoConfig False) ! nat 1),
            sel_id = path_id (svgPaths (demoConfig False) ! nat 1)\<rparr>)"
     "\<not> isMounted d2 0" "isMounted d2 (nextRun ?d1)" "weatherData d2 = None"
     "issued d2 = issued ?d1 @ [(nextRun ?d1, CountryByNameFull (path_name (svgPaths (demoConfig False) ! nat 1)))]
          @ (if noKey ?key then []
             else [(nextRun ?d1, GenerateContent (path_name (svgPaths (demoConfig False) ! nat 1)))])"
     "\<forall>net r. weatherSettled 0 net d2 = d2 \<and> summarySettled 0 r d2 = d2"
     "\<forall>net country cap w.
           snd (fetchWeather_chain net
                  \<lparr>sel_name = path_name (svgPaths (demoConfig False) ! nat 1),
                   sel_id = path_id (svgPaths (demoConfig False) ! nat 1)\<rparr>)
             = Got country cap (Some w)
           \<longrightarrow> countryDetails (weatherSettled (nextRun ?d1) net d2) = Some (mkDetails country cap)
             \<and> weatherData (weatherSettled (nextRun ?d1) net d2)
                 = Some \<lparr>wd_temperature = cw_temperature w, wd_windspeed = cw_windspeed w,
                         wd_weathercode = cw_weathercode w, wd_capital = cap\<rparr>"
    using reselect_within_one_run[OF r1 g1(2) _ g1(3) pend d1(1) demo_hits(2)[of False]]
    by auto
  have shown: "countryDetails (weatherSettled 1 demoNet d2) = Some (mkDetails (demoCountry ''Bland'') ''Bland City'')"
    using s2(9) demo_chain_bland by (simp add: d1 demo_paths)
  have "appRun (demoConfig False) ?key ([Globe (Click (Some uvA))] @ [Globe (Click (Some uvB))])
       (demoGlobe False, initDetail) = Some (g2, d2)"
    using g1(1) s2(1) by (rule appRun_snoc)
  then have e: "demoApp ?key [Globe (Click (Some uvA)), Globe (Click (Some uvB))] = (g2, d2)"
    by (simp add: demoApp_def)
  show ?thesis
    unfolding e using s2(2-8) shown by (simp add: g1 d1 nk demo_paths)
qed

subsection \<open>Across two runs of the globe effect\<close>

lemma runConfig_demo: "runConfig (demoConfig a) b = demoConfig b"
  by (simp add: runConfig_def demoConfig_def)

lemma shareReact_fields:
  "clickedCountryIdx (shareReact src s) = clickedCountryIdx s"
  "clickTimeout (shareReact src s) = clickTimeout s"
  "timers (shareReact src s) = timers s"
  "clickedCountry (shareReact src s) = clickedCountry src"
  "countryName (shareReact src s) = countryName src"
  "nextObj (shareReact src s) = nextObj src"
  "nextTimer (shareReact src s) = nextTimer src"
  by (simp_all add: shareReact_def)

lemma clearTimeout_keeps:
  "clickedCountryIdx (clearTimeout h s) = clickedCountryIdx s"
  "clickedCountry (clearTimeout h s) = clickedCountry s"
  by (simp_all add: clearTimeout_def)

lemma pageRun_snoc:
  "pageRun base apiKey es pg = Some p1 \<Longrightarrow> pageStep base apiKey e p1 = Some p2
   \<Longrightarrow> pageRun base apiKey (es @ [e]) pg = Some p2"
proof (induction es arbitrary: pg)
  case Nil
  then show ?case by simp
next
  case (Cons a es)
  then show ?case by (cases "pageStep base apiKey a pg") simp_all
qed

text \<open>As long as the globe effect does not run again, the component is the one run.\<close>

lemma pageRun_current:
  "pageRun base apiKey (map Current es) pg
     = map_option (\<lambda>gd. pg\<lparr>current := fst gd, panel := snd gd\<rparr>)
         (appRun (runConfig base (deviceMotion pg)) apiKey es (current pg, panel pg))"
proof (induction es arbitrary: pg)
  case Nil
  then show ?case by simp
next
  case (Cons e es)
  show ?case
  proof (cases "appStep (runConfig base (deviceMotion pg)) apiKey e (current pg, panel pg)")
    case None
    then show ?thesis by (simp add: pageStep_def)
  next
    case (Some gd)
    then show ?thesis using Cons.IH[of "pg\<lparr>current := fst gd, panel := snd gd\<rparr>"]
      by (simp add: pageStep_def)
  qed
qed

text \<open>
  No event of the current run reaches a timeout of an earlier run; and when such a timeout
  fires while its run still has a country clicked, the selection of the component is
  cleared, whatever the current run has clicked.
\<close>

lemma current_event_keeps_retired:
  "pageStep base apiKey (Current ev) pg = Some pg' \<Longrightarrow> retired pg' = retired pg"
  by (auto simp add: pageStep_def split: option.splits)

lemma retired_timer_clears_selection:
  assumes "i < length (retired pg)" "h \<in> fst ` set (timers (snd (retired pg ! i)))"
      and "clickedCountryIdx (snd (retired pg ! i)) \<noteq> - 1"
  shows "clickedCountry (current (retiredTimerFired apiKey i h pg)) = None"
    and "clickedCountryIdx (current (retiredTimerFired apiKey i h pg)) = clickedCountryIdx (current pg)"
    and "timers (current (retiredTimerFired apiKey i h pg)) = timers (current pg)"
proof -
  let ?o = "clearTimeout h (shareReact (current pg) (snd (retired pg ! i)))"
  have idx: "clickedCountryIdx ?o \<noteq> - 1"
    using assms(3) by (simp add: clearTimeout_keeps shareReact_fields)
  show "clickedCountry (current (retiredTimerFired apiKey i h pg)) = None"
    using assms(1,2) revertClick_clicked(2)[OF idx]
    by (simp add: retiredTimerFired_def Let_def shareReact_fields)
  show "clickedCountryIdx (current (retiredTimerFired apiKey i h pg)) = clickedCountryIdx (current pg)"
    using assms(1,2) by (simp add: retiredTimerFired_def Let_def shareReact_fields)
  show "timers (current (retiredTimerFired apiKey i h pg)) = timers (current pg)"
    using assms(1,2) by (simp add: retiredTimerFired_def Let_def shareReact_fields)
qed

lemma demo_toggle_scenario:
  "\<exists>g1 g3 old.
     pageRun (demoConfig False) None
       [Current (Globe (Click (Some uvA))), MotionToggled, Current (Globe (Click (Some uvB)))]
       (initPage (demoConfig False))
       = Some \<lparr>deviceMotion = True, current = g3, retired = [(demoConfig False, g1)],
               panel = detailEffect None (Some \<lparr>sel_name = ''Bland'', sel_id = ''002''\<rparr>)
                         (detailEffect None (Some \<lparr>sel_name = ''Aland'', sel_id = ''001''\<rparr>) initDetail)\<rparr>
     \<and> timers g1 = [(1, 3000)] \<and> clickedCountryIdx g1 = 0
     \<and> clickedCountryIdx g3 = 1
     \<and> clickedCountry g3 = Some (1, \<lparr>sel_name = ''Bland'', sel_id = ''002''\<rparr>)
     \<and> clickTimeout g3 = Some 2 \<and> timers g3 = [(2, 3000)]
     \<and> pageRun (demoConfig False) None
       [Current (Globe (Click (Some uvA))), MotionToggled, Current (Globe (Click (Some uvB))),
        RetiredTimerFired 0 1]
       (initPage (demoConfig False))
       = Some \<lparr>deviceMotion = True, current = shareReact old g3, retired = [(demoConfig False, old)],
               panel = detailEffect None None
                         (detailEffect None (Some \<lparr>sel_name = ''Bland'', sel_id = ''002''\<rparr>)
                           (detailEffect None (Some \<lparr>sel_name = ''Aland'', sel_id = ''001''\<rparr>) initDetail))\<rparr>
     \<and> clickedCountry old = None \<and> timers old = []"
proof -
  let ?selA = "\<lparr>sel_name = ''Aland'', sel_id = ''001''\<rparr>"
  let ?selB = "\<lparr>sel_name = ''Bland'', sel_id = ''002''\<rparr>"
  let ?dA = "detailEffect None (Some ?selA) initDetail"
  let ?dB = "detailEffect None (Some ?selB) ?dA"
  let ?base = "demoConfig False"
  obtain g1 where g1:
      "appRun ?base None [Globe (Click (Some uvA))] (demoGlobe False, initDetail) = Some (g1, ?dA)"
      "clickedCountryIdx g1 = 0" "clickedCountry g1 = Some (0, ?selA)"
      "clickTimeout g1 = Some 1" "timers g1 = [(1, 3000)]" "nextTimer g1 = 2" "nextObj g1 = 1"
    using demo_app_clickA[of None] by blast
  have a1: "appStep ?base None (Globe (Click (Some uvA))) (demoGlobe False, initDetail) = Some (g1, ?dA)"
    using g1(1) by (simp split: option.splits)
  have s1: "pageStep ?base None (Current (Globe (Click (Some uvA)))) (initPage ?base)
      = Some \<lparr>deviceMotion = False, current = g1, retired = [], panel = ?dA\<rparr>"
    using a1 by (simp add: pageStep_def initPage_def runConfig_demo demoGlobe_def)
  define g2 where "g2 = shareReact g1 (initGlobe (demoConfig True) [] None 0)"
  have s2: "pageStep ?base None MotionToggled \<lparr>deviceMotion = False, current = g1, retired = [], panel = ?dA\<rparr>
      = Some \<lparr>deviceMotion = True, current = g2, retired = [(?base, g1)], panel = ?dA\<rparr>"
    by (simp add: pageStep_def toggleMotion_def runConfig_demo g2_def)
  have g2: "clickedCountryIdx g2 = - 1" "clickTimeout g2 = None" "timers g2 = []"
      "nextTimer g2 = 2" "nextObj g2 = 1" "clickedCountry g2 = Some (0, ?selA)"
    by (simp_all add: g2_def shareReact_fields g1 initGlobe_def)
  have ne: "clickedCountryIdx g2 \<noteq> 1" using g2(1) by simp
  obtain g3 where g3: "handleCountryClick (demoConfig True) 1 g2 = Some g3"
      "clickedCountryIdx g3 = 1"
      "clickedCountry g3 = Some (nextObj g2,
            \<lparr>sel_name = or_empty (path_name (svgPaths (demoConfig True) ! nat 1)),
             sel_id = or_empty (path_id (svgPaths (demoConfig True) ! nat 1))\<rparr>)"
      "clickTimeout g3 = Some (nextTimer g2)"
      "timers g3 = filter (\<lambda>t. clickTimeout g2 \<noteq> Some (fst t) \<or> fst t = 0) (timers g2)
          @ [(nextTimer g2, 3000)]"
    using handleCountryClick_fresh[of 1 "demoConfig True" g2] ne
    by (auto simp add: demo_paths)
  have g3': "clickedCountry g3 = Some (1, ?selB)" "clickTimeout g3 = Some 2" "timers g3 = [(2, 3000)]"
    using g3(3,4,5) by (simp_all add: g2 demo_paths or_empty_id)
  have "handleClick (demoConfig True) (Some uvB) g2 = handleCountryClick (demoConfig True) 1 g2"
    by (rule handleClick_hit[of _ "pickingCanvas demoRaster twoPaths"])
       (simp_all add: demo_fields demo_decode len_two)
  then have st3: "step (demoConfig True) (Click (Some uvB)) g2 = Some g3"
    using g3(1) by (simp add: step_def)
  have a3: "appStep (demoConfig True) None (Globe (Click (Some uvB))) (g2, ?dA) = Some (g3, ?dB)"
    using appStep_globe[OF st3, of None ?dA] by (simp add: g3' g2)
  have s3: "pageStep ?base None (Current (Globe (Click (Some uvB))))
        \<lparr>deviceMotion = True, current = g2, retired = [(?base, g1)], panel = ?dA\<rparr>
      = Some \<lparr>deviceMotion = True, current = g3, retired = [(?base, g1)], panel = ?dB\<rparr>"
    using a3 by (simp add: pageStep_def runConfig_demo)
  have r3: "pageRun ?base None
       [Current (Globe (Click (Some uvA))), MotionToggled, Current (Globe (Click (Some uvB)))]
       (initPage ?base)
       = Some \<lparr>deviceMotion = True, current = g3, retired = [(?base, g1)], panel = ?dB\<rparr>"
    by (simp add: s1 s2 s3)
  define old where "old = revertClick ?base (clearTimeout (Suc 0) (shareReact g3 g1))"
  have idx: "clickedCountryIdx (clearTimeout (Suc 0) (shareReact g3 g1)) \<noteq> - 1"
    by (simp add: clearTimeout_keeps shareReact_fields g1)
  have old: "clickedCountry old = None" "timers old = []"
    unfolding old_def
    using revertClick_clicked(2)[OF idx, of ?base] revertClick_clicked(8)[OF idx, of ?base]
    by (simp_all add: clearTimeout_def shareReact_fields g1)
  have s4: "pageStep ?base None (RetiredTimerFired 0 1)
        \<lparr>deviceMotion = True, current = g3, retired = [(?base, g1)], panel = ?dB\<rparr>
      = Some \<lparr>deviceMotion = True, current = shareReact old g3, retired = [(?base, old)],
              panel = detailEffect None None ?dB\<rparr>"
    by (simp add: pageStep_def retiredTimerFired_def g1 old_def[symmetric] Let_def
        shareReact_fields old g3')
  have r4: "pageRun ?base None
       ([Current (Globe (Click (Some uvA))), MotionToggled, Current (Globe (Click (Some uvB)))]
        @ [RetiredTimerFired 0 1])
       (initPage ?base)
       = Some \<lparr>deviceMotion = True, current = shareReact old g3, retired = [(?base, old)],
              panel = detailEffect None None ?dB\<rparr>"
    using r3 s4 by (rule pageRun_snoc)
  show ?thesis
    apply (rule exI[of _ g1])
    apply (rule exI[of _ g3])
    apply (rule exI[of _ old])
    using r3 r4 g1(2,5) g3(2) g3' old by simp
qed


text \<open>
  Claim C4 fails on the code when the globe effect has run again in between. Aland is
  clicked, then the device-motion button is pressed, then Bland is clicked, all within
  three seconds. The click on Bland happens in the new run of the effect, whose
  \<^verbatim>\<open>clickTimeout\<close> is \<^verbatim>\<open>null\<close>: it sets \<^verbatim>\<open>clickedCountry\<close> to Bland and starts the detail
  run 1, whose answers would be shown, but the timeout of Aland, which the old run holds,
  is not cleared. When that timeout fires, the \<^verbatim>\<open>revertClick\<close> of the old run finds its own
  \<^verbatim>\<open>clickedCountryIdx\<close> still on Aland and sets \<^verbatim>\<open>clickedCountry\<close> to \<^verbatim>\<open>null\<close>: the panel of
  Bland closes, its detail run is unmounted and its answers are dropped, while the new run
  still has Bland clicked and its own timeout pending.
\<close>

theorem reselect_after_motion_toggle:
  "clickedCountry (current (demoPage
       [Current (Globe (Click (Some uvA))), MotionToggled, Current (Globe (Click (Some uvB)))]))
     = Some (1, \<lparr>sel_name = ''Bland'', sel_id = ''002''\<rparr>)
   \<and> map (timers \<circ> snd) (retired (demoPage
       [Current (Globe (Click (Some uvA))), MotionToggled, Current (Globe (Click (Some uvB)))]))
     = [[(1, 3000)]]
   \<and> timers (current (demoPage
       [Current (Globe (Click (Some uvA))), MotionToggled, Current (Globe (Click (Some uvB)))]))
     = [(2, 3000)]
   \<and> isMounted (panel (demoPage
       [Current (Globe (Click (Some uvA))), MotionToggled, Current (Globe (Click (Some uvB)))])) 1
   \<and> countryDetails (weatherSettled 1 demoNet (panel (demoPage
       [Current (Globe (Click (Some uvA))), MotionToggled, Current (Globe (Click (Some uvB)))])))
     = Some (mkDetails (demoCountry ''Bland'') ''Bland City'')
   \<and> clickedCountry (current (demoPage
       [Current (Globe (Click (Some uvA))), MotionToggled, Current (Globe (Click (Some uvB))),
        RetiredTimerFired 0 1]))
     = None
   \<and> clickedCountryIdx (current (demoPage
       [Current (Globe (Click (Some uvA))), MotionToggled, Current (Globe (Click (Some uvB))),
        RetiredTimerFired 0 1]))
     = 1
   \<and> timers (current (demoPage
       [Current (Globe (Click (Some uvA))), MotionToggled, Current (Globe (Click (Some uvB))),
        RetiredTimerFired 0 1]))
     = [(2, 3000)]
   \<and> \<not> isMounted (panel (demoPage
       [Current (Globe (Click (Some uvA))), MotionToggled, Current (Globe (Click (Some uvB))),
        RetiredTimerFired 0 1])) 1
   \<and> countryDetails (weatherSettled 1 demoNet (panel (demoPage
       [Current (Globe (Click (Some uvA))), MotionToggled, Current (Globe (Click (Some uvB))),
        RetiredTimerFired 0 1])))
     = None"
proof -
  let ?selA = "\<lparr>sel_name = ''Aland'', sel_id = ''001''\<rparr>"
  let ?selB = "\<lparr>sel_name = ''Bland'', sel_id = ''002''\<rparr>"
  let ?dA = "detailEffect None (Some ?selA) initDetail"
  let ?dB = "detailEffect None (Some ?selB) ?dA"
  let ?dN = "detailEffect None None ?dB"
  obtain g1 g3 old where sc:
    "pageRun (demoConfig False) None
       [Current (Globe (Click (Some uvA))), MotionToggled, Current (Globe (Click (Some uvB)))]
       (initPage (demoConfig False))
       = Some \<lparr>deviceMotion = True, current = g3, retired = [(demoConfig False, g1)], panel = ?dB\<rparr>"
    "timers g1 = [(1, 3000)]" "clickedCountryIdx g3 = 1"
    "clickedCountry g3 = Some (1, ?selB)" "timers g3 = [(2, 3000)]"
    "pageRun (demoConfig False) None
       [Current (Globe (Click (Some uvA))), MotionToggled, Current (Globe (Click (Some uvB))),
        RetiredTimerFired 0 1]
       (initPage (demoConfig False))
       = Some \<lparr>deviceMotion = True, current = shareReact old g3, retired = [(demoConfig False, old)],
               panel = ?dN\<rparr>"
    "clickedCountry old = None"
    using demo_toggle_scenario by blast
  have e3: "demoPage [Current (Globe (Click (Some uvA))), MotionToggled, Current (Globe (Click (Some uvB)))]
      = \<lparr>deviceMotion = True, current = g3, retired = [(demoConfig False, g1)], panel = ?dB\<rparr>"
    unfolding demoPage_def sc(1) by simp
  have e4: "demoPage [Current (Globe (Click (Some uvA))), MotionToggled, Current (Globe (Click (Some uvB))),
        RetiredTimerFired 0 1]
      = \<lparr>deviceMotion = True, current = shareReact old g3, retired = [(demoConfig False, old)],
         panel = ?dN\<rparr>"
    unfolding demoPage_def sc(6) by simp
  have nA: "nextRun ?dA = 1" "cleanup ?dA = Some 0"
    by (simp_all add: detailEffect_some initDetail_def)
  have dB: "isMounted ?dB 1" "closure ?dB 1 = Some ?selB" "cleanup ?dB = Some 1"
    using detailEffect_some(1,4,2)[of None ?selB ?dA] by (simp_all add: nA)
  have shown: "countryDetails (weatherSettled 1 demoNet ?dB)
      = Some (mkDetails (demoCountry ''Bland'') ''Bland City'')"
    by (rule weatherSettled_got(1)[OF _ dB(2) dB(1)]) (simp add: demo_chain_bland)
  have dN: "\<not> isMounted ?dN 1" "countryDetails ?dN = None"
    using detailEffect_none(1,5)[of None ?dB] by (simp_all add: runCleanup_fields dB)
  have dropped: "weatherSettled 1 demoNet ?dN = ?dN" using dN(1) by (rule weatherSettled_stale)
  show ?thesis
    unfolding e3 e4
    using sc(2-5,7) dB(1) shown dN dropped
    by (simp add: shareReact_fields)
qed

section \<open>The camera view\<close>

lemma setupCamera_denied:
  "setupCamera True Denied c = c\<lparr>error := Some ''Could not access camera'', isCameraOn := False\<rparr>"
  by (simp add: setupCamera_def)

text \<open>
  A run holds only the stream it was granted before its cleanup: a late grant is held by
  no run, and the cleanup that follows stops nothing more than it would have without it.
\<close>

lemma lateGrant_not_stopped:
  "stream (lateGrant s c) = stream c"
  "stopped (cameraCleanup (lateGrant s c)) = stopped (cameraCleanup c)"
  by (simp_all add: lateGrant_def cameraCleanup_def split: option.splits)

text \<open>
  Claim C9. In every run of \<^verbatim>\<open>setupCamera\<close> that turns the camera on and whose
  \<^verbatim>\<open>getUserMedia\<close> rejects, whatever the state is by then, the continuation sets \<^verbatim>\<open>error\<close>
  to \<^verbatim>\<open>Could not access camera\<close> and \<^verbatim>\<open>isCameraOn\<close> to false, and changes nothing else.
  When it rejects at once, after the render and the effect run that follow the message
  is still there, the camera is off, the video element is gone and no stream is held.
\<close>

theorem camera_denied_shows_error:
  "setupCamera True Denied c = c\<lparr>error := Some ''Could not access camera'', isCameraOn := False\<rparr>
   \<and> (isCameraOn c
      \<longrightarrow> error (cameraEffect Denied c) = Some ''Could not access camera''
        \<and> \<not> isCameraOn (cameraEffect Denied c)
        \<and> srcObject (cameraEffect Denied c) = None
        \<and> stream (cameraEffect Denied c) = None)"
proof (intro conjI impI)
  show e: "setupCamera True Denied c = c\<lparr>error := Some ''Could not access camera'', isCameraOn := False\<rparr>"
    by (rule setupCamera_denied)
  assume on: "isCameraOn c"
  let ?c2 = "cameraCleanup (cameraRender (setupCamera True Denied c))"
  have off: "\<not> isCameraOn ?c2"
    unfolding e by (simp add: cameraRender_def cameraCleanup_def split: option.splits)
  have f: "cameraEffect Denied c = setupCamera False Denied ?c2"
    using on off by (simp add: cameraEffect_def Let_def e)
  show "error (cameraEffect Denied c) = Some ''Could not access camera''"
    "\<not> isCameraOn (cameraEffect Denied c)"
    "srcObject (cameraEffect Denied c) = None"
    "stream (cameraEffect Denied c) = None"
    unfolding f e
    by (simp_all add: cameraRender_def cameraCleanup_def setupCamera_def split: option.splits)
qed

theorem camera_denied_shows_error_witness:
  "error (cameraEffect Denied (toggleCamera initCamera)) = Some ''Could not access camera''
   \<and> \<not> isCameraOn (cameraEffect Denied (toggleCamera initCamera))
   \<and> isCameraOn (toggleCamera initCamera)
   \<and> error (toggleCamera initCamera) = None"
proof -
  have on: "isCameraOn (toggleCamera initCamera)" "error (toggleCamera initCamera) = None"
    by (simp_all add: toggleCamera_def cameraCleanup_def cameraRender_def initCamera_def)
  show ?thesis using camera_denied_shows_error[of "toggleCamera initCamera"] on by simp
qed


end
